theory Spec2Isabelle
  imports Main "HOL-Library.AList"
begin

section \<open>Data model\<close>

text \<open>
  The embedding follows \<^verbatim>\<open>src/lib/remotestorage-todonna.ts\<close> (the main Todonna module),
  the lightweight \<^verbatim>\<open>TodonnaModule\<close> that follows the AI proxy route in
  \<^verbatim>\<open>src/app/api/ai-proxy/route.js\<close>, and the \<^verbatim>\<open>useData\<close> hook of
  \<^verbatim>\<open>src/unnamed/part_001\<close>.

  A JavaScript property that is absent or \<^verbatim>\<open>undefined\<close> is \<open>None\<close>; where the
  code tells the two apart, in the object spread of \<^verbatim>\<open>update\<close>, the model does too
  (the types \<open>partial\<close> and \<open>TodoObject\<close> below). Both records
  of the source have fields called \<^verbatim>\<open>emoji\<close>, \<^verbatim>\<open>date\<close> and \<^verbatim>\<open>time\<close>, so the
  fields of the domain record carry the prefix \<open>todo_\<close> and the extra fields of the wire
  record the prefix \<open>item_\<close>.
\<close>

datatype status = Pending | Done | Archived

text \<open>
  A \<^verbatim>\<open>Date\<close> object is its time value in milliseconds since the epoch, or
  \<open>None\<close> for \<^verbatim>\<open>Invalid Date\<close>. The \<^verbatim>\<open>date\<close> property of a record holds a
  \<^verbatim>\<open>Date\<close> object or a string.
\<close>

type_synonym js_date = "int option"

datatype date_field = DateObj js_date | DateStr string

record TodoItem =
  todo_id :: string
  todo_text :: "string option"
  todo_completed :: "bool option"
  todo_status :: "status option"
  todo_emoji :: "string option"
  todo_date :: "date_field option"
  todo_time :: "string option"
  todo_removed :: "bool option"

text \<open>
  The wire object \<^verbatim>\<open>TodonnaItem\<close>. Its index signature admits further keys; the two the
  code reads or writes are the legacy \<^verbatim>\<open>completed\<close> flag and \<^verbatim>\<open>removed\<close>.
\<close>

record TodonnaItem =
  todo_item_id :: "string option"
  todo_item_text :: "string option"
  todo_item_status :: "status option"
  item_emoji :: "string option"
  item_date :: "string option"
  item_time :: "string option"
  item_completed :: "bool option"
  item_removed :: "bool option"

text \<open>
  What the code takes from the JavaScript platform: \<^verbatim>\<open>Date.prototype.toISOString\<close> on a
  valid time value, the parser behind \<^verbatim>\<open>new Date(string)\<close>,
  \<^verbatim>\<open>Date.prototype.toDateString\<close> (the local calendar day), and the reading of the
  system clock by \<^verbatim>\<open>new Date()\<close> when the entry stored at a key is decoded.
\<close>

record js_env =
  toISOString :: "int \<Rightarrow> string"
  parseDate :: "string \<Rightarrow> js_date"
  toDateString :: "js_date \<Rightarrow> string"
  clock :: "string \<Rightarrow> int"

datatype error =
    NotFound string
  | RangeError
  | CallbackError
  | ClientNotFound
  | ClientFailure
  | NotConnected
  | TypeError

section \<open>The record codec of the main module\<close>

text \<open>\<^verbatim>\<open>todo.date instanceof Date ? todo.date.toISOString() : todo.date\<close>, under
  \<^verbatim>\<open>todo.date !== undefined\<close>; \<^verbatim>\<open>toISOString\<close> of an invalid date throws.\<close>

fun date_to_wire :: "js_env \<Rightarrow> date_field option \<Rightarrow> error + string option" where
  "date_to_wire env None = Inr None"
| "date_to_wire env (Some (DateObj None)) = Inl RangeError"
| "date_to_wire env (Some (DateObj (Some t))) = Inr (Some (toISOString env t))"
| "date_to_wire env (Some (DateStr s)) = Inr (Some s)"

text \<open>\<^verbatim>\<open>x !== undefined && x !== ''\<close> guards the optional strings.\<close>

fun nonempty :: "string option \<Rightarrow> string option" where
  "nonempty None = None"
| "nonempty (Some s) = (if s \<noteq> [] then Some s else None)"

definition wire_status :: "TodoItem \<Rightarrow> status option" where
  "wire_status todo =
     (case todo_completed todo of
        Some c \<Rightarrow> Some (if c then Done else Pending)
      | None \<Rightarrow> todo_status todo)"

definition toTodonnaItem :: "js_env \<Rightarrow> TodoItem \<Rightarrow> error + TodonnaItem" where
  "toTodonnaItem env todo =
     (case date_to_wire env (todo_date todo) of
        Inl e \<Rightarrow> Inl e
      | Inr d \<Rightarrow>
          Inr \<lparr> todo_item_id = Some (todo_id todo),
                todo_item_text = todo_text todo,
                todo_item_status = wire_status todo,
                item_emoji = nonempty (todo_emoji todo),
                item_date = d,
                item_time = nonempty (todo_time todo),
                item_completed = None,
                item_removed = None \<rparr>)"

text \<open>\<^verbatim>\<open>item.todo_item_status\<close> is truthy for each of the three status strings; the
  legacy flag counts only when it is \<^verbatim>\<open>=== true\<close>.\<close>

definition wire_completed :: "TodonnaItem \<Rightarrow> bool" where
  "wire_completed item =
     (case todo_item_status item of
        Some s \<Rightarrow> s = Done
      | None \<Rightarrow> item_completed item = Some True)"

text \<open>\<^verbatim>\<open>a || b\<close> on an optional string: the empty string is falsy.\<close>

fun or_else :: "string option \<Rightarrow> string \<Rightarrow> string" where
  "or_else None d = d"
| "or_else (Some s) d = (if s \<noteq> [] then s else d)"

text \<open>\<^verbatim>\<open>item.date ? new Date(item.date) : new Date()\<close>.\<close>

fun wire_date :: "js_env \<Rightarrow> int \<Rightarrow> string option \<Rightarrow> js_date" where
  "wire_date env now None = Some now"
| "wire_date env now (Some s) = (if s \<noteq> [] then parseDate env s else Some now)"

definition fromTodonnaItem :: "js_env \<Rightarrow> int \<Rightarrow> string \<Rightarrow> TodonnaItem \<Rightarrow> TodoItem" where
  "fromTodonnaItem env now key item =
     \<lparr> todo_id = or_else (todo_item_id item) key,
       todo_text = todo_item_text item,
       todo_completed = None,
       todo_status = Some (if wire_completed item then Done else Pending),
       todo_emoji = item_emoji item,
       todo_date = Some (DateObj (wire_date env now (item_date item))),
       todo_time = item_time item,
       todo_removed = Some False \<rparr>"

section \<open>The scope client\<close>

text \<open>
  The \<^verbatim>\<open>privateClient\<close> of remoteStorage.js is an external collaborator. The model
  keeps what the module depends on: the objects of the scope by key, in listing order;
  which calls the backend rejects; and the log of the calls the module makes, each with
  the \<^verbatim>\<open>maxAge\<close> it forwards (\<open>None\<close> is \<^verbatim>\<open>undefined\<close>). A stored body that
  is not an object is \<open>NonObject\<close>, with its truthiness.
\<close>

datatype stored = WireObject TodonnaItem | NonObject bool

datatype client_call =
    GetObject string "nat option"
  | GetListing string "nat option"
  | StoreObject string string TodonnaItem
  | Remove string

record scope =
  objects :: "(string \<times> stored) list"
  fetch_failure :: "string \<Rightarrow> error option"
  listing_failure :: "error option"
  store_rejects :: "string \<Rightarrow> TodonnaItem \<Rightarrow> bool"
  remove_rejects :: "string \<Rightarrow> bool"
  calls :: "client_call list"

definition getObject :: "scope \<Rightarrow> string \<Rightarrow> nat option \<Rightarrow> (error + stored option) \<times> scope" where
  "getObject c key maxAge =
     (case fetch_failure c key of
        Some e \<Rightarrow> Inl e
      | None \<Rightarrow> Inr (map_of (objects c) key),
      c\<lparr>calls := calls c @ [GetObject key maxAge]\<rparr>)"

text \<open>The listing is a JavaScript object, so each key occurs once in it.\<close>

definition getListing :: "scope \<Rightarrow> string \<Rightarrow> nat option \<Rightarrow> (error + string list option) \<times> scope" where
  "getListing c prefix maxAge =
     (case listing_failure c of
        Some e \<Rightarrow> Inl e
      | None \<Rightarrow> Inr (Some (remdups (map fst (objects c)))),
      c\<lparr>calls := calls c @ [GetListing prefix maxAge]\<rparr>)"

definition storeObject :: "scope \<Rightarrow> string \<Rightarrow> string \<Rightarrow> TodonnaItem \<Rightarrow> (error + unit) \<times> scope" where
  "storeObject c alias_name key item =
     (let c' = c\<lparr>calls := calls c @ [StoreObject alias_name key item]\<rparr>
      in if store_rejects c key item then (Inl ClientFailure, c')
         else (Inr (), c'\<lparr>objects := AList.update key (WireObject item) (objects c)\<rparr>))"

definition remove_key :: "scope \<Rightarrow> string \<Rightarrow> (error + unit) \<times> scope" where
  "remove_key c key =
     (let c' = c\<lparr>calls := calls c @ [Remove key]\<rparr>
      in if remove_rejects c key then (Inl ClientFailure, c')
         else (Inr (), c'\<lparr>objects := AList.delete key (objects c)\<rparr>))"

section \<open>The main Todonna module\<close>

record LoadOptions =
  maxAge :: "nat option"
  includeRemoved :: "bool option"

datatype callback_outcome = Returns | Throws

record BatchOperationOptions =
  stopOnError :: "bool option"
  onProgress :: "(nat \<Rightarrow> nat \<Rightarrow> callback_outcome) option"

record BatchResult =
  succeeded :: nat
  failed :: nat
  errors :: "(string \<times> error) list"

text \<open>
  A partial record, as \<^verbatim>\<open>update\<close> receives it: a key is left out (\<open>Omitted\<close>) or
  given, possibly as \<^verbatim>\<open>undefined\<close> (\<open>Given None\<close>). The object spread copies every
  key that is given.
\<close>

datatype 'a partial = Omitted | Given "'a option"

record TodoPartial =
  p_id :: "string option"
  p_text :: "string partial"
  p_completed :: "bool partial"
  p_status :: "status partial"
  p_emoji :: "string partial"
  p_date :: "date_field partial"
  p_time :: "string partial"
  p_removed :: "bool partial"

fun over :: "'a option \<Rightarrow> 'a partial \<Rightarrow> 'a option" where
  "over old Omitted = old"
| "over old (Given v) = v"

text \<open>\<^verbatim>\<open>{ ...currentTodo, ...updates, id }\<close>: the trailing \<^verbatim>\<open>id\<close> wins over both.\<close>

definition spread :: "TodoItem \<Rightarrow> TodoPartial \<Rightarrow> string \<Rightarrow> TodoItem" where
  "spread currentTodo updates ident =
     \<lparr> todo_id = ident,
       todo_text = over (todo_text currentTodo) (p_text updates),
       todo_completed = over (todo_completed currentTodo) (p_completed updates),
       todo_status = over (todo_status currentTodo) (p_status updates),
       todo_emoji = over (todo_emoji currentTodo) (p_emoji updates),
       todo_date = over (todo_date currentTodo) (p_date updates),
       todo_time = over (todo_time currentTodo) (p_time updates),
       todo_removed = over (todo_removed currentTodo) (p_removed updates) \<rparr>"

definition Todonna_add :: "js_env \<Rightarrow> scope \<Rightarrow> TodoItem \<Rightarrow> (error + unit) \<times> scope" where
  "Todonna_add env c todo =
     (case toTodonnaItem env todo of
        Inl e \<Rightarrow> (Inl e, c)
      | Inr item \<Rightarrow> storeObject c ''todonna-item'' (todo_id todo) item)"

definition Todonna_update :: "js_env \<Rightarrow> scope \<Rightarrow> string \<Rightarrow> TodoPartial \<Rightarrow> (error + unit) \<times> scope" where
  "Todonna_update env c ident updates =
     (case getObject c ident (Some 0) of
        (Inl e, c1) \<Rightarrow> (Inl e, c1)
      | (Inr None, c1) \<Rightarrow> (Inl (NotFound ident), c1)
      | (Inr (Some (NonObject b)), c1) \<Rightarrow> (Inl (NotFound ident), c1)
      | (Inr (Some (WireObject existing)), c1) \<Rightarrow>
          (let currentTodo = fromTodonnaItem env (clock env ident) ident existing;
               updatedTodo = spread currentTodo updates ident
           in case toTodonnaItem env updatedTodo of
                Inl e \<Rightarrow> (Inl e, c1)
              | Inr item \<Rightarrow> storeObject c1 ''todonna-item'' ident item))"

definition Todonna_remove :: "scope \<Rightarrow> string \<Rightarrow> (error + unit) \<times> scope" where
  "Todonna_remove c ident = remove_key c ident"

text \<open>The guard shared by \<^verbatim>\<open>get\<close> and the loader of \<^verbatim>\<open>getAll\<close>:
  \<^verbatim>\<open>item && typeof item === 'object' && 'todo_item_text' in item\<close>.\<close>

fun decode_entry :: "js_env \<Rightarrow> string \<Rightarrow> stored option \<Rightarrow> TodoItem option" where
  "decode_entry env key None = None"
| "decode_entry env key (Some (NonObject b)) = None"
| "decode_entry env key (Some (WireObject item)) =
     (if todo_item_text item \<noteq> None then Some (fromTodonnaItem env (clock env key) key item)
      else None)"

definition Todonna_get :: "js_env \<Rightarrow> scope \<Rightarrow> string \<Rightarrow> nat option \<Rightarrow> (error + TodoItem option) \<times> scope" where
  "Todonna_get env c ident age =
     (case getObject c ident age of
        (Inl e, c1) \<Rightarrow> (Inl e, c1)
      | (Inr item, c1) \<Rightarrow> (Inr (decode_entry env ident item), c1))"

text \<open>
  \<^verbatim>\<open>Promise.allSettled\<close> over the file names: every fetch is issued, a rejected one
  settles as \<open>Inl\<close>. The loop afterwards keeps the fulfilled, non-null results that pass
  the \<^verbatim>\<open>removed\<close> filter.
\<close>

fun settle_all :: "js_env \<Rightarrow> nat option \<Rightarrow> string list \<Rightarrow> scope \<Rightarrow> (error + TodoItem option) list \<times> scope" where
  "settle_all env age [] c = ([], c)"
| "settle_all env age (filename # rest) c =
     (case getObject c filename age of
        (r, c1) \<Rightarrow>
          (case settle_all env age rest c1 of
             (rs, c2) \<Rightarrow>
               ((case r of Inl e \<Rightarrow> Inl e | Inr item \<Rightarrow> Inr (decode_entry env filename item)) # rs,
                c2)))"

fun truthy :: "bool option \<Rightarrow> bool" where
  "truthy None = False"
| "truthy (Some b) = b"

fun keep_results :: "bool \<Rightarrow> (error + TodoItem option) list \<Rightarrow> TodoItem list" where
  "keep_results incl [] = []"
| "keep_results incl (Inl e # rs) = keep_results incl rs"
| "keep_results incl (Inr None # rs) = keep_results incl rs"
| "keep_results incl (Inr (Some todo) # rs) =
     (if incl \<or> \<not> truthy (todo_removed todo) then todo # keep_results incl rs
      else keep_results incl rs)"

text \<open>\<^verbatim>\<open>options?.maxAge ?? 1000 * 60 * 60 * 24\<close> and
  \<^verbatim>\<open>options?.includeRemoved ?? false\<close>.\<close>

definition opt_maxAge :: "LoadOptions option \<Rightarrow> nat" where
  "opt_maxAge options =
     (case options of
        None \<Rightarrow> 1000 * 60 * 60 * 24
      | Some opts \<Rightarrow> (case maxAge opts of None \<Rightarrow> 1000 * 60 * 60 * 24 | Some a \<Rightarrow> a))"

definition opt_includeRemoved :: "LoadOptions option \<Rightarrow> bool" where
  "opt_includeRemoved options =
     (case options of
        None \<Rightarrow> False
      | Some opts \<Rightarrow> (case includeRemoved opts of None \<Rightarrow> False | Some b \<Rightarrow> b))"

definition Todonna_getAll :: "js_env \<Rightarrow> scope \<Rightarrow> LoadOptions option \<Rightarrow> (error + TodoItem list) \<times> scope" where
  "Todonna_getAll env c options =
     (case getListing c [] (Some (opt_maxAge options)) of
        (Inl e, c1) \<Rightarrow> (Inl e, c1)
      | (Inr None, c1) \<Rightarrow> (Inr [], c1)
      | (Inr (Some filenames), c1) \<Rightarrow>
          (case settle_all env (Some (opt_maxAge options)) filenames c1 of
             (results, c2) \<Rightarrow> (Inr (keep_results (opt_includeRemoved options) results), c2)))"

text \<open>\<^verbatim>\<open>new Date(todo.date)\<close> in the filter of \<^verbatim>\<open>getByDate\<close>.\<close>

fun newDate :: "js_env \<Rightarrow> date_field option \<Rightarrow> js_date" where
  "newDate env None = None"
| "newDate env (Some (DateObj d)) = d"
| "newDate env (Some (DateStr s)) = parseDate env s"

definition Todonna_getByDate :: "js_env \<Rightarrow> scope \<Rightarrow> js_date \<Rightarrow> LoadOptions option \<Rightarrow> (error + TodoItem list) \<times> scope" where
  "Todonna_getByDate env c d options =
     (case Todonna_getAll env c options of
        (Inl e, c1) \<Rightarrow> (Inl e, c1)
      | (Inr allTodos, c1) \<Rightarrow>
          (Inr (filter (\<lambda>todo. toDateString env (newDate env (todo_date todo)) = toDateString env d)
                  allTodos), c1))"

subsection \<open>Batch operations\<close>

text \<open>\<^verbatim>\<open>options?.onProgress?.(i + 1, todos.length)\<close> and \<^verbatim>\<open>options?.stopOnError\<close>.\<close>

definition progress :: "BatchOperationOptions option \<Rightarrow> nat \<Rightarrow> nat \<Rightarrow> callback_outcome" where
  "progress options done_count count_all =
     (case options of
        None \<Rightarrow> Returns
      | Some opts \<Rightarrow> (case onProgress opts of None \<Rightarrow> Returns | Some f \<Rightarrow> f done_count count_all))"

definition stops :: "BatchOperationOptions option \<Rightarrow> bool" where
  "stops options = (case options of None \<Rightarrow> False | Some opts \<Rightarrow> truthy (stopOnError opts))"

definition empty_result :: BatchResult where
  "empty_result = \<lparr> succeeded = 0, failed = 0, errors = [] \<rparr>"

text \<open>The first two statements of the \<^verbatim>\<open>catch\<close> block.\<close>

definition record_failure :: "BatchResult \<Rightarrow> string \<Rightarrow> error \<Rightarrow> BatchResult" where
  "record_failure result ident e =
     result\<lparr> failed := failed result + 1, errors := errors result @ [(ident, e)] \<rparr>"

text \<open>
  The \<^verbatim>\<open>for\<close> loop that \<^verbatim>\<open>batchAdd\<close>, \<^verbatim>\<open>batchUpdate\<close> and \<^verbatim>\<open>batchRemove\<close>
  each spell out, over the operation awaited in the \<^verbatim>\<open>try\<close> block and the id pushed
  in the \<^verbatim>\<open>catch\<close> block. The progress callback runs inside the \<^verbatim>\<open>try\<close> block,
  after \<^verbatim>\<open>result.succeeded++\<close>.
\<close>

fun batch_loop ::
  "(scope \<Rightarrow> 'a \<Rightarrow> (error + unit) \<times> scope) \<Rightarrow> ('a \<Rightarrow> string) \<Rightarrow> BatchOperationOptions option \<Rightarrow>
   nat \<Rightarrow> nat \<Rightarrow> 'a list \<Rightarrow> BatchResult \<Rightarrow> scope \<Rightarrow> BatchResult \<times> scope" where
  "batch_loop operation ident options count_all i [] result c = (result, c)"
| "batch_loop operation ident options count_all i (x # xs) result c =
     (case operation c x of
        (Inr u, c1) \<Rightarrow>
          (let result1 = result\<lparr> succeeded := succeeded result + 1 \<rparr>
           in case progress options (i + 1) count_all of
                Returns \<Rightarrow> batch_loop operation ident options count_all (i + 1) xs result1 c1
              | Throws \<Rightarrow>
                  (let result2 = record_failure result1 (ident x) CallbackError
                   in if stops options then (result2, c1)
                      else batch_loop operation ident options count_all (i + 1) xs result2 c1))
      | (Inl e, c1) \<Rightarrow>
          (let result2 = record_failure result (ident x) e
           in if stops options then (result2, c1)
              else batch_loop operation ident options count_all (i + 1) xs result2 c1))"

definition batchAdd ::
  "js_env \<Rightarrow> scope \<Rightarrow> TodoItem list \<Rightarrow> BatchOperationOptions option \<Rightarrow> BatchResult \<times> scope" where
  "batchAdd env c todos options =
     batch_loop (Todonna_add env) todo_id options (length todos) 0 todos empty_result c"

definition batchUpdate ::
  "js_env \<Rightarrow> scope \<Rightarrow> (string \<times> TodoPartial) list \<Rightarrow> BatchOperationOptions option \<Rightarrow>
   BatchResult \<times> scope" where
  "batchUpdate env c updates options =
     batch_loop (\<lambda>c1 u. Todonna_update env c1 (fst u) (snd u)) fst options (length updates) 0
       updates empty_result c"

definition batchRemove ::
  "scope \<Rightarrow> string list \<Rightarrow> BatchOperationOptions option \<Rightarrow> BatchResult \<times> scope" where
  "batchRemove c ids options =
     batch_loop Todonna_remove (\<lambda>ident. ident) options (length ids) 0 ids empty_result c"

subsection \<open>Reconciliation\<close>

text \<open>
  A record as a caller hands it to \<^verbatim>\<open>replaceAll\<close>. The code reads its \<^verbatim>\<open>id\<close>,
  lets \<^verbatim>\<open>add\<close> read its properties, and passes it whole as the \<^verbatim>\<open>updates\<close> of
  \<^verbatim>\<open>update\<close>, where the object spread copies each of its own keys, also a key whose
  value is \<^verbatim>\<open>undefined\<close> (a record that \<^verbatim>\<open>getAll\<close> returned has the keys
  \<^verbatim>\<open>emoji\<close> and \<^verbatim>\<open>time\<close> even when they hold \<^verbatim>\<open>undefined\<close>). So the model
  keeps, beside the id, which of the other keys the object has.
\<close>

record TodoObject =
  obj_id :: string
  obj_keys :: TodoPartial

text \<open>Reading a property: a key that the object does not have reads as
  \<^verbatim>\<open>undefined\<close>.\<close>

fun read_key :: "'a partial \<Rightarrow> 'a option" where
  "read_key Omitted = None"
| "read_key (Given v) = v"

text \<open>What \<^verbatim>\<open>add\<close> and \<^verbatim>\<open>toTodonnaItem\<close> read of the object, and the object as
  the \<^verbatim>\<open>updates\<close> of \<^verbatim>\<open>update\<close>: its own keys, \<^verbatim>\<open>id\<close> among them.\<close>

definition as_item :: "TodoObject \<Rightarrow> TodoItem" where
  "as_item t =
     \<lparr> todo_id = obj_id t,
       todo_text = read_key (p_text (obj_keys t)),
       todo_completed = read_key (p_completed (obj_keys t)),
       todo_status = read_key (p_status (obj_keys t)),
       todo_emoji = read_key (p_emoji (obj_keys t)),
       todo_date = read_key (p_date (obj_keys t)),
       todo_time = read_key (p_time (obj_keys t)),
       todo_removed = read_key (p_removed (obj_keys t)) \<rparr>"

definition as_updates :: "TodoObject \<Rightarrow> TodoPartial" where
  "as_updates t = (obj_keys t)\<lparr> p_id := Some (obj_id t) \<rparr>"

definition toAdd :: "TodoItem list \<Rightarrow> TodoObject list \<Rightarrow> TodoObject list" where
  "toAdd existing todos = filter (\<lambda>t. obj_id t \<notin> set (map todo_id existing)) todos"

definition toUpdate :: "TodoItem list \<Rightarrow> TodoObject list \<Rightarrow> TodoObject list" where
  "toUpdate existing todos = filter (\<lambda>t. obj_id t \<in> set (map todo_id existing)) todos"

definition toRemove :: "TodoItem list \<Rightarrow> TodoObject list \<Rightarrow> string list" where
  "toRemove existing todos =
     map todo_id (filter (\<lambda>t. todo_id t \<notin> set (map obj_id todos)) existing)"

definition merge_results :: "BatchResult \<Rightarrow> BatchResult \<Rightarrow> BatchResult \<Rightarrow> BatchResult" where
  "merge_results addResult updateResult removeResult =
     \<lparr> succeeded = succeeded addResult + succeeded updateResult + succeeded removeResult,
       failed = failed addResult + failed updateResult + failed removeResult,
       errors = errors addResult @ errors updateResult @ errors removeResult \<rparr>"

text \<open>
  The three batches are started together under \<^verbatim>\<open>Promise.all\<close>; each is sequential
  in itself. The model runs them one after the other, in the order the array lists
  them.
\<close>

definition replaceAll :: "js_env \<Rightarrow> scope \<Rightarrow> TodoObject list \<Rightarrow> (error + BatchResult) \<times> scope" where
  "replaceAll env c todos =
     (case Todonna_getAll env c (Some \<lparr> maxAge = None, includeRemoved = Some True \<rparr>) of
        (Inl e, c1) \<Rightarrow> (Inl e, c1)
      | (Inr existing, c1) \<Rightarrow>
          (case batchAdd env c1 (map as_item (toAdd existing todos)) None of
             (addResult, c2) \<Rightarrow>
               (case batchUpdate env c2
                       (map (\<lambda>t. (obj_id t, as_updates t)) (toUpdate existing todos)) None of
                  (updateResult, c3) \<Rightarrow>
                    (case batchRemove c3 (toRemove existing todos) None of
                       (removeResult, c4) \<Rightarrow>
                         (Inr (merge_results addResult updateResult removeResult), c4)))))"

section \<open>The lightweight Todonna module\<close>

text \<open>\<^verbatim>\<open>todo.date ? new Date(todo.date).toISOString() : undefined\<close>: a \<^verbatim>\<open>Date\<close> object
  is truthy, the empty string is not.\<close>

fun storage_date :: "js_env \<Rightarrow> date_field option \<Rightarrow> error + string option" where
  "storage_date env None = Inr None"
| "storage_date env (Some (DateObj None)) = Inl RangeError"
| "storage_date env (Some (DateObj (Some t))) = Inr (Some (toISOString env t))"
| "storage_date env (Some (DateStr s)) =
     (if s = [] then Inr None
      else case parseDate env s of
             None \<Rightarrow> Inl RangeError
           | Some t \<Rightarrow> Inr (Some (toISOString env t)))"

definition toStorage :: "js_env \<Rightarrow> TodoItem \<Rightarrow> error + TodonnaItem" where
  "toStorage env todo =
     (case storage_date env (todo_date todo) of
        Inl e \<Rightarrow> Inl e
      | Inr d \<Rightarrow>
          Inr \<lparr> todo_item_id = Some (todo_id todo),
                todo_item_text = todo_text todo,
                todo_item_status =
                  Some (case todo_status todo of
                          Some s \<Rightarrow> s
                        | None \<Rightarrow> if truthy (todo_completed todo) then Done else Pending),
                item_emoji = todo_emoji todo,
                item_date = d,
                item_time = todo_time todo,
                item_completed = None,
                item_removed = Some (truthy (todo_removed todo)) \<rparr>)"

definition fromStorage :: "string \<Rightarrow> TodonnaItem \<Rightarrow> TodoItem" where
  "fromStorage key item =
     \<lparr> todo_id = or_else (todo_item_id item) key,
       todo_text = todo_item_text item,
       todo_completed = None,
       todo_status = Some (case todo_item_status item of Some s \<Rightarrow> s | None \<Rightarrow> Pending),
       todo_emoji = item_emoji item,
       todo_date = map_option DateStr (item_date item),
       todo_time = item_time item,
       todo_removed = Some (truthy (item_removed item)) \<rparr>"

text \<open>Every property read of a body that is not an object gives \<^verbatim>\<open>undefined\<close>.\<close>

definition no_properties :: TodonnaItem where
  "no_properties =
     \<lparr> todo_item_id = None, todo_item_text = None, todo_item_status = None, item_emoji = None,
       item_date = None, item_time = None, item_completed = None, item_removed = None \<rparr>"

definition isNotFoundError :: "error \<Rightarrow> bool" where
  "isNotFoundError e = (e = ClientNotFound)"

definition TodonnaModule_get ::
  "scope \<Rightarrow> string \<Rightarrow> nat option \<Rightarrow> (error + TodoItem option) \<times> scope" where
  "TodonnaModule_get c ident age =
     (case getObject c ident age of
        (Inl e, c1) \<Rightarrow> (if isNotFoundError e then Inr None else Inl e, c1)
      | (Inr None, c1) \<Rightarrow> (Inr None, c1)
      | (Inr (Some (NonObject b)), c1) \<Rightarrow>
          (if b then Inr (Some (fromStorage ident no_properties)) else Inr None, c1)
      | (Inr (Some (WireObject item)), c1) \<Rightarrow> (Inr (Some (fromStorage ident item)), c1))"

definition TodonnaModule_update ::
  "js_env \<Rightarrow> scope \<Rightarrow> string \<Rightarrow> TodoPartial \<Rightarrow> (error + unit) \<times> scope" where
  "TodonnaModule_update env c ident updates =
     (case TodonnaModule_get c ident None of
        (Inl e, c1) \<Rightarrow> (Inl e, c1)
      | (Inr None, c1) \<Rightarrow> (Inl (NotFound []), c1)
      | (Inr (Some existing), c1) \<Rightarrow>
          (case toStorage env (spread existing updates ident) of
             Inl e \<Rightarrow> (Inl e, c1)
           | Inr payload \<Rightarrow> storeObject c1 ''todonna-item'' ident payload))"



section \<open>The data hook\<close>

text \<open>
  \<^verbatim>\<open>useData\<close> keeps one piece of React state per scope and the ref
  \<^verbatim>\<open>isSavingRef\<close>. The values it loads are opaque here: an array, some other object,
  or \<^verbatim>\<open>null\<close>/\<^verbatim>\<open>undefined\<close>. For each method the hook probes with \<^verbatim>\<open>?.\<close>,
  the remote side says whether the method is there (\<open>None\<close> when it is not) and how the
  awaited call settles.
\<close>

datatype payload = Arr "string list" | Obj string | Nullish

record remote =
  mymodule :: bool
  getItemsList :: "(error + payload) option"
  loadSettings :: "(error + payload) option"
  todonna_getAll :: "(error + payload) option"
  einkauf_getItemsList :: "(error + payload) option"
  ai_wallet_getConfig :: "(error + payload) option"
  mymodule_saveItem :: "error + unit"

text \<open>
  Beside the React state: the pending \<^verbatim>\<open>setTimeout\<close> callbacks by the time they are
  due, the time in milliseconds, the errors written to the console, the number of
  calls of \<^verbatim>\<open>loadAllData\<close>, and the number of \<^verbatim>\<open>saveItem\<close> calls that have not
  settled.
\<close>

record hook_state =
  itemsList :: payload
  settings :: payload
  todos :: payload
  stockItems :: payload
  aiConfig :: payload
  isLoading :: bool
  isConnected :: bool
  isSaving :: bool
  timers :: "nat list"
  now_ms :: nat
  console_errors :: "error list"
  loads :: nat
  pending_saves :: nat

text \<open>\<^verbatim>\<open>Array.isArray(x) ? x : []\<close> and \<^verbatim>\<open>config || null\<close>.\<close>

fun array_or_empty :: "payload \<Rightarrow> payload" where
  "array_or_empty (Arr xs) = Arr xs"
| "array_or_empty v = Arr []"

fun or_null :: "payload \<Rightarrow> payload" where
  "or_null Nullish = Nullish"
| "or_null v = v"

text \<open>One \<^verbatim>\<open>if (method) { const v = await method(); setX(v) }\<close> block of the
  \<^verbatim>\<open>try\<close> body: a rejection leaves the block with the state reached so far.\<close>

fun load_scope ::
  "(error + payload) option \<Rightarrow> (payload \<Rightarrow> hook_state \<Rightarrow> hook_state) \<Rightarrow> hook_state \<Rightarrow>
   (error \<times> hook_state) + hook_state" where
  "load_scope None setter st = Inr st"
| "load_scope (Some (Inl e)) setter st = Inl (e, st)"
| "load_scope (Some (Inr v)) setter st = Inr (setter v st)"

fun and_then ::
  "(error \<times> hook_state) + hook_state \<Rightarrow> (hook_state \<Rightarrow> (error \<times> hook_state) + hook_state) \<Rightarrow>
   (error \<times> hook_state) + hook_state" where
  "and_then (Inl thrown) f = Inl thrown"
| "and_then (Inr st) f = f st"

definition load_scopes :: "remote \<Rightarrow> hook_state \<Rightarrow> (error \<times> hook_state) + hook_state" where
  "load_scopes r st =
     and_then (load_scope (getItemsList r) (\<lambda>v s. s\<lparr>itemsList := v\<rparr>) st) (\<lambda>st1.
     and_then (load_scope (loadSettings r) (\<lambda>v s. s\<lparr>settings := v\<rparr>) st1) (\<lambda>st2.
     and_then (load_scope (todonna_getAll r) (\<lambda>v s. s\<lparr>todos := array_or_empty v\<rparr>) st2) (\<lambda>st3.
     and_then (load_scope (einkauf_getItemsList r) (\<lambda>v s. s\<lparr>stockItems := array_or_empty v\<rparr>) st3) (\<lambda>st4.
     load_scope (ai_wallet_getConfig r) (\<lambda>v s. s\<lparr>aiConfig := or_null v\<rparr>) st4))))"

definition loadAllData :: "remote option \<Rightarrow> hook_state \<Rightarrow> hook_state" where
  "loadAllData rs st0 =
     (let st = st0\<lparr>loads := loads st0 + 1\<rparr>
      in case rs of
           None \<Rightarrow> st\<lparr>isLoading := False\<rparr>
         | Some r \<Rightarrow>
             if \<not> isConnected st then st\<lparr>isLoading := False\<rparr>
             else (case load_scopes r (st\<lparr>isLoading := True\<rparr>) of
                     Inr st1 \<Rightarrow> st1\<lparr>isLoading := False\<rparr>
                   | Inl (e, st1) \<Rightarrow>
                       st1\<lparr>console_errors := console_errors st1 @ [e], isLoading := False\<rparr>))"

definition changeHandler :: "remote option \<Rightarrow> hook_state \<Rightarrow> hook_state" where
  "changeHandler rs st = (if isSaving st then st else loadAllData rs st)"

text \<open>
  \<^verbatim>\<open>saveItem\<close> up to its first \<^verbatim>\<open>await\<close>, and from the settling of the write to
  the end of the \<^verbatim>\<open>finally\<close> block. A change notification can arrive in between. The
  error \<^verbatim>\<open>saveItem\<close> rethrows goes to its caller and is not kept in the state.
\<close>

definition saveItem_called :: "remote option \<Rightarrow> hook_state \<Rightarrow> error + hook_state" where
  "saveItem_called rs st =
     (case rs of
        None \<Rightarrow> Inl NotConnected
      | Some r \<Rightarrow>
          if \<not> mymodule r \<or> \<not> isConnected st then Inl NotConnected
          else Inr (st\<lparr>isSaving := True, pending_saves := pending_saves st + 1\<rparr>))"

definition schedule_reset :: "hook_state \<Rightarrow> hook_state" where
  "schedule_reset st = st\<lparr>timers := timers st @ [now_ms st + 100]\<rparr>"

definition saveItem_settled :: "remote option \<Rightarrow> remote \<Rightarrow> hook_state \<Rightarrow> hook_state" where
  "saveItem_settled rs r st =
     (case (case mymodule_saveItem r of
              Inl e \<Rightarrow> Inl e
            | Inr u \<Rightarrow>
                (case getItemsList r of
                   None \<Rightarrow> Inl TypeError
                 | Some (Inl e) \<Rightarrow> Inl e
                 | Some (Inr updatedList) \<Rightarrow> Inr (st\<lparr>itemsList := updatedList\<rparr>))) of
        Inr st1 \<Rightarrow> schedule_reset st1
      | Inl e \<Rightarrow>
          schedule_reset (loadAllData rs (st\<lparr>console_errors := console_errors st @ [e]\<rparr>)))"

text \<open>Time passes, and the timer callbacks that are due by then run:
  \<^verbatim>\<open>isSavingRef.current = false\<close>.\<close>

definition elapse :: "nat \<Rightarrow> hook_state \<Rightarrow> hook_state" where
  "elapse d st =
     (let t = now_ms st + d
      in st\<lparr> now_ms := t,
             timers := filter (\<lambda>due. \<not> due \<le> t) (timers st),
             isSaving := (if filter (\<lambda>due. due \<le> t) (timers st) = [] then isSaving st else False) \<rparr>)"

datatype event = ChangeNotification | SaveItemCalled | SaveItemSettled | Elapse nat

fun step :: "remote option \<Rightarrow> hook_state \<Rightarrow> event \<Rightarrow> hook_state" where
  "step rs st ChangeNotification = changeHandler rs st"
| "step rs st SaveItemCalled = (case saveItem_called rs st of Inl e \<Rightarrow> st | Inr st1 \<Rightarrow> st1)"
| "step rs st SaveItemSettled =
     (case rs of
        None \<Rightarrow> st
      | Some r \<Rightarrow>
          if pending_saves st = 0 then st
          else saveItem_settled rs r (st\<lparr>pending_saves := pending_saves st - 1\<rparr>))"
| "step rs st (Elapse d) = elapse d st"

definition run :: "remote option \<Rightarrow> hook_state \<Rightarrow> event list \<Rightarrow> hook_state" where
  "run rs st evs = foldl (step rs) st evs"

section \<open>Vocabulary of the properties\<close>

text \<open>
  The status a record stands for: an explicit \<^verbatim>\<open>completed\<close> flag takes precedence
  and collapses to done or pending; without the flag and without a status, pending.
\<close>

definition normal_status :: "TodoItem \<Rightarrow> status" where
  "normal_status r =
     (case todo_completed r of
        Some c \<Rightarrow> if c then Done else Pending
      | None \<Rightarrow> (case todo_status r of Some s \<Rightarrow> s | None \<Rightarrow> Pending))"

text \<open>Decoding the encoding of a record, with the record's own id as the key.\<close>

definition roundtrip :: "js_env \<Rightarrow> int \<Rightarrow> TodoItem \<Rightarrow> error + TodoItem" where
  "roundtrip env now r =
     (case toTodonnaItem env r of
        Inl e \<Rightarrow> Inl e
      | Inr item \<Rightarrow> Inr (fromTodonnaItem env now (todo_id r) item))"

text \<open>How the fetch of one key settles in \<^verbatim>\<open>getAll\<close>, read off the scope.\<close>

definition entry_of :: "js_env \<Rightarrow> scope \<Rightarrow> string \<Rightarrow> error + TodoItem option" where
  "entry_of env c key =
     (case fetch_failure c key of
        Some e \<Rightarrow> Inl e
      | None \<Rightarrow> Inr (decode_entry env key (map_of (objects c) key)))"

text \<open>The same for the \<^verbatim>\<open>getAll\<close> of the lightweight module.\<close>

definition module_entry :: "scope \<Rightarrow> string \<Rightarrow> error + TodoItem option" where
  "module_entry c key =
     (case fetch_failure c key of
        Some e \<Rightarrow> if isNotFoundError e then Inr None else Inl e
      | None \<Rightarrow>
          (case map_of (objects c) key of
             None \<Rightarrow> Inr None
           | Some (NonObject b) \<Rightarrow> Inr None
           | Some (WireObject item) \<Rightarrow> Inr (Some (fromStorage key item))))"


text \<open>The keys whose entry \<^verbatim>\<open>getAll\<close> can decode, and the scopes in which every
  stored object sits at the key that is its id.\<close>

definition visible_keys :: "scope \<Rightarrow> string set" where
  "visible_keys c =
     {k. fetch_failure c k = None \<and>
         (\<exists>item. map_of (objects c) k = Some (WireObject item) \<and> todo_item_text item \<noteq> None)}"

definition key_is_id :: "scope \<Rightarrow> bool" where
  "key_is_id c =
     (\<forall>k item. map_of (objects c) k = Some (WireObject item) \<longrightarrow> or_else (todo_item_id item) k = k)"

text \<open>Running an operation over a list for as long as it succeeds, and the position
  of the first item on which it fails.\<close>

fun run_all :: "(scope \<Rightarrow> 'a \<Rightarrow> (error + unit) \<times> scope) \<Rightarrow> 'a list \<Rightarrow> scope \<Rightarrow> scope option" where
  "run_all operation [] c = Some c"
| "run_all operation (x # xs) c =
     (case operation c x of
        (Inl e, c1) \<Rightarrow> None
      | (Inr u, c1) \<Rightarrow> run_all operation xs c1)"

fun first_failure :: "(scope \<Rightarrow> 'a \<Rightarrow> (error + unit) \<times> scope) \<Rightarrow> 'a list \<Rightarrow> scope \<Rightarrow> nat option" where
  "first_failure operation [] c = None"
| "first_failure operation (x # xs) c =
     (case operation c x of
        (Inl e, c1) \<Rightarrow> Some 0
      | (Inr u, c1) \<Rightarrow> map_option Suc (first_failure operation xs c1))"

text \<open>Options whose progress callback, if there is one, returns normally.\<close>

definition quiet :: "BatchOperationOptions option \<Rightarrow> bool" where
  "quiet options = (\<forall>i n. progress options i n = Returns)"

text \<open>The part of the hook's state that no loader writes, and the value a scope holds
  after its block of the reload: the loaded one, or the old one when the method is not
  there or rejects.\<close>

definition guard_part :: "hook_state \<Rightarrow> bool \<times> nat list \<times> nat \<times> nat \<times> bool" where
  "guard_part st = (isSaving st, timers st, now_ms st, pending_saves st, isConnected st)"

fun loaded :: "(error + payload) option \<Rightarrow> (payload \<Rightarrow> payload) \<Rightarrow> payload \<Rightarrow> payload" where
  "loaded None f old = old"
| "loaded (Some (Inl e)) f old = old"
| "loaded (Some (Inr v)) f old = f v"

fun rejects :: "(error + payload) option \<Rightarrow> bool" where
  "rejects (Some (Inl e)) = True"
| "rejects l = False"

text \<open>While the guard is set, a timer that resets it is due by time \<open>T\<close>; and from
  time \<open>T\<close> on, every pending timer is due later than \<open>T\<close>.\<close>

definition guard_inv :: "nat \<Rightarrow> hook_state \<Rightarrow> bool" where
  "guard_inv T st =
     ((isSaving st \<longrightarrow> (\<exists>due \<in> set (timers st). due \<le> T)) \<and>
      (T \<le> now_ms st \<longrightarrow> (\<forall>due \<in> set (timers st). T < due)))"

text \<open>
  The operations of the three batches of \<^verbatim>\<open>replaceAll\<close>, one per item, for the
  orders in which \<^verbatim>\<open>Promise.all\<close> may let them take effect.
\<close>

datatype batch_op = AddOp TodoItem | UpdateOp string TodoPartial | RemoveOp string

fun perform :: "js_env \<Rightarrow> scope \<Rightarrow> batch_op \<Rightarrow> (error + unit) \<times> scope" where
  "perform env c (AddOp t) = Todonna_add env c t"
| "perform env c (UpdateOp ident updates) = Todonna_update env c ident updates"
| "perform env c (RemoveOp ident) = Todonna_remove c ident"

definition add_ops :: "TodoItem list \<Rightarrow> TodoObject list \<Rightarrow> batch_op list" where
  "add_ops existing ts = map (\<lambda>t. AddOp (as_item t)) (toAdd existing ts)"

definition update_ops :: "TodoItem list \<Rightarrow> TodoObject list \<Rightarrow> batch_op list" where
  "update_ops existing ts = map (\<lambda>t. UpdateOp (obj_id t) (as_updates t)) (toUpdate existing ts)"

definition remove_ops :: "TodoItem list \<Rightarrow> TodoObject list \<Rightarrow> batch_op list" where
  "remove_ops existing ts = map RemoveOp (toRemove existing ts)"

subsection \<open>Concrete data\<close>

definition fresh_state :: hook_state where
  "fresh_state =
     \<lparr> itemsList = Arr [], settings = Obj ''theme: light'', todos = Arr [], stockItems = Arr [],
       aiConfig = Nullish, isLoading = True, isConnected = True, isSaving = False, timers = [],
       now_ms = 0, console_errors = [], loads = 0, pending_saves = 0 \<rparr>"

definition all_up :: remote where
  "all_up =
     \<lparr> mymodule = True,
       getItemsList = Some (Inr (Arr [''note''])),
       loadSettings = Some (Inr (Obj ''theme: dark'')),
       todonna_getAll = Some (Inr (Arr [''todo''])),
       einkauf_getItemsList = Some (Inr (Arr [''milk''])),
       ai_wallet_getConfig = Some (Inr (Obj ''endpoint'')),
       mymodule_saveItem = Inr () \<rparr>"

text \<open>The hook just after \<^verbatim>\<open>saveItem\<close> has set the guard, and a trace in which two
  notifications arrive, 0 and 40 milliseconds after the write has settled, and 100
  milliseconds pass in all.\<close>

definition saving_state :: hook_state where
  "saving_state = fresh_state\<lparr>isSaving := True, pending_saves := 1\<rparr>"

definition echo_trace :: "event list" where
  "echo_trace = [ChangeNotification, Elapse 40, ChangeNotification, Elapse 60]"

definition todos_down :: remote where
  "todos_down = all_up\<lparr>todonna_getAll := Some (Inl ClientFailure)\<rparr>"


definition epoch_env :: js_env where
  "epoch_env =
     \<lparr> toISOString = (\<lambda>t. if t = 0 then ''1970-01-01T00:00:00.000Z'' else ''1970-01-02T00:00:00.000Z''),
       parseDate = (\<lambda>s. if s = ''1970-01-01T00:00:00.000Z'' then Some 0
                         else if s = ''1970-01-02T00:00:00.000Z'' then Some 86400000 else None),
       toDateString = (\<lambda>d. case d of
                              None \<Rightarrow> ''Invalid Date''
                            | Some t \<Rightarrow> if 0 \<le> t \<and> t < 86400000 then ''Thu Jan 01 1970''
                                        else ''Fri Jan 02 1970''),
       clock = (\<lambda>key. 0) \<rparr>"

definition plain_todo :: "string \<Rightarrow> string \<Rightarrow> TodoItem" where
  "plain_todo ident txt =
     \<lparr> todo_id = ident, todo_text = Some txt, todo_completed = None, todo_status = None,
       todo_emoji = None, todo_date = None, todo_time = None, todo_removed = None \<rparr>"

definition plain_item :: "string option \<Rightarrow> string option \<Rightarrow> TodonnaItem" where
  "plain_item ident txt =
     \<lparr> todo_item_id = ident, todo_item_text = txt, todo_item_status = None, item_emoji = None,
       item_date = None, item_time = None, item_completed = None, item_removed = None \<rparr>"

definition scope_of :: "(string \<times> stored) list \<Rightarrow> scope" where
  "scope_of objs =
     \<lparr> objects = objs, fetch_failure = (\<lambda>key. None), listing_failure = None,
       store_rejects = (\<lambda>key item. False), remove_rejects = (\<lambda>key. False), calls = [] \<rparr>"

definition archived_todo :: TodoItem where
  "archived_todo = (plain_todo ''a'' ''file the report'')\<lparr>todo_status := Some Archived\<rparr>"

definition dated_todo :: TodoItem where
  "dated_todo =
     \<lparr> todo_id = ''b'', todo_text = Some ''call the bank'', todo_completed = Some True,
       todo_status = Some Pending, todo_emoji = Some ''!'', todo_date = Some (DateObj (Some 0)),
       todo_time = Some ''15:00'', todo_removed = None \<rparr>"

text \<open>A record whose date is an invalid \<^verbatim>\<open>Date\<close> object, and one whose date is a
  string.\<close>

definition broken_todo :: TodoItem where
  "broken_todo = (plain_todo ''d'' ''water the plants'')\<lparr>todo_date := Some (DateObj None)\<rparr>"

definition posted_todo :: TodoItem where
  "posted_todo =
     (plain_todo ''c'' ''pay the rent'')\<lparr>todo_date := Some (DateStr ''1970-01-02T00:00:00.000Z'')\<rparr>"

definition stop_on_error :: "BatchOperationOptions option" where
  "stop_on_error = Some \<lparr> stopOnError = Some True, onProgress = None \<rparr>"

text \<open>The same with a progress callback that throws.\<close>

definition throwing :: "BatchOperationOptions option" where
  "throwing = Some \<lparr> stopOnError = Some True, onProgress = Some (\<lambda>done_count n. Throws) \<rparr>"

text \<open>A scope that holds one record at key \<open>a\<close> and rejects every write to and every
  removal of key \<open>b\<close>.\<close>

definition rejecting_scope :: scope where
  "rejecting_scope =
     (scope_of [(''a'', WireObject (plain_item (Some ''a'') (Some ''milk'')))])
       \<lparr> store_rejects := (\<lambda>key item. key = ''b''), remove_rejects := (\<lambda>key. key = ''b'') \<rparr>"

definition milk_scope :: scope where
  "milk_scope = scope_of [(''a'', WireObject (plain_item (Some ''a'') (Some ''milk'')))]"

text \<open>A wire object that carries \<^verbatim>\<open>removed: true\<close> and the status archived, and the
  scope that holds it at key \<open>a\<close>.\<close>

definition flagged_item :: TodonnaItem where
  "flagged_item =
     (plain_item (Some ''a'') (Some ''milk''))
       \<lparr> todo_item_status := Some Archived, item_removed := Some True \<rparr>"

definition flagged_scope :: scope where
  "flagged_scope = scope_of [(''a'', WireObject flagged_item)]"

text \<open>A scope with an object that has no \<^verbatim>\<open>todo_item_text\<close> at key \<open>a\<close> and a
  well-formed one at key \<open>b\<close>, and the same scope when the backend rejects the fetch of
  key \<open>a\<close> with an error that is not of the not-found family.\<close>

definition textless_scope :: scope where
  "textless_scope =
     scope_of [(''a'', WireObject (plain_item (Some ''a'') None)),
               (''b'', WireObject (plain_item (Some ''b'') (Some ''bread'')))]"

definition flaky_scope :: scope where
  "flaky_scope =
     textless_scope\<lparr>fetch_failure := (\<lambda>key. if key = ''a'' then Some ClientFailure else None)\<rparr>"

text \<open>A scope whose one object is stored at key \<open>k1\<close> and names \<open>x\<close> as its id.\<close>

definition foreign_scope :: scope where
  "foreign_scope = scope_of [(''k1'', WireObject (plain_item (Some ''x'') (Some ''milk'')))]"

text \<open>A scope with the records \<open>1\<close> and \<open>3\<close>, what \<^verbatim>\<open>getAll\<close> decodes from it, and
  a new list with the records \<open>1\<close> (now completed) and \<open>2\<close>.\<close>

definition two_scope :: scope where
  "two_scope =
     scope_of [(''1'', WireObject (plain_item (Some ''1'') (Some ''walk''))),
               (''3'', WireObject (plain_item (Some ''3'') (Some ''old'')))]"

definition two_existing :: "TodoItem list" where
  "two_existing =
     [fromTodonnaItem epoch_env 0 ''1'' (plain_item (Some ''1'') (Some ''walk'')),
      fromTodonnaItem epoch_env 0 ''3'' (plain_item (Some ''3'') (Some ''old''))]"

definition no_updates :: TodoPartial where
  "no_updates =
     \<lparr> p_id = None, p_text = Omitted, p_completed = Omitted, p_status = Omitted,
       p_emoji = Omitted, p_date = Omitted, p_time = Omitted, p_removed = Omitted \<rparr>"

definition plain_object :: "string \<Rightarrow> string \<Rightarrow> TodoObject" where
  "plain_object ident txt = \<lparr> obj_id = ident, obj_keys = no_updates\<lparr>p_text := Given (Some txt)\<rparr> \<rparr>"

text \<open>The first record of the new list is
  \<^verbatim>\<open>{ id: '1', text: 'walk', completed: true, emoji: undefined }\<close>.\<close>

definition walked :: TodoObject where
  "walked =
     \<lparr> obj_id = ''1'',
       obj_keys = no_updates\<lparr> p_text := Given (Some ''walk''), p_completed := Given (Some True),
                             p_emoji := Given None \<rparr> \<rparr>"

definition new_two :: "TodoObject list" where
  "new_two = [walked, plain_object ''2'' ''shop'']"

text \<open>The snapshot \<^verbatim>\<open>replaceAll\<close> takes of that scope leaves this log of calls, and
  this is one order in which the three operations on the new list can take effect.\<close>

definition two_snapshot :: scope where
  "two_snapshot =
     two_scope\<lparr>calls := [GetListing [] (Some 86400000), GetObject ''1'' (Some 86400000),
                          GetObject ''3'' (Some 86400000)]\<rparr>"

definition two_schedule :: "batch_op list" where
  "two_schedule =
     [RemoveOp ''3'', AddOp (plain_todo ''2'' ''shop''), UpdateOp ''1'' (as_updates walked)]"

definition snapshot_options :: "LoadOptions option" where
  "snapshot_options = Some \<lparr> maxAge = None, includeRemoved = Some True \<rparr>"

definition soft_delete :: TodoPartial where
  "soft_delete = no_updates\<lparr>p_removed := Given (Some True)\<rparr>"

text \<open>The partial
  \<^verbatim>\<open>{ id: 'zz', text: 'oat milk', completed: true, emoji: '*', date: new Date(86400000), time: '08:30' }\<close>,
  what \<^verbatim>\<open>update\<close> of the main module stores when the partial is applied to the record
  of the scope above, and what \<^verbatim>\<open>update\<close> of the lightweight module stores.\<close>

definition oat_update :: TodoPartial where
  "oat_update =
     \<lparr> p_id = Some ''zz'', p_text = Given (Some ''oat milk''), p_completed = Given (Some True),
       p_status = Omitted, p_emoji = Given (Some ''*''),
       p_date = Given (Some (DateObj (Some 86400000))), p_time = Given (Some ''08:30''),
       p_removed = Omitted \<rparr>"

definition oat_item :: TodonnaItem where
  "oat_item =
     \<lparr> todo_item_id = Some ''a'', todo_item_text = Some ''oat milk'', todo_item_status = Some Done,
       item_emoji = Some ''*'', item_date = Some ''1970-01-02T00:00:00.000Z'',
       item_time = Some ''08:30'', item_completed = None, item_removed = None \<rparr>"

definition oat_payload :: TodonnaItem where
  "oat_payload = oat_item\<lparr> todo_item_status := Some Pending, item_removed := Some False \<rparr>"

section \<open>The codec: lemmas\<close>

lemma nonempty_cases: "nonempty x = (if x = Some [] then None else x)"
  by (cases x) auto

lemma wire_completed_encoded:
  "toTodonnaItem env r = Inr w \<Longrightarrow> wire_completed w = (normal_status r = Done)"
  by (auto simp: toTodonnaItem_def wire_completed_def wire_status_def normal_status_def
      split: sum.splits option.splits)

lemma toTodonnaItem_total:
  "todo_date r \<noteq> Some (DateObj None) \<Longrightarrow> \<exists>w. toTodonnaItem env r = Inr w"
  by (cases "(env, todo_date r)" rule: date_to_wire.cases) (auto simp: toTodonnaItem_def)

section \<open>The batch loop: lemmas\<close>

lemma quiet_progress: "quiet options \<Longrightarrow> progress options i n = Returns"
  by (simp add: quiet_def)

lemma batch_loop_quiet_index:
  "quiet options \<Longrightarrow>
     batch_loop operation ident options n i xs res c = batch_loop operation ident options n' i' xs res c"
proof (induction xs arbitrary: i i' res c)
  case Nil
  show ?case by simp
next
  case (Cons x xs)
  show ?case
    using Cons.prems Cons.IH [OF Cons.prems, of "i + 1" _ _ "i' + 1"]
    by (auto simp: quiet_progress Let_def split: prod.splits sum.splits)
qed

lemma batch_loop_stops_counts:
  assumes "stops options" and "quiet options"
  shows "first_failure operation xs c = Some j \<Longrightarrow>
     succeeded (fst (batch_loop operation ident options n i xs res c)) = succeeded res + j \<and>
     failed (fst (batch_loop operation ident options n i xs res c)) = failed res + 1 \<and>
     map fst (errors (fst (batch_loop operation ident options n i xs res c))) =
       map fst (errors res) @ [ident (xs ! j)]"
proof (induction xs arbitrary: i res c j)
  case Nil
  then show ?case by simp
next
  case (Cons x xs)
  obtain r c1 where op: "operation c x = (r, c1)" by (cases "operation c x")
  show ?case
  proof (cases r)
    case (Inl e)
    with op Cons.prems have "j = 0" by simp
    with op Inl assms show ?thesis
      by (simp add: record_failure_def)
  next
    case (Inr u)
    with op Cons.prems obtain j' where j: "j = Suc j'" "first_failure operation xs c1 = Some j'"
      by auto
    show ?thesis
      using op Inr j(1) assms
        Cons.IH [OF j(2), of "i + 1" "res\<lparr>succeeded := succeeded res + 1\<rparr>"]
      by (simp add: quiet_progress)
  qed
qed

lemma batch_loop_stops_take:
  assumes "stops options" and "quiet options"
  shows "first_failure operation xs c = Some j \<Longrightarrow>
     batch_loop operation ident options n i xs res c =
       batch_loop operation ident options n i (take (Suc j) xs) res c"
proof (induction xs arbitrary: i res c j)
  case Nil
  then show ?case by simp
next
  case (Cons x xs)
  obtain r c1 where op: "operation c x = (r, c1)" by (cases "operation c x")
  show ?case
  proof (cases r)
    case (Inl e)
    with op Cons.prems have "j = 0" by simp
    with op Inl assms show ?thesis
      by (simp add: record_failure_def)
  next
    case (Inr u)
    with op Cons.prems obtain j' where j: "j = Suc j'" "first_failure operation xs c1 = Some j'"
      by auto
    have "batch_loop operation ident options n (i + 1) xs (res\<lparr>succeeded := succeeded res + 1\<rparr>) c1 =
          batch_loop operation ident options n (i + 1) (take (Suc j') xs)
            (res\<lparr>succeeded := succeeded res + 1\<rparr>) c1"
      by (rule Cons.IH [OF j(2)])
    then show ?thesis
      using op Inr j(1) assms by (simp add: quiet_progress)
  qed
qed

lemma batch_loop_all_succeed:
  assumes "quiet options"
  shows "first_failure operation xs c = None \<Longrightarrow>
     succeeded (fst (batch_loop operation ident options n i xs res c)) = succeeded res + length xs \<and>
     failed (fst (batch_loop operation ident options n i xs res c)) = failed res \<and>
     errors (fst (batch_loop operation ident options n i xs res c)) = errors res"
proof (induction xs arbitrary: i res c)
  case Nil
  then show ?case by simp
next
  case (Cons x xs)
  obtain r c1 where op: "operation c x = (r, c1)" by (cases "operation c x")
  show ?case
  proof (cases r)
    case (Inl e)
    with op Cons.prems show ?thesis by simp
  next
    case (Inr u)
    with op Cons.prems have "first_failure operation xs c1 = None" by simp
    from Cons.IH [OF this, of "i + 1" "res\<lparr>succeeded := succeeded res + 1\<rparr>"] op Inr assms
    show ?thesis by (simp add: quiet_progress)
  qed
qed

lemma batch_loop_bound:
  assumes "quiet options"
  shows "succeeded (fst (batch_loop operation ident options n i xs res c)) +
         failed (fst (batch_loop operation ident options n i xs res c))
         \<le> succeeded res + failed res + length xs"
proof (induction xs arbitrary: i res c)
  case Nil
  show ?case by simp
next
  case (Cons x xs)
  obtain r c1 where op: "operation c x = (r, c1)" by (cases "operation c x")
  show ?case
  proof (cases r)
    case (Inl e)
    show ?thesis
      using op Inl Cons.IH [of "i + 1" "record_failure res (ident x) e" c1]
      by (cases "stops options") (simp_all add: record_failure_def Let_def)
  next
    case (Inr u)
    show ?thesis
      using op Inr assms Cons.IH [of "i + 1" "res\<lparr>succeeded := succeeded res + 1\<rparr>" c1]
      by (simp add: quiet_progress)
  qed
qed

section \<open>Reading the scope: lemmas\<close>

lemma entry_of_calls [simp]: "entry_of env (c\<lparr>calls := l\<rparr>) = entry_of env c"
  by (rule ext) (simp add: entry_of_def split: option.splits)

lemma getObject_eq:
  "getObject c key age =
     (case fetch_failure c key of Some e \<Rightarrow> Inl e | None \<Rightarrow> Inr (map_of (objects c) key),
      c\<lparr>calls := calls c @ [GetObject key age]\<rparr>)"
  by (simp add: getObject_def)

lemma settle_entry:
  "(case (case fetch_failure c key of Some e \<Rightarrow> Inl e | None \<Rightarrow> Inr (map_of (objects c) key)) of
      Inl e \<Rightarrow> Inl e | Inr item \<Rightarrow> Inr (decode_entry env key item)) = entry_of env c key"
  by (simp add: entry_of_def split: option.splits)

lemma settle_all_eq:
  "settle_all env age fs c =
     (map (entry_of env c) fs, c\<lparr>calls := calls c @ map (\<lambda>f. GetObject f age) fs\<rparr>)"
proof (induction fs arbitrary: c)
  case Nil
  show ?case by simp
next
  case (Cons f fs)
  show ?case
    by (simp add: getObject_eq Cons.IH settle_entry)
qed

lemma getAll_listed:
  assumes "listing_failure c = None"
  shows "Todonna_getAll env c options =
     (Inr (keep_results (opt_includeRemoved options)
             (map (entry_of env c) (remdups (map fst (objects c))))),
      c\<lparr>calls := calls c @ GetListing [] (Some (opt_maxAge options)) #
           map (\<lambda>f. GetObject f (Some (opt_maxAge options))) (remdups (map fst (objects c)))\<rparr>)"
  using assms by (simp add: Todonna_getAll_def getListing_def settle_all_eq)

lemma getAll_listing_failed:
  assumes "listing_failure c = Some e"
  shows "fst (Todonna_getAll env c options) = Inl e"
  using assms by (simp add: Todonna_getAll_def getListing_def)

lemma set_keep_results:
  "set (keep_results incl rs) =
     {t. Inr (Some t) \<in> set rs \<and> (incl \<or> \<not> truthy (todo_removed t))}"
  by (induction incl rs rule: keep_results.induct) auto

lemma decode_entry_removed:
  "decode_entry env key v = Some t \<Longrightarrow> todo_removed t = Some False \<and>
     (todo_status t = Some Done \<or> todo_status t = Some Pending) \<and> todo_text t \<noteq> None"
  by (cases "(env, key, v)" rule: decode_entry.cases)
     (auto simp: fromTodonnaItem_def split: if_splits)

lemma entry_of_removed:
  "entry_of env c key = Inr (Some t) \<Longrightarrow> todo_removed t = Some False \<and>
     (todo_status t = Some Done \<or> todo_status t = Some Pending) \<and> todo_text t \<noteq> None"
  by (auto simp: entry_of_def split: option.splits dest: decode_entry_removed)

lemma getAll_members:
  assumes "fst (Todonna_getAll env c options) = Inr rs" and "t \<in> set rs"
  shows "\<exists>key \<in> fst ` set (objects c). entry_of env c key = Inr (Some t)"
proof (cases "listing_failure c")
  case None
  from getAll_listed [OF None, of env options] assms(1)
  have "rs = keep_results (opt_includeRemoved options)
               (map (entry_of env c) (remdups (map fst (objects c))))"
    by simp
  with assms(2) have "Inr (Some t) \<in> entry_of env c ` fst ` set (objects c)"
    by (simp add: set_keep_results)
  then show ?thesis by force
next
  case (Some e)
  from getAll_listing_failed [OF Some, of env options] assms show ?thesis by simp
qed

lemma get_result:
  "fst (Todonna_get env c ident age) = entry_of env c ident"
  by (auto simp: Todonna_get_def getObject_def entry_of_def split: option.splits)

section \<open>Claim C2: the codec round trip\<close>

text \<open>
  C2, as stated, fails: a record whose status is archived (and that has no
  \<^verbatim>\<open>completed\<close> flag) is written with status archived and read back as pending, and
  a record without a date is read back with the moment of decoding as its date.
\<close>

theorem archived_not_roundtripped:
  "roundtrip epoch_env 0 archived_todo =
     Inr (archived_todo\<lparr> todo_status := Some Pending, todo_date := Some (DateObj (Some 0)),
                          todo_removed := Some False \<rparr>)
   \<and> normal_status archived_todo = Archived"
  by (simp add: roundtrip_def toTodonnaItem_def fromTodonnaItem_def archived_todo_def
      plain_todo_def wire_status_def wire_completed_def normal_status_def)

text \<open>
  C2, amended. \<^verbatim>\<open>toTodonnaItem\<close> throws a \<^verbatim>\<open>RangeError\<close> on a record whose
  \<^verbatim>\<open>date\<close> is an invalid \<^verbatim>\<open>Date\<close> object. On every other record \<open>r\<close> it
  succeeds, and decoding its result with the id of \<open>r\<close> as the key gives a record with
  the id and the text of \<open>r\<close>; with status done when the normalised status of \<open>r\<close> is
  done and pending otherwise, which is the normalised status of \<open>r\<close> unless that is
  archived, and with no \<^verbatim>\<open>completed\<close> flag; with the emoji and the time of \<open>r\<close>,
  an empty string read back as absent; and with \<^verbatim>\<open>removed = false\<close>. Its date is a
  \<^verbatim>\<open>Date\<close> object: the same instant when \<open>r\<close> holds a valid \<^verbatim>\<open>Date\<close> object
  whose ISO string the platform's parser reads back as that instant; what the platform's
  parser reads from the string when \<open>r\<close> holds a string that is not empty (an invalid
  date when it reads none); and the moment of decoding when \<open>r\<close> has no date or holds
  the empty string.
\<close>

theorem roundtrip_fields:
  "(todo_date r = Some (DateObj None) \<longrightarrow> roundtrip env now r = Inl RangeError)
   \<and> (todo_date r \<noteq> Some (DateObj None) \<longrightarrow>
        (\<exists>r'. roundtrip env now r = Inr r' \<and>
           todo_id r' = todo_id r \<and>
           todo_text r' = todo_text r \<and>
           todo_status r' = Some (if normal_status r = Done then Done else Pending) \<and>
           (normal_status r \<noteq> Archived \<longrightarrow> todo_status r' = Some (normal_status r)) \<and>
           todo_completed r' = None \<and>
           todo_emoji r' = (if todo_emoji r = Some [] then None else todo_emoji r) \<and>
           todo_time r' = (if todo_time r = Some [] then None else todo_time r) \<and>
           todo_removed r' = Some False \<and>
           (\<forall>t. todo_date r = Some (DateObj (Some t)) \<and> toISOString env t \<noteq> [] \<and>
                parseDate env (toISOString env t) = Some t \<longrightarrow>
                  todo_date r' = Some (DateObj (Some t))) \<and>
           (\<forall>s. todo_date r = Some (DateStr s) \<and> s \<noteq> [] \<longrightarrow>
                  todo_date r' = Some (DateObj (parseDate env s))) \<and>
           (todo_date r = None \<or> todo_date r = Some (DateStr []) \<longrightarrow>
                  todo_date r' = Some (DateObj (Some now)))))"
proof (intro conjI impI)
  assume "todo_date r = Some (DateObj None)"
  then show "roundtrip env now r = Inl RangeError"
    by (simp add: roundtrip_def toTodonnaItem_def)
next
  assume valid: "todo_date r \<noteq> Some (DateObj None)"
  obtain w where w: "toTodonnaItem env r = Inr w"
    using toTodonnaItem_total [OF valid] by blast
  have c: "wire_completed w = (normal_status r = Done)"
    using w by (rule wire_completed_encoded)
  have fields: "todo_item_id w = Some (todo_id r)" "todo_item_text w = todo_text r"
    "item_emoji w = nonempty (todo_emoji r)" "item_time w = nonempty (todo_time r)"
    "date_to_wire env (todo_date r) = Inr (item_date w)"
    using w by (auto simp: toTodonnaItem_def split: sum.splits)
  let ?r' = "fromTodonnaItem env now (todo_id r) w"
  have rt: "roundtrip env now r = Inr ?r'"
    by (simp add: roundtrip_def w)
  have ident: "todo_id ?r' = todo_id r"
    by (simp add: fromTodonnaItem_def fields)
  have st: "todo_status ?r' = Some (if normal_status r = Done then Done else Pending)"
    by (simp add: fromTodonnaItem_def c)
  have st': "normal_status r \<noteq> Archived \<longrightarrow> todo_status ?r' = Some (normal_status r)"
    unfolding st by (cases "normal_status r") auto
  have d1: "\<forall>t. todo_date r = Some (DateObj (Some t)) \<and> toISOString env t \<noteq> [] \<and>
                parseDate env (toISOString env t) = Some t \<longrightarrow>
                  todo_date ?r' = Some (DateObj (Some t))"
  proof (intro allI impI)
    fix t assume t: "todo_date r = Some (DateObj (Some t)) \<and> toISOString env t \<noteq> [] \<and>
                parseDate env (toISOString env t) = Some t"
    then have "item_date w = Some (toISOString env t)" using fields(5) by simp
    with t show "todo_date ?r' = Some (DateObj (Some t))"
      by (simp add: fromTodonnaItem_def)
  qed
  have d2: "\<forall>s. todo_date r = Some (DateStr s) \<and> s \<noteq> [] \<longrightarrow>
                  todo_date ?r' = Some (DateObj (parseDate env s))"
  proof (intro allI impI)
    fix s assume s: "todo_date r = Some (DateStr s) \<and> s \<noteq> []"
    then have "item_date w = Some s" using fields(5) by simp
    with s show "todo_date ?r' = Some (DateObj (parseDate env s))"
      by (simp add: fromTodonnaItem_def)
  qed
  have d3: "todo_date r = None \<or> todo_date r = Some (DateStr []) \<longrightarrow>
                  todo_date ?r' = Some (DateObj (Some now))"
  proof
    assume "todo_date r = None \<or> todo_date r = Some (DateStr [])"
    then have "item_date w = None \<or> item_date w = Some []" using fields(5) by auto
    then show "todo_date ?r' = Some (DateObj (Some now))"
      by (auto simp: fromTodonnaItem_def)
  qed
  show "\<exists>r'. roundtrip env now r = Inr r' \<and>
           todo_id r' = todo_id r \<and>
           todo_text r' = todo_text r \<and>
           todo_status r' = Some (if normal_status r = Done then Done else Pending) \<and>
           (normal_status r \<noteq> Archived \<longrightarrow> todo_status r' = Some (normal_status r)) \<and>
           todo_completed r' = None \<and>
           todo_emoji r' = (if todo_emoji r = Some [] then None else todo_emoji r) \<and>
           todo_time r' = (if todo_time r = Some [] then None else todo_time r) \<and>
           todo_removed r' = Some False \<and>
           (\<forall>t. todo_date r = Some (DateObj (Some t)) \<and> toISOString env t \<noteq> [] \<and>
                parseDate env (toISOString env t) = Some t \<longrightarrow>
                  todo_date r' = Some (DateObj (Some t))) \<and>
           (\<forall>s. todo_date r = Some (DateStr s) \<and> s \<noteq> [] \<longrightarrow>
                  todo_date r' = Some (DateObj (parseDate env s))) \<and>
           (todo_date r = None \<or> todo_date r = Some (DateStr []) \<longrightarrow>
                  todo_date r' = Some (DateObj (Some now)))"
    using rt ident st st' d1 d2 d3
    by (intro exI [of _ ?r']) (simp add: fromTodonnaItem_def fields nonempty_cases)
qed

theorem roundtrip_fields_witness:
  "roundtrip epoch_env 7 broken_todo = Inl RangeError \<and>
   (\<exists>r'. roundtrip epoch_env 7 dated_todo = Inr r' \<and>
      todo_id r' = ''b'' \<and> todo_text r' = Some ''call the bank'' \<and> todo_status r' = Some Done \<and>
      todo_emoji r' = Some ''!'' \<and> todo_time r' = Some ''15:00'' \<and>
      todo_date r' = Some (DateObj (Some 0))) \<and>
   (\<exists>r'. roundtrip epoch_env 7 posted_todo = Inr r' \<and>
      todo_text r' = Some ''pay the rent'' \<and> todo_status r' = Some Pending \<and>
      todo_emoji r' = None \<and> todo_date r' = Some (DateObj (Some 86400000))) \<and>
   (\<exists>r'. roundtrip epoch_env 7 (plain_todo ''a'' ''milk'') = Inr r' \<and>
      todo_date r' = Some (DateObj (Some 7)))"
proof -
  have "todo_date broken_todo = Some (DateObj None)"
    by (simp add: broken_todo_def plain_todo_def)
  with roundtrip_fields [of broken_todo epoch_env 7]
  have a1: "roundtrip epoch_env 7 broken_todo = Inl RangeError"
    by (rule conjunct1 [THEN mp])
  have "todo_date dated_todo \<noteq> Some (DateObj None)"
    by (simp add: dated_todo_def)
  with roundtrip_fields [of dated_todo epoch_env 7]
  have "\<exists>r'. roundtrip epoch_env 7 dated_todo = Inr r' \<and>
           todo_id r' = todo_id dated_todo \<and>
           todo_text r' = todo_text dated_todo \<and>
           todo_status r' = Some (if normal_status dated_todo = Done then Done else Pending) \<and>
           (normal_status dated_todo \<noteq> Archived \<longrightarrow> todo_status r' = Some (normal_status dated_todo)) \<and>
           todo_completed r' = None \<and>
           todo_emoji r' = (if todo_emoji dated_todo = Some [] then None else todo_emoji dated_todo) \<and>
           todo_time r' = (if todo_time dated_todo = Some [] then None else todo_time dated_todo) \<and>
           todo_removed r' = Some False \<and>
           (\<forall>t. todo_date dated_todo = Some (DateObj (Some t)) \<and> toISOString epoch_env t \<noteq> [] \<and>
                parseDate epoch_env (toISOString epoch_env t) = Some t \<longrightarrow>
                  todo_date r' = Some (DateObj (Some t))) \<and>
           (\<forall>s. todo_date dated_todo = Some (DateStr s) \<and> s \<noteq> [] \<longrightarrow>
                  todo_date r' = Some (DateObj (parseDate epoch_env s))) \<and>
           (todo_date dated_todo = None \<or> todo_date dated_todo = Some (DateStr []) \<longrightarrow>
                  todo_date r' = Some (DateObj (Some 7)))"
    by (rule conjunct2 [THEN mp])
  then have a2: "\<exists>r'. roundtrip epoch_env 7 dated_todo = Inr r' \<and>
      todo_id r' = ''b'' \<and> todo_text r' = Some ''call the bank'' \<and> todo_status r' = Some Done \<and>
      todo_emoji r' = Some ''!'' \<and> todo_time r' = Some ''15:00'' \<and>
      todo_date r' = Some (DateObj (Some 0))"
    by (auto simp: dated_todo_def epoch_env_def normal_status_def)
  have "todo_date posted_todo \<noteq> Some (DateObj None)"
    by (simp add: posted_todo_def plain_todo_def)
  with roundtrip_fields [of posted_todo epoch_env 7]
  have "\<exists>r'. roundtrip epoch_env 7 posted_todo = Inr r' \<and>
           todo_id r' = todo_id posted_todo \<and>
           todo_text r' = todo_text posted_todo \<and>
           todo_status r' = Some (if normal_status posted_todo = Done then Done else Pending) \<and>
           (normal_status posted_todo \<noteq> Archived \<longrightarrow> todo_status r' = Some (normal_status posted_todo)) \<and>
           todo_completed r' = None \<and>
           todo_emoji r' = (if todo_emoji posted_todo = Some [] then None else todo_emoji posted_todo) \<and>
           todo_time r' = (if todo_time posted_todo = Some [] then None else todo_time posted_todo) \<and>
           todo_removed r' = Some False \<and>
           (\<forall>t. todo_date posted_todo = Some (DateObj (Some t)) \<and> toISOString epoch_env t \<noteq> [] \<and>
                parseDate epoch_env (toISOString epoch_env t) = Some t \<longrightarrow>
                  todo_date r' = Some (DateObj (Some t))) \<and>
           (\<forall>s. todo_date posted_todo = Some (DateStr s) \<and> s \<noteq> [] \<longrightarrow>
                  todo_date r' = Some (DateObj (parseDate epoch_env s))) \<and>
           (todo_date posted_todo = None \<or> todo_date posted_todo = Some (DateStr []) \<longrightarrow>
                  todo_date r' = Some (DateObj (Some 7)))"
    by (rule conjunct2 [THEN mp])
  then have a3: "\<exists>r'. roundtrip epoch_env 7 posted_todo = Inr r' \<and>
      todo_text r' = Some ''pay the rent'' \<and> todo_status r' = Some Pending \<and>
      todo_emoji r' = None \<and> todo_date r' = Some (DateObj (Some 86400000))"
    by (auto simp: posted_todo_def plain_todo_def epoch_env_def normal_status_def)
  have "todo_date (plain_todo ''a'' ''milk'') \<noteq> Some (DateObj None)"
    by (simp add: plain_todo_def)
  with roundtrip_fields [of "plain_todo ''a'' ''milk''" epoch_env 7]
  have "\<exists>r'. roundtrip epoch_env 7 (plain_todo ''a'' ''milk'') = Inr r' \<and>
           todo_id r' = todo_id (plain_todo ''a'' ''milk'') \<and>
           todo_text r' = todo_text (plain_todo ''a'' ''milk'') \<and>
           todo_status r' = Some (if normal_status (plain_todo ''a'' ''milk'') = Done then Done else Pending) \<and>
           (normal_status (plain_todo ''a'' ''milk'') \<noteq> Archived \<longrightarrow>
              todo_status r' = Some (normal_status (plain_todo ''a'' ''milk''))) \<and>
           todo_completed r' = None \<and>
           todo_emoji r' = (if todo_emoji (plain_todo ''a'' ''milk'') = Some [] then None
                            else todo_emoji (plain_todo ''a'' ''milk'')) \<and>
           todo_time r' = (if todo_time (plain_todo ''a'' ''milk'') = Some [] then None
                           else todo_time (plain_todo ''a'' ''milk'')) \<and>
           todo_removed r' = Some False \<and>
           (\<forall>t. todo_date (plain_todo ''a'' ''milk'') = Some (DateObj (Some t)) \<and>
                toISOString epoch_env t \<noteq> [] \<and>
                parseDate epoch_env (toISOString epoch_env t) = Some t \<longrightarrow>
                  todo_date r' = Some (DateObj (Some t))) \<and>
           (\<forall>s. todo_date (plain_todo ''a'' ''milk'') = Some (DateStr s) \<and> s \<noteq> [] \<longrightarrow>
                  todo_date r' = Some (DateObj (parseDate epoch_env s))) \<and>
           (todo_date (plain_todo ''a'' ''milk'') = None \<or>
            todo_date (plain_todo ''a'' ''milk'') = Some (DateStr []) \<longrightarrow>
                  todo_date r' = Some (DateObj (Some 7)))"
    by (rule conjunct2 [THEN mp])
  then have a4: "\<exists>r'. roundtrip epoch_env 7 (plain_todo ''a'' ''milk'') = Inr r' \<and>
      todo_date r' = Some (DateObj (Some 7))"
    by (auto simp: plain_todo_def)
  from a1 a2 a3 a4 show ?thesis by (intro conjI)
qed

section \<open>Claim C4: batches that stop on the first error\<close>

lemma first_failure_length: "first_failure operation xs c = Some j \<Longrightarrow> j < length xs"
proof (induction xs arbitrary: c j)
  case Nil
  then show ?case by simp
next
  case (Cons x xs)
  then show ?case
    by (auto split: prod.splits sum.splits)
qed

lemma batch_loop_stopped:
  assumes "quiet options" and "stops options" and "first_failure operation xs c = Some j"
  shows "j < length xs \<and>
     succeeded (fst (batch_loop operation ident options n 0 xs empty_result c)) +
       failed (fst (batch_loop operation ident options n 0 xs empty_result c)) = j + 1 \<and>
     failed (fst (batch_loop operation ident options n 0 xs empty_result c)) = 1 \<and>
     map fst (errors (fst (batch_loop operation ident options n 0 xs empty_result c))) = [ident (xs ! j)] \<and>
     batch_loop operation ident options n 0 xs empty_result c =
       batch_loop operation ident options n' 0 (take (j + 1) xs) empty_result c"
proof -
  have "batch_loop operation ident options n 0 xs empty_result c =
        batch_loop operation ident options n 0 (take (Suc j) xs) empty_result c"
    by (rule batch_loop_stops_take [OF assms(2) assms(1) assms(3)])
  also have "\<dots> = batch_loop operation ident options n' 0 (take (Suc j) xs) empty_result c"
    by (rule batch_loop_quiet_index [OF assms(1)])
  finally have t: "batch_loop operation ident options n 0 xs empty_result c =
       batch_loop operation ident options n' 0 (take (j + 1) xs) empty_result c"
    by simp
  from batch_loop_stops_counts [OF assms(2) assms(1) assms(3), of ident n 0 empty_result]
    first_failure_length [OF assms(3)] t
  show ?thesis by (simp add: empty_result_def)
qed

text \<open>
  C4 at concrete inputs, with \<^verbatim>\<open>stopOnError\<close> set and a progress callback that
  throws. The callback runs inside the \<^verbatim>\<open>try\<close> block, after
  \<^verbatim>\<open>result.succeeded++\<close>; what it throws is caught by the same \<^verbatim>\<open>catch\<close> block.
  On a list of one item, \<^verbatim>\<open>batchAdd\<close>, \<^verbatim>\<open>batchUpdate\<close> and \<^verbatim>\<open>batchRemove\<close>
  each count the item as succeeded and as failed, so \<open>succeeded + failed\<close> is 2. On the
  keys \<open>1\<close> and \<open>3\<close>, \<^verbatim>\<open>batchRemove\<close> removes the key \<open>1\<close>, reports one
  success and one failure, names \<open>1\<close> in the error list and stops: no operation has
  failed, and the key \<open>3\<close> is never removed.
\<close>

theorem throwing_callback_counted_twice:
  "fst (batchAdd epoch_env milk_scope [plain_todo ''b'' ''bread''] throwing) =
     \<lparr> succeeded = 1, failed = 1, errors = [(''b'', CallbackError)] \<rparr> \<and>
   fst (batchUpdate epoch_env milk_scope [(''a'', no_updates)] throwing) =
     \<lparr> succeeded = 1, failed = 1, errors = [(''a'', CallbackError)] \<rparr> \<and>
   fst (batchRemove milk_scope [''a''] throwing) =
     \<lparr> succeeded = 1, failed = 1, errors = [(''a'', CallbackError)] \<rparr> \<and>
   first_failure Todonna_remove [''1'', ''3''] two_scope = None \<and>
   batchRemove two_scope [''1'', ''3''] throwing =
     (\<lparr> succeeded = 1, failed = 1, errors = [(''1'', CallbackError)] \<rparr>,
      two_scope\<lparr> calls := [Remove ''1''],
                 objects := [(''3'', WireObject (plain_item (Some ''3'') (Some ''old'')))] \<rparr>)"
  by (simp add: batchAdd_def batchUpdate_def batchRemove_def Todonna_add_def Todonna_update_def
      getObject_def storeObject_def Let_def Todonna_remove_def remove_key_def progress_def
      stops_def empty_result_def record_failure_def milk_scope_def two_scope_def scope_of_def
      throwing_def plain_todo_def
      plain_item_def toTodonnaItem_def fromTodonnaItem_def spread_def no_updates_def
      wire_status_def wire_completed_def epoch_env_def)

text \<open>
  With a progress callback that returns normally, or with none, a batch stops on the
  first operation that fails. When \<^verbatim>\<open>stopOnError\<close> is set and item \<open>j\<close> (counted
  from 0, so the \<open>k\<close>-th item for \<open>k = j + 1\<close>) is the first on which the operation
  fails, then \<^verbatim>\<open>batchAdd\<close>,
  \<^verbatim>\<open>batchUpdate\<close> and \<^verbatim>\<open>batchRemove\<close> each return a result with
  \<open>succeeded + failed = k\<close> and \<open>failed = 1\<close>, whose error list holds the id of that
  item and nothing else, and the call is the same, in its result and in what it does to
  the scope, as the call on the first \<open>k\<close> items alone. With or without
  \<^verbatim>\<open>stopOnError\<close>, \<open>succeeded + failed\<close> is at most the number of items.
\<close>

theorem batch_stopOnError:
  assumes "quiet options"
  shows
    "(stops options \<and> first_failure (Todonna_add env) ts c = Some j \<longrightarrow>
        j < length ts \<and>
        succeeded (fst (batchAdd env c ts options)) + failed (fst (batchAdd env c ts options)) = j + 1 \<and>
        failed (fst (batchAdd env c ts options)) = 1 \<and>
        map fst (errors (fst (batchAdd env c ts options))) = [todo_id (ts ! j)] \<and>
        batchAdd env c ts options = batchAdd env c (take (j + 1) ts) options)
   \<and> (stops options \<and> first_failure (\<lambda>c1 u. Todonna_update env c1 (fst u) (snd u)) updates c = Some j \<longrightarrow>
        j < length updates \<and>
        succeeded (fst (batchUpdate env c updates options)) + failed (fst (batchUpdate env c updates options)) = j + 1 \<and>
        failed (fst (batchUpdate env c updates options)) = 1 \<and>
        map fst (errors (fst (batchUpdate env c updates options))) = [fst (updates ! j)] \<and>
        batchUpdate env c updates options = batchUpdate env c (take (j + 1) updates) options)
   \<and> (stops options \<and> first_failure Todonna_remove ids c = Some j \<longrightarrow>
        j < length ids \<and>
        succeeded (fst (batchRemove c ids options)) + failed (fst (batchRemove c ids options)) = j + 1 \<and>
        failed (fst (batchRemove c ids options)) = 1 \<and>
        map fst (errors (fst (batchRemove c ids options))) = [ids ! j] \<and>
        batchRemove c ids options = batchRemove c (take (j + 1) ids) options)
   \<and> succeeded (fst (batchAdd env c ts options)) + failed (fst (batchAdd env c ts options)) \<le> length ts
   \<and> succeeded (fst (batchUpdate env c updates options)) + failed (fst (batchUpdate env c updates options)) \<le> length updates
   \<and> succeeded (fst (batchRemove c ids options)) + failed (fst (batchRemove c ids options)) \<le> length ids"
proof (intro conjI impI)
  assume a: "stops options \<and> first_failure (Todonna_add env) ts c = Some j"
  from batch_loop_stopped [OF assms, of "Todonna_add env" ts c j todo_id "length ts" "length (take (j + 1) ts)"] a
  show "j < length ts"
    and "succeeded (fst (batchAdd env c ts options)) + failed (fst (batchAdd env c ts options)) = j + 1"
    and "failed (fst (batchAdd env c ts options)) = 1"
    and "map fst (errors (fst (batchAdd env c ts options))) = [todo_id (ts ! j)]"
    and "batchAdd env c ts options = batchAdd env c (take (j + 1) ts) options"
    unfolding batchAdd_def by blast+
next
  assume a: "stops options \<and> first_failure (\<lambda>c1 u. Todonna_update env c1 (fst u) (snd u)) updates c = Some j"
  from batch_loop_stopped [OF assms, of "\<lambda>c1 u. Todonna_update env c1 (fst u) (snd u)" updates c j fst
      "length updates" "length (take (j + 1) updates)"] a
  show "j < length updates"
    and "succeeded (fst (batchUpdate env c updates options)) + failed (fst (batchUpdate env c updates options)) = j + 1"
    and "failed (fst (batchUpdate env c updates options)) = 1"
    and "map fst (errors (fst (batchUpdate env c updates options))) = [fst (updates ! j)]"
    and "batchUpdate env c updates options = batchUpdate env c (take (j + 1) updates) options"
    unfolding batchUpdate_def by blast+
next
  assume a: "stops options \<and> first_failure Todonna_remove ids c = Some j"
  from batch_loop_stopped [OF assms, of Todonna_remove ids c j "\<lambda>ident. ident"
      "length ids" "length (take (j + 1) ids)"] a
  show "j < length ids"
    and "succeeded (fst (batchRemove c ids options)) + failed (fst (batchRemove c ids options)) = j + 1"
    and "failed (fst (batchRemove c ids options)) = 1"
    and "map fst (errors (fst (batchRemove c ids options))) = [ids ! j]"
    and "batchRemove c ids options = batchRemove c (take (j + 1) ids) options"
    unfolding batchRemove_def by blast+
next
  show "succeeded (fst (batchAdd env c ts options)) + failed (fst (batchAdd env c ts options)) \<le> length ts"
    using batch_loop_bound [OF assms, of "Todonna_add env" todo_id "length ts" 0 ts empty_result c]
    by (simp add: batchAdd_def empty_result_def)
  show "succeeded (fst (batchUpdate env c updates options)) + failed (fst (batchUpdate env c updates options)) \<le> length updates"
    using batch_loop_bound [OF assms, of "\<lambda>c1 u. Todonna_update env c1 (fst u) (snd u)" fst "length updates" 0 updates empty_result c]
    by (simp add: batchUpdate_def empty_result_def)
  show "succeeded (fst (batchRemove c ids options)) + failed (fst (batchRemove c ids options)) \<le> length ids"
    using batch_loop_bound [OF assms, of Todonna_remove "\<lambda>ident. ident" "length ids" 0 ids empty_result c]
    by (simp add: batchRemove_def empty_result_def)
qed

theorem batch_stopOnError_witness:
  "quiet stop_on_error \<and> stops stop_on_error \<and>
   first_failure (Todonna_add epoch_env)
     [plain_todo ''a'' ''x'', plain_todo ''b'' ''y'', plain_todo ''c'' ''z''] rejecting_scope = Some 1 \<and>
   first_failure (\<lambda>c1 u. Todonna_update epoch_env c1 (fst u) (snd u))
     [(''a'', no_updates), (''zz'', no_updates), (''a'', soft_delete)] rejecting_scope = Some 1 \<and>
   first_failure Todonna_remove [''a'', ''b'', ''c''] rejecting_scope = Some 1 \<and>
   failed (fst (batchAdd epoch_env rejecting_scope
     [plain_todo ''a'' ''x'', plain_todo ''b'' ''y'', plain_todo ''c'' ''z''] stop_on_error)) = 1 \<and>
   succeeded (fst (batchAdd epoch_env rejecting_scope
     [plain_todo ''a'' ''x'', plain_todo ''b'' ''y'', plain_todo ''c'' ''z''] stop_on_error)) = 1 \<and>
   map fst (errors (fst (batchAdd epoch_env rejecting_scope
     [plain_todo ''a'' ''x'', plain_todo ''b'' ''y'', plain_todo ''c'' ''z''] stop_on_error))) = [''b''] \<and>
   failed (fst (batchUpdate epoch_env rejecting_scope
     [(''a'', no_updates), (''zz'', no_updates), (''a'', soft_delete)] stop_on_error)) = 1 \<and>
   succeeded (fst (batchUpdate epoch_env rejecting_scope
     [(''a'', no_updates), (''zz'', no_updates), (''a'', soft_delete)] stop_on_error)) = 1 \<and>
   map fst (errors (fst (batchUpdate epoch_env rejecting_scope
     [(''a'', no_updates), (''zz'', no_updates), (''a'', soft_delete)] stop_on_error))) = [''zz''] \<and>
   failed (fst (batchRemove rejecting_scope [''a'', ''b'', ''c''] stop_on_error)) = 1 \<and>
   succeeded (fst (batchRemove rejecting_scope [''a'', ''b'', ''c''] stop_on_error)) = 1 \<and>
   map fst (errors (fst (batchRemove rejecting_scope [''a'', ''b'', ''c''] stop_on_error))) = [''b'']"
proof -
  have q: "quiet stop_on_error"
    by (simp add: quiet_def progress_def stop_on_error_def)
  have s: "stops stop_on_error"
    by (simp add: stops_def stop_on_error_def)
  have a: "first_failure (Todonna_add epoch_env)
     [plain_todo ''a'' ''x'', plain_todo ''b'' ''y'', plain_todo ''c'' ''z''] rejecting_scope = Some 1"
    by (simp add: Todonna_add_def toTodonnaItem_def storeObject_def plain_todo_def
        rejecting_scope_def scope_of_def)
  have u: "first_failure (\<lambda>c1 u. Todonna_update epoch_env c1 (fst u) (snd u))
     [(''a'', no_updates), (''zz'', no_updates), (''a'', soft_delete)] rejecting_scope = Some 1"
    by code_simp
  have r: "first_failure Todonna_remove [''a'', ''b'', ''c''] rejecting_scope = Some 1"
    by (simp add: Todonna_remove_def remove_key_def rejecting_scope_def scope_of_def)
  note t = batch_stopOnError [OF q, of epoch_env
        "[plain_todo ''a'' ''x'', plain_todo ''b'' ''y'', plain_todo ''c'' ''z'']" rejecting_scope 1
        "[(''a'', no_updates), (''zz'', no_updates), (''a'', soft_delete)]" "[''a'', ''b'', ''c'']"]
  let ?A = "fst (batchAdd epoch_env rejecting_scope
     [plain_todo ''a'' ''x'', plain_todo ''b'' ''y'', plain_todo ''c'' ''z''] stop_on_error)"
  let ?U = "fst (batchUpdate epoch_env rejecting_scope
     [(''a'', no_updates), (''zz'', no_updates), (''a'', soft_delete)] stop_on_error)"
  let ?R = "fst (batchRemove rejecting_scope [''a'', ''b'', ''c''] stop_on_error)"
  from t s a have A: "succeeded ?A + failed ?A = 1 + 1 \<and> failed ?A = 1 \<and>
      map fst (errors ?A) = [todo_id ([plain_todo ''a'' ''x'', plain_todo ''b'' ''y'', plain_todo ''c'' ''z''] ! 1)]"
    by blast
  from t s u have U: "succeeded ?U + failed ?U = 1 + 1 \<and> failed ?U = 1 \<and>
      map fst (errors ?U) = [fst ([(''a'', no_updates), (''zz'', no_updates), (''a'', soft_delete)] ! 1)]"
    by blast
  from t s r have R: "succeeded ?R + failed ?R = 1 + 1 \<and> failed ?R = 1 \<and>
      map fst (errors ?R) = [[''a'', ''b'', ''c''] ! 1]"
    by blast
  show ?thesis
    using q s a u r A U R by (simp add: plain_todo_def)
qed

section \<open>Updating a record: lemmas\<close>

lemma update_eq:
  "Todonna_update env c ident updates =
     (case fetch_failure c ident of
        Some e \<Rightarrow> (Inl e, c\<lparr>calls := calls c @ [GetObject ident (Some 0)]\<rparr>)
      | None \<Rightarrow>
          (case map_of (objects c) ident of
             None \<Rightarrow> (Inl (NotFound ident), c\<lparr>calls := calls c @ [GetObject ident (Some 0)]\<rparr>)
           | Some (NonObject b) \<Rightarrow>
               (Inl (NotFound ident), c\<lparr>calls := calls c @ [GetObject ident (Some 0)]\<rparr>)
           | Some (WireObject existing) \<Rightarrow>
               (case toTodonnaItem env
                       (spread (fromTodonnaItem env (clock env ident) ident existing) updates ident) of
                  Inl e \<Rightarrow> (Inl e, c\<lparr>calls := calls c @ [GetObject ident (Some 0)]\<rparr>)
                | Inr item \<Rightarrow>
                    storeObject (c\<lparr>calls := calls c @ [GetObject ident (Some 0)]\<rparr>)
                      ''todonna-item'' ident item)))"
  by (simp add: Todonna_update_def getObject_def Let_def
      split: option.splits stored.splits sum.splits)

lemma storeObject_eq:
  "storeObject c alias_name key item =
     (if store_rejects c key item
      then (Inl ClientFailure, c\<lparr>calls := calls c @ [StoreObject alias_name key item]\<rparr>)
      else (Inr (), c\<lparr>calls := calls c @ [StoreObject alias_name key item],
                      objects := AList.update key (WireObject item) (objects c)\<rparr>))"
  by (simp add: storeObject_def Let_def)

lemma update_succeeds:
  assumes "Todonna_update env c ident updates = (Inr u, c')"
  shows "\<exists>existing item.
           fetch_failure c ident = None \<and>
           map_of (objects c) ident = Some (WireObject existing) \<and>
           toTodonnaItem env
             (spread (fromTodonnaItem env (clock env ident) ident existing) updates ident) = Inr item \<and>
           \<not> store_rejects c ident item \<and>
           c' = c\<lparr>calls := calls c @ [GetObject ident (Some 0), StoreObject ''todonna-item'' ident item],
                   objects := AList.update ident (WireObject item) (objects c)\<rparr>"
  using assms unfolding update_eq storeObject_eq
  by (auto split: option.splits stored.splits sum.splits if_splits)

lemma toTodonnaItem_fields:
  assumes "toTodonnaItem env todo = Inr item"
  shows "todo_item_id item = Some (todo_id todo)" and "todo_item_text item = todo_text todo"
    and "item_removed item = None" and "item_completed item = None"
    and "todo_item_status item = wire_status todo"
  using assms by (auto simp: toTodonnaItem_def split: sum.splits)

section \<open>Claim C9: what the codec of the main module keeps\<close>

text \<open>
  C9. Every record that \<^verbatim>\<open>get\<close> or \<^verbatim>\<open>getAll\<close> of the main module returns has
  \<^verbatim>\<open>removed = false\<close> and a status that is done or pending, whatever the wire object
  holds; a wire status of archived is decoded as pending. \<^verbatim>\<open>toTodonnaItem\<close> never
  writes a \<^verbatim>\<open>removed\<close> field, so the object that a successful
  \<^verbatim>\<open>update(id, {removed: true})\<close> stores has none, and reading it back gives
  \<^verbatim>\<open>removed = false\<close>.
\<close>

theorem removed_flag_not_persisted:
  "(fst (Todonna_get env c ident age) = Inr (Some r) \<longrightarrow>
      todo_removed r = Some False \<and> (todo_status r = Some Done \<or> todo_status r = Some Pending))
   \<and> (fst (Todonna_getAll env c options) = Inr rs \<longrightarrow>
      (\<forall>r \<in> set rs. todo_removed r = Some False \<and>
                      (todo_status r = Some Done \<or> todo_status r = Some Pending)))
   \<and> todo_removed (fromTodonnaItem env now key item) = Some False
   \<and> (todo_item_status item = Some Archived \<longrightarrow>
        todo_status (fromTodonnaItem env now key item) = Some Pending)
   \<and> (toTodonnaItem env todo = Inr written \<longrightarrow> item_removed written = None)
   \<and> (Todonna_update env c ident (updates\<lparr>p_removed := Given (Some True)\<rparr>) = (Inr u, c') \<longrightarrow>
        (\<exists>written. map_of (objects c') ident = Some (WireObject written) \<and>
                    item_removed written = None) \<and>
        (\<forall>r'. fst (Todonna_get env c' ident age) = Inr (Some r') \<longrightarrow> todo_removed r' = Some False))"
proof (intro conjI impI)
  assume "fst (Todonna_get env c ident age) = Inr (Some r)"
  then have "entry_of env c ident = Inr (Some r)" by (simp add: get_result)
  then show "todo_removed r = Some False" and "todo_status r = Some Done \<or> todo_status r = Some Pending"
    by (auto dest: entry_of_removed)
next
  assume a: "fst (Todonna_getAll env c options) = Inr rs"
  show "\<forall>r \<in> set rs. todo_removed r = Some False \<and>
                      (todo_status r = Some Done \<or> todo_status r = Some Pending)"
  proof
    fix r assume "r \<in> set rs"
    from getAll_members [OF a this] obtain key where "entry_of env c key = Inr (Some r)" by blast
    then show "todo_removed r = Some False \<and>
                      (todo_status r = Some Done \<or> todo_status r = Some Pending)"
      by (auto dest: entry_of_removed)
  qed
next
  show "todo_removed (fromTodonnaItem env now key item) = Some False"
    by (simp add: fromTodonnaItem_def)
next
  assume "todo_item_status item = Some Archived"
  then show "todo_status (fromTodonnaItem env now key item) = Some Pending"
    by (simp add: fromTodonnaItem_def wire_completed_def)
next
  assume "toTodonnaItem env todo = Inr written"
  then show "item_removed written = None" by (rule toTodonnaItem_fields)
next
  assume a: "Todonna_update env c ident (updates\<lparr>p_removed := Given (Some True)\<rparr>) = (Inr u, c')"
  from update_succeeds [OF a] obtain existing item where
    i: "toTodonnaItem env (spread (fromTodonnaItem env (clock env ident) ident existing)
          (updates\<lparr>p_removed := Given (Some True)\<rparr>) ident) = Inr item"
    and c': "c' = c\<lparr>calls := calls c @ [GetObject ident (Some 0), StoreObject ''todonna-item'' ident item],
                   objects := AList.update ident (WireObject item) (objects c)\<rparr>"
    by blast
  have "map_of (objects c') ident = Some (WireObject item)"
    by (simp add: c' update_conv')
  moreover have "item_removed item = None" using i by (rule toTodonnaItem_fields)
  ultimately show "\<exists>written. map_of (objects c') ident = Some (WireObject written) \<and>
                    item_removed written = None"
    by blast
  show "\<forall>r'. fst (Todonna_get env c' ident age) = Inr (Some r') \<longrightarrow> todo_removed r' = Some False"
    by (auto simp: get_result dest: entry_of_removed)
qed

theorem removed_flag_not_persisted_witness:
  "fst (Todonna_get epoch_env flagged_scope ''a'' None) =
     Inr (Some (fromTodonnaItem epoch_env 0 ''a'' flagged_item)) \<and>
   fst (Todonna_getAll epoch_env flagged_scope None) =
     Inr [fromTodonnaItem epoch_env 0 ''a'' flagged_item] \<and>
   todo_item_status flagged_item = Some Archived \<and>
   item_removed flagged_item = Some True \<and>
   todo_removed (fromTodonnaItem epoch_env 0 ''a'' flagged_item) = Some False \<and>
   todo_status (fromTodonnaItem epoch_env 0 ''a'' flagged_item) = Some Pending \<and>
   (\<exists>written. toTodonnaItem epoch_env ((plain_todo ''a'' ''milk'')\<lparr>todo_removed := Some True\<rparr>) = Inr written \<and>
               item_removed written = None) \<and>
   (\<exists>c'. Todonna_update epoch_env flagged_scope ''a'' soft_delete = (Inr (), c') \<and>
         (\<exists>written. map_of (objects c') ''a'' = Some (WireObject written) \<and>
                     item_removed written = None))"
proof -
  let ?r = "fromTodonnaItem epoch_env 0 ''a'' flagged_item"
  let ?t = "(plain_todo ''a'' ''milk'')\<lparr>todo_removed := Some True\<rparr>"
  have e: "entry_of epoch_env flagged_scope ''a'' = Inr (Some ?r)"
    by (simp add: entry_of_def flagged_scope_def scope_of_def flagged_item_def plain_item_def
        epoch_env_def)
  have g: "fst (Todonna_get epoch_env flagged_scope ''a'' None) = Inr (Some ?r)"
    by (simp add: get_result e)
  have l: "listing_failure flagged_scope = None" "map fst (objects flagged_scope) = [''a'']"
    by (simp_all add: flagged_scope_def scope_of_def)
  have ga: "fst (Todonna_getAll epoch_env flagged_scope None) = Inr [?r]"
    by (simp add: getAll_listed [OF l(1)] l(2) e fromTodonnaItem_def)
  have a: "todo_item_status flagged_item = Some Archived" "item_removed flagged_item = Some True"
    by (simp_all add: flagged_item_def)
  obtain written where w: "toTodonnaItem epoch_env ?t = Inr written"
    using toTodonnaItem_total [of ?t epoch_env] by (auto simp: plain_todo_def)
  have "fst (Todonna_update epoch_env flagged_scope ''a'' soft_delete) = Inr ()"
    by code_simp
  then obtain c' where
    u: "Todonna_update epoch_env flagged_scope ''a'' (no_updates\<lparr>p_removed := Given (Some True)\<rparr>) = (Inr (), c')"
    unfolding soft_delete_def by (metis prod.collapse)
  note t = removed_flag_not_persisted [where env = epoch_env and c = flagged_scope
      and ident = "''a''" and age = None and r = ?r and options = None and rs = "[?r]"
      and now = 0 and key = "''a''" and item = flagged_item and todo = ?t and written = written
      and updates = no_updates and u = "()" and c' = c']
  from t g ga a w u show ?thesis
    unfolding soft_delete_def by simp
qed

section \<open>Claim C5: soft deletion and the default listing\<close>

text \<open>
  C5 at a concrete scope. The scope holds one record at key \<open>a\<close>. The call
  \<^verbatim>\<open>update('a', {removed: true})\<close> succeeds, and the default \<^verbatim>\<open>getAll()\<close> that
  follows still lists the record, with \<^verbatim>\<open>removed = false\<close>: the flag was not
  written, so the listing cannot leave the record out.
\<close>

theorem soft_delete_still_listed:
  "fst (Todonna_update epoch_env milk_scope ''a'' soft_delete) = Inr () \<and>
   fst (Todonna_getAll epoch_env (snd (Todonna_update epoch_env milk_scope ''a'' soft_delete)) None) =
     Inr [\<lparr> todo_id = ''a'', todo_text = Some ''milk'', todo_completed = None,
            todo_status = Some Pending, todo_emoji = None, todo_date = Some (DateObj (Some 0)),
            todo_time = None, todo_removed = Some False \<rparr>]"
proof -
  let ?item = "\<lparr> todo_item_id = Some ''a'', todo_item_text = Some ''milk'',
                 todo_item_status = Some Pending, item_emoji = None,
                 item_date = Some ''1970-01-01T00:00:00.000Z'', item_time = None,
                 item_completed = None, item_removed = None \<rparr>"
  have u: "Todonna_update epoch_env milk_scope ''a'' soft_delete =
      (Inr (), milk_scope\<lparr>calls := [GetObject ''a'' (Some 0), StoreObject ''todonna-item'' ''a'' ?item],
                          objects := [(''a'', WireObject ?item)]\<rparr>)"
    by (simp add: update_eq storeObject_eq milk_scope_def scope_of_def plain_item_def
        fromTodonnaItem_def spread_def soft_delete_def no_updates_def toTodonnaItem_def
        wire_status_def wire_completed_def epoch_env_def)
  let ?c = "milk_scope\<lparr>calls := [GetObject ''a'' (Some 0), StoreObject ''todonna-item'' ''a'' ?item],
                          objects := [(''a'', WireObject ?item)]\<rparr>"
  have l: "listing_failure ?c = None"
    by (simp add: milk_scope_def scope_of_def)
  have g: "fst (Todonna_getAll epoch_env ?c None) =
      Inr (keep_results (opt_includeRemoved None)
             (map (entry_of epoch_env ?c) (remdups (map fst (objects ?c)))))"
    by (simp only: getAll_listed [OF l] fst_conv)
  have e: "entry_of epoch_env ?c ''a'' =
      Inr (Some \<lparr> todo_id = ''a'', todo_text = Some ''milk'', todo_completed = None,
            todo_status = Some Pending, todo_emoji = None, todo_date = Some (DateObj (Some 0)),
            todo_time = None, todo_removed = Some False \<rparr>)"
    by (simp add: entry_of_def milk_scope_def scope_of_def fromTodonnaItem_def
        wire_completed_def epoch_env_def)
  have "fst (Todonna_update epoch_env milk_scope ''a'' soft_delete) = Inr ()"
    by (simp add: u)
  moreover have "fst (Todonna_getAll epoch_env (snd (Todonna_update epoch_env milk_scope ''a'' soft_delete)) None) =
     Inr [\<lparr> todo_id = ''a'', todo_text = Some ''milk'', todo_completed = None,
            todo_status = Some Pending, todo_emoji = None, todo_date = Some (DateObj (Some 0)),
            todo_time = None, todo_removed = Some False \<rparr>]"
    unfolding u snd_conv g by (simp add: e)
  ultimately show ?thesis by simp
qed

section \<open>Claim C10: entries stored without a date\<close>

lemma listed_entry_kept:
  assumes "listing_failure c = None" and "fetch_failure c key = None"
    and "map_of (objects c) key = Some (WireObject item)" and "todo_item_text item \<noteq> None"
  shows "fromTodonnaItem env (clock env key) key item \<in>
           set (keep_results incl (map (entry_of env c) (remdups (map fst (objects c)))))"
proof -
  have k: "key \<in> fst ` set (objects c)"
    using assms(3) by (metis map_of_SomeD image_eqI fst_conv)
  have e: "entry_of env c key = Inr (Some (fromTodonnaItem env (clock env key) key item))"
    using assms by (simp add: entry_of_def)
  have "Inr (Some (fromTodonnaItem env (clock env key) key item)) \<in> entry_of env c ` fst ` set (objects c)"
    using k e by (metis image_eqI)
  then show ?thesis
    by (simp add: set_keep_results fromTodonnaItem_def)
qed

text \<open>
  C10. A wire object without a \<^verbatim>\<open>date\<close> is decoded with the moment of decoding as
  its date. When the listing and the fetch of its key succeed and the object has its
  text, \<^verbatim>\<open>getByDate(d)\<close> returns the decoded record exactly when the moment of
  decoding and \<open>d\<close> have the same \<^verbatim>\<open>toDateString\<close>, the local calendar day.
\<close>

theorem undated_entry_dated_now:
  "(item_date item = None \<longrightarrow>
      todo_date (fromTodonnaItem env now key item) = Some (DateObj (Some now)))
   \<and> (listing_failure c = None \<and> fetch_failure c key = None \<and>
       map_of (objects c) key = Some (WireObject item) \<and> todo_item_text item \<noteq> None \<and>
       item_date item = None \<longrightarrow>
       (\<exists>rs. fst (Todonna_getByDate env c d options) = Inr rs \<and>
          (fromTodonnaItem env (clock env key) key item \<in> set rs \<longleftrightarrow>
             toDateString env (Some (clock env key)) = toDateString env d)))"
proof (intro conjI impI)
  assume "item_date item = None"
  then show "todo_date (fromTodonnaItem env now key item) = Some (DateObj (Some now))"
    by (simp add: fromTodonnaItem_def)
next
  assume a: "listing_failure c = None \<and> fetch_failure c key = None \<and>
       map_of (objects c) key = Some (WireObject item) \<and> todo_item_text item \<noteq> None \<and>
       item_date item = None"
  let ?r = "fromTodonnaItem env (clock env key) key item"
  let ?all = "keep_results (opt_includeRemoved options)
                (map (entry_of env c) (remdups (map fst (objects c))))"
  let ?rs = "filter (\<lambda>todo. toDateString env (newDate env (todo_date todo)) = toDateString env d) ?all"
  have g: "fst (Todonna_getByDate env c d options) = Inr ?rs"
    using a by (simp add: Todonna_getByDate_def getAll_listed)
  have m: "?r \<in> set ?all"
    using a by (intro listed_entry_kept) simp_all
  have dt: "newDate env (todo_date ?r) = Some (clock env key)"
    using a by (simp add: fromTodonnaItem_def)
  have "?r \<in> set ?rs \<longleftrightarrow> toDateString env (Some (clock env key)) = toDateString env d"
    using m dt by simp
  with g show "\<exists>rs. fst (Todonna_getByDate env c d options) = Inr rs \<and>
          (?r \<in> set rs \<longleftrightarrow> toDateString env (Some (clock env key)) = toDateString env d)"
    by simp
qed

theorem undated_entry_dated_now_witness:
  "item_date (plain_item (Some ''a'') (Some ''milk'')) = None \<and>
   todo_date (fromTodonnaItem epoch_env 0 ''a'' (plain_item (Some ''a'') (Some ''milk''))) =
     Some (DateObj (Some 0)) \<and>
   toDateString epoch_env (Some (clock epoch_env ''a'')) = toDateString epoch_env (Some 3600000) \<and>
   toDateString epoch_env (Some (clock epoch_env ''a'')) \<noteq> toDateString epoch_env (Some 86400000) \<and>
   (\<exists>rs. fst (Todonna_getByDate epoch_env milk_scope (Some 3600000) None) = Inr rs \<and>
      fromTodonnaItem epoch_env (clock epoch_env ''a'') ''a'' (plain_item (Some ''a'') (Some ''milk'')) \<in> set rs) \<and>
   (\<exists>rs. fst (Todonna_getByDate epoch_env milk_scope (Some 86400000) None) = Inr rs \<and>
      fromTodonnaItem epoch_env (clock epoch_env ''a'') ''a'' (plain_item (Some ''a'') (Some ''milk'')) \<notin> set rs)"
proof -
  let ?item = "plain_item (Some ''a'') (Some ''milk'')"
  have h: "listing_failure milk_scope = None \<and> fetch_failure milk_scope ''a'' = None \<and>
       map_of (objects milk_scope) ''a'' = Some (WireObject ?item) \<and> todo_item_text ?item \<noteq> None \<and>
       item_date ?item = None"
    by (simp add: milk_scope_def scope_of_def plain_item_def)
  have d1: "toDateString epoch_env (Some (clock epoch_env ''a'')) = toDateString epoch_env (Some 3600000)"
    and d2: "toDateString epoch_env (Some (clock epoch_env ''a'')) \<noteq> toDateString epoch_env (Some 86400000)"
    by (simp_all add: epoch_env_def)
  note t1 = undated_entry_dated_now [where item = ?item and env = epoch_env and now = 0
      and key = "''a''" and c = milk_scope and d = "Some 3600000" and options = None]
  note t2 = undated_entry_dated_now [where item = ?item and env = epoch_env and now = 0
      and key = "''a''" and c = milk_scope and d = "Some 86400000" and options = None]
  from t1 h have a1: "todo_date (fromTodonnaItem epoch_env 0 ''a'' ?item) = Some (DateObj (Some 0))"
    by simp
  from t1 h d1 have a2: "\<exists>rs. fst (Todonna_getByDate epoch_env milk_scope (Some 3600000) None) = Inr rs \<and>
      fromTodonnaItem epoch_env (clock epoch_env ''a'') ''a'' ?item \<in> set rs"
    by simp
  from t2 h d2 have a3: "\<exists>rs. fst (Todonna_getByDate epoch_env milk_scope (Some 86400000) None) = Inr rs \<and>
      fromTodonnaItem epoch_env (clock epoch_env ''a'') ''a'' ?item \<notin> set rs"
    by simp
  from h d1 d2 a1 a2 a3 show ?thesis by simp
qed

section \<open>The lightweight module and the entries of a listing: lemmas\<close>

lemma module_entry_calls [simp]: "module_entry (c\<lparr>calls := l\<rparr>) = module_entry c"
  by (rule ext) (simp add: module_entry_def split: option.splits stored.splits)








lemma module_get_scope:
  "snd (TodonnaModule_get c ident age) = c\<lparr>calls := calls c @ [GetObject ident age]\<rparr>"
  by (simp add: TodonnaModule_get_def getObject_eq split: option.splits stored.splits)

lemma getAll_set:
  assumes "listing_failure c = None"
  shows "\<exists>rs. fst (Todonna_getAll env c options) = Inr rs \<and>
           set rs = {fromTodonnaItem env (clock env k) k item | k item.
                       fetch_failure c k = None \<and> map_of (objects c) k = Some (WireObject item) \<and>
                       todo_item_text item \<noteq> None}"
proof -
  let ?rs = "keep_results (opt_includeRemoved options)
               (map (entry_of env c) (remdups (map fst (objects c))))"
  have g: "fst (Todonna_getAll env c options) = Inr ?rs"
    by (simp add: getAll_listed [OF assms])
  have "set ?rs = {fromTodonnaItem env (clock env k) k item | k item.
                       fetch_failure c k = None \<and> map_of (objects c) k = Some (WireObject item) \<and>
                       todo_item_text item \<noteq> None}" (is "_ = ?S")
  proof (intro set_eqI iffI)
    fix t assume "t \<in> set ?rs"
    then obtain k where k: "entry_of env c k = Inr (Some t)"
      by (auto simp: set_keep_results)
    then have f: "fetch_failure c k = None"
      and d: "decode_entry env k (map_of (objects c) k) = Some t"
      by (auto simp: entry_of_def split: option.splits)
    from d obtain item where "map_of (objects c) k = Some (WireObject item)"
      "todo_item_text item \<noteq> None" "t = fromTodonnaItem env (clock env k) k item"
      by (auto elim!: decode_entry.elims split: if_splits)
    with f show "t \<in> ?S" by blast
  next
    fix t assume "t \<in> ?S"
    then obtain k item where t: "t = fromTodonnaItem env (clock env k) k item"
      and h: "fetch_failure c k = None" "map_of (objects c) k = Some (WireObject item)"
        "todo_item_text item \<noteq> None"
      by blast
    show "t \<in> set ?rs"
      unfolding t by (rule listed_entry_kept [OF assms h])
  qed
  with g show ?thesis by blast
qed

section \<open>Claim C6: entries that cannot be decoded\<close>




section \<open>Claim C3: update\<close>

lemma spread_id: "todo_id (spread currentTodo updates ident) = ident"
  by (simp add: spread_def)

lemma toStorage_id: "toStorage env todo = Inr item \<Longrightarrow> todo_item_id item = Some (todo_id todo)"
  by (auto simp: toStorage_def split: sum.splits)

lemma module_update_eq:
  "TodonnaModule_update env c ident updates =
     (case fetch_failure c ident of
        Some e \<Rightarrow>
          (if isNotFoundError e then Inl (NotFound []) else Inl e,
           c\<lparr>calls := calls c @ [GetObject ident None]\<rparr>)
      | None \<Rightarrow>
          (case map_of (objects c) ident of
             None \<Rightarrow> (Inl (NotFound []), c\<lparr>calls := calls c @ [GetObject ident None]\<rparr>)
           | Some (NonObject b) \<Rightarrow>
               (if b
                then (case toStorage env (spread (fromStorage ident no_properties) updates ident) of
                        Inl e \<Rightarrow> (Inl e, c\<lparr>calls := calls c @ [GetObject ident None]\<rparr>)
                      | Inr payload \<Rightarrow>
                          storeObject (c\<lparr>calls := calls c @ [GetObject ident None]\<rparr>)
                            ''todonna-item'' ident payload)
                else (Inl (NotFound []), c\<lparr>calls := calls c @ [GetObject ident None]\<rparr>))
           | Some (WireObject existing) \<Rightarrow>
               (case toStorage env (spread (fromStorage ident existing) updates ident) of
                  Inl e \<Rightarrow> (Inl e, c\<lparr>calls := calls c @ [GetObject ident None]\<rparr>)
                | Inr payload \<Rightarrow>
                    storeObject (c\<lparr>calls := calls c @ [GetObject ident None]\<rparr>)
                      ''todonna-item'' ident payload)))"
  by (simp add: TodonnaModule_update_def TodonnaModule_get_def getObject_eq
      split: option.splits stored.splits sum.splits)

lemma update_first_call:
  "\<exists>rest. calls (snd (Todonna_update env c ident updates)) = calls c @ GetObject ident (Some 0) # rest"
  unfolding update_eq storeObject_eq
  by (auto split: option.splits stored.splits sum.splits)

lemma module_update_first_call:
  "\<exists>rest. calls (snd (TodonnaModule_update env c ident updates)) = calls c @ GetObject ident None # rest"
  unfolding module_update_eq storeObject_eq
  by (auto split: option.splits stored.splits sum.splits)

lemma update_error_keeps_objects:
  "fst (Todonna_update env c ident updates) = Inl e \<Longrightarrow>
     objects (snd (Todonna_update env c ident updates)) = objects c"
  unfolding update_eq storeObject_eq
  by (auto split: option.splits stored.splits sum.splits if_splits)

lemma over_case: "over old p = (case p of Omitted \<Rightarrow> old | Given v \<Rightarrow> v)"
  by (cases p) simp_all

lemma spread_fields:
  "spread current updates ident =
     \<lparr> todo_id = ident,
       todo_text =
         (case p_text updates of Omitted \<Rightarrow> todo_text current | Given v \<Rightarrow> v),
       todo_completed =
         (case p_completed updates of Omitted \<Rightarrow> todo_completed current | Given v \<Rightarrow> v),
       todo_status =
         (case p_status updates of Omitted \<Rightarrow> todo_status current | Given v \<Rightarrow> v),
       todo_emoji =
         (case p_emoji updates of Omitted \<Rightarrow> todo_emoji current | Given v \<Rightarrow> v),
       todo_date =
         (case p_date updates of Omitted \<Rightarrow> todo_date current | Given v \<Rightarrow> v),
       todo_time =
         (case p_time updates of Omitted \<Rightarrow> todo_time current | Given v \<Rightarrow> v),
       todo_removed =
         (case p_removed updates of Omitted \<Rightarrow> todo_removed current | Given v \<Rightarrow> v) \<rparr>"
  by (simp add: spread_def over_case)

lemma module_update_error_keeps_objects:
  "fst (TodonnaModule_update env c ident updates) = Inl e \<Longrightarrow>
     objects (snd (TodonnaModule_update env c ident updates)) = objects c"
  unfolding module_update_eq storeObject_eq
  by (auto split: option.splits stored.splits sum.splits if_splits)

lemma toStorage_text: "toStorage env todo = Inr item \<Longrightarrow> todo_item_text item = todo_text todo"
  by (auto simp: toStorage_def split: sum.splits)

lemma update_overlaid:
  assumes h: "fetch_failure c ident = None \<and>
       map_of (objects c) ident = Some (WireObject existing) \<and>
       current = fromTodonnaItem env (clock env ident) ident existing \<and>
       merged =
         \<lparr> todo_id = ident,
           todo_text =
             (case p_text updates of Omitted \<Rightarrow> todo_text current | Given v \<Rightarrow> v),
           todo_completed =
             (case p_completed updates of Omitted \<Rightarrow> todo_completed current | Given v \<Rightarrow> v),
           todo_status =
             (case p_status updates of Omitted \<Rightarrow> todo_status current | Given v \<Rightarrow> v),
           todo_emoji =
             (case p_emoji updates of Omitted \<Rightarrow> todo_emoji current | Given v \<Rightarrow> v),
           todo_date =
             (case p_date updates of Omitted \<Rightarrow> todo_date current | Given v \<Rightarrow> v),
           todo_time =
             (case p_time updates of Omitted \<Rightarrow> todo_time current | Given v \<Rightarrow> v),
           todo_removed =
             (case p_removed updates of Omitted \<Rightarrow> todo_removed current | Given v \<Rightarrow> v) \<rparr>"
  shows "Todonna_update env c ident updates =
     (case toTodonnaItem env merged of
        Inl err \<Rightarrow> (Inl err, c\<lparr>calls := calls c @ [GetObject ident (Some 0)]\<rparr>)
      | Inr item \<Rightarrow>
          if store_rejects c ident item
          then (Inl ClientFailure,
                c\<lparr>calls := calls c @ [GetObject ident (Some 0),
                                       StoreObject ''todonna-item'' ident item]\<rparr>)
          else (Inr (),
                c\<lparr>calls := calls c @ [GetObject ident (Some 0),
                                       StoreObject ''todonna-item'' ident item],
                  objects := AList.update ident (WireObject item) (objects c)\<rparr>))"
    and "toTodonnaItem env merged = Inr item \<Longrightarrow>
           todo_item_id item = Some ident \<and>
           todo_item_text item =
             (case p_text updates of Omitted \<Rightarrow> todo_item_text existing | Given v \<Rightarrow> v)"
proof -
  note f = h [THEN conjunct1] and o = h [THEN conjunct2, THEN conjunct1]
    and cur = h [THEN conjunct2, THEN conjunct2, THEN conjunct1]
    and m = h [THEN conjunct2, THEN conjunct2, THEN conjunct2]
  have sp: "spread (fromTodonnaItem env (clock env ident) ident existing) updates ident = merged"
    unfolding m cur by (rule spread_fields)
  show "Todonna_update env c ident updates =
     (case toTodonnaItem env merged of
        Inl err \<Rightarrow> (Inl err, c\<lparr>calls := calls c @ [GetObject ident (Some 0)]\<rparr>)
      | Inr item \<Rightarrow>
          if store_rejects c ident item
          then (Inl ClientFailure,
                c\<lparr>calls := calls c @ [GetObject ident (Some 0),
                                       StoreObject ''todonna-item'' ident item]\<rparr>)
          else (Inr (),
                c\<lparr>calls := calls c @ [GetObject ident (Some 0),
                                       StoreObject ''todonna-item'' ident item],
                  objects := AList.update ident (WireObject item) (objects c)\<rparr>))"
    using f o unfolding sp [symmetric] by (simp add: update_eq storeObject_eq split: sum.splits)
  assume en: "toTodonnaItem env merged = Inr item"
  have "todo_id merged = ident"
    and "todo_text merged =
           (case p_text updates of Omitted \<Rightarrow> todo_item_text existing | Given v \<Rightarrow> v)"
    unfolding m cur by (simp_all add: fromTodonnaItem_def split: partial.splits)
  with toTodonnaItem_fields(1) [OF en] toTodonnaItem_fields(2) [OF en]
  show "todo_item_id item = Some ident \<and>
           todo_item_text item =
             (case p_text updates of Omitted \<Rightarrow> todo_item_text existing | Given v \<Rightarrow> v)"
    by simp
qed

lemma module_update_overlaid:
  assumes h: "fetch_failure c ident = None \<and>
       (map_of (objects c) ident = Some (WireObject body) \<or>
        map_of (objects c) ident = Some (NonObject True) \<and> body = no_properties) \<and>
       fetched = fromStorage ident body \<and>
       overlaid =
         \<lparr> todo_id = ident,
           todo_text =
             (case p_text updates of Omitted \<Rightarrow> todo_text fetched | Given v \<Rightarrow> v),
           todo_completed =
             (case p_completed updates of Omitted \<Rightarrow> todo_completed fetched | Given v \<Rightarrow> v),
           todo_status =
             (case p_status updates of Omitted \<Rightarrow> todo_status fetched | Given v \<Rightarrow> v),
           todo_emoji =
             (case p_emoji updates of Omitted \<Rightarrow> todo_emoji fetched | Given v \<Rightarrow> v),
           todo_date =
             (case p_date updates of Omitted \<Rightarrow> todo_date fetched | Given v \<Rightarrow> v),
           todo_time =
             (case p_time updates of Omitted \<Rightarrow> todo_time fetched | Given v \<Rightarrow> v),
           todo_removed =
             (case p_removed updates of Omitted \<Rightarrow> todo_removed fetched | Given v \<Rightarrow> v) \<rparr>"
  shows "TodonnaModule_update env c ident updates =
     (case toStorage env overlaid of
        Inl err \<Rightarrow> (Inl err, c\<lparr>calls := calls c @ [GetObject ident None]\<rparr>)
      | Inr payload \<Rightarrow>
          if store_rejects c ident payload
          then (Inl ClientFailure,
                c\<lparr>calls := calls c @ [GetObject ident None,
                                       StoreObject ''todonna-item'' ident payload]\<rparr>)
          else (Inr (),
                c\<lparr>calls := calls c @ [GetObject ident None,
                                       StoreObject ''todonna-item'' ident payload],
                  objects := AList.update ident (WireObject payload) (objects c)\<rparr>))"
    and "toStorage env overlaid = Inr payload \<Longrightarrow>
           todo_item_id payload = Some ident \<and>
           todo_item_text payload =
             (case p_text updates of Omitted \<Rightarrow> todo_item_text body | Given v \<Rightarrow> v)"
proof -
  note f = h [THEN conjunct1] and o = h [THEN conjunct2, THEN conjunct1]
    and cur = h [THEN conjunct2, THEN conjunct2, THEN conjunct1]
    and m = h [THEN conjunct2, THEN conjunct2, THEN conjunct2]
  have sp: "spread (fromStorage ident body) updates ident = overlaid"
    unfolding m cur by (rule spread_fields)
  show "TodonnaModule_update env c ident updates =
     (case toStorage env overlaid of
        Inl err \<Rightarrow> (Inl err, c\<lparr>calls := calls c @ [GetObject ident None]\<rparr>)
      | Inr payload \<Rightarrow>
          if store_rejects c ident payload
          then (Inl ClientFailure,
                c\<lparr>calls := calls c @ [GetObject ident None,
                                       StoreObject ''todonna-item'' ident payload]\<rparr>)
          else (Inr (),
                c\<lparr>calls := calls c @ [GetObject ident None,
                                       StoreObject ''todonna-item'' ident payload],
                  objects := AList.update ident (WireObject payload) (objects c)\<rparr>))"
    using f o unfolding sp [symmetric]
    by (auto simp: module_update_eq storeObject_eq split: sum.splits)
  assume en: "toStorage env overlaid = Inr payload"
  have "todo_id overlaid = ident"
    and "todo_text overlaid =
           (case p_text updates of Omitted \<Rightarrow> todo_item_text body | Given v \<Rightarrow> v)"
    unfolding m cur by (simp_all add: fromStorage_def split: partial.splits)
  with toStorage_id [OF en] toStorage_text [OF en]
  show "todo_item_id payload = Some ident \<and>
           todo_item_text payload =
             (case p_text updates of Omitted \<Rightarrow> todo_item_text body | Given v \<Rightarrow> v)"
    by simp
qed

text \<open>
  C3, as stated, fails on the \<^verbatim>\<open>update\<close> of the lightweight module: it reads the
  current record through \<^verbatim>\<open>this.get(id)\<close>, so \<^verbatim>\<open>getObject\<close> is called with no
  \<^verbatim>\<open>maxAge\<close> at all, not with \<^verbatim>\<open>maxAge = 0\<close>.
\<close>

theorem module_update_reads_with_default_age:
  "TodonnaModule_update epoch_env milk_scope ''a'' soft_delete =
     (Inr (),
      milk_scope
        \<lparr> calls := [GetObject ''a'' None,
                    StoreObject ''todonna-item'' ''a''
                      ((plain_item (Some ''a'') (Some ''milk''))
                         \<lparr> todo_item_status := Some Pending, item_removed := Some True \<rparr>)],
          objects := [(''a'', WireObject ((plain_item (Some ''a'') (Some ''milk''))
                         \<lparr> todo_item_status := Some Pending, item_removed := Some True \<rparr>))] \<rparr>)"
  by (simp add: module_update_eq storeObject_eq milk_scope_def scope_of_def plain_item_def
      fromStorage_def spread_def soft_delete_def no_updates_def toStorage_def)

text \<open>
  C3, amended. The \<^verbatim>\<open>update\<close> of the main module first calls
  \<^verbatim>\<open>getObject(id, 0)\<close>. When that call is rejected, \<^verbatim>\<open>update\<close> rejects with the
  same error; when it gives nothing, or a body that is not an object, \<^verbatim>\<open>update\<close>
  fails with the not-found error. In both cases nothing is written, and on every error
  the objects of the scope are unchanged. When the call gives an object, \<^verbatim>\<open>update\<close>
  decodes it and merges the partial onto the decoded record: a key that the partial has,
  also with the value \<^verbatim>\<open>undefined\<close>, takes the value of the partial, every other key
  keeps the value of the decoded record, and the id is the id passed in, whatever the
  partial holds. The merged record is encoded by \<^verbatim>\<open>toTodonnaItem\<close>. When that throws,
  \<^verbatim>\<open>update\<close> rejects and nothing is written; otherwise the encoding is written at
  the same key, and \<^verbatim>\<open>update\<close> rejects with the backend's error when the backend
  rejects the write. The \<^verbatim>\<open>update\<close> of the lightweight module does the same, with
  these differences: its read is \<^verbatim>\<open>this.get(id)\<close>, that is
  \<^verbatim>\<open>getObject(id, undefined)\<close>; a rejection of the not-found family counts as no
  record; only a falsy body counts as no record, while a truthy body that is not an
  object is merged as an object without properties; its not-found error does not name
  the id; and its codec is \<^verbatim>\<open>fromStorage\<close> and \<^verbatim>\<open>toStorage\<close>.
\<close>

theorem update_reads_then_merges:
  "(\<exists>rest. calls (snd (Todonna_update env c ident updates)) =
             calls c @ GetObject ident (Some 0) # rest)
   \<and> (fetch_failure c ident = Some e \<longrightarrow>
        Todonna_update env c ident updates =
          (Inl e, c\<lparr>calls := calls c @ [GetObject ident (Some 0)]\<rparr>))
   \<and> (fetch_failure c ident = None \<and>
       (\<forall>existing. map_of (objects c) ident \<noteq> Some (WireObject existing)) \<longrightarrow>
        Todonna_update env c ident updates =
          (Inl (NotFound ident), c\<lparr>calls := calls c @ [GetObject ident (Some 0)]\<rparr>))
   \<and> (fst (Todonna_update env c ident updates) = Inl e \<longrightarrow>
        objects (snd (Todonna_update env c ident updates)) = objects c)
   \<and> (fetch_failure c ident = None \<and>
       map_of (objects c) ident = Some (WireObject existing) \<and>
       current = fromTodonnaItem env (clock env ident) ident existing \<and>
       merged =
         \<lparr> todo_id = ident,
           todo_text =
             (case p_text updates of Omitted \<Rightarrow> todo_text current | Given v \<Rightarrow> v),
           todo_completed =
             (case p_completed updates of Omitted \<Rightarrow> todo_completed current | Given v \<Rightarrow> v),
           todo_status =
             (case p_status updates of Omitted \<Rightarrow> todo_status current | Given v \<Rightarrow> v),
           todo_emoji =
             (case p_emoji updates of Omitted \<Rightarrow> todo_emoji current | Given v \<Rightarrow> v),
           todo_date =
             (case p_date updates of Omitted \<Rightarrow> todo_date current | Given v \<Rightarrow> v),
           todo_time =
             (case p_time updates of Omitted \<Rightarrow> todo_time current | Given v \<Rightarrow> v),
           todo_removed =
             (case p_removed updates of Omitted \<Rightarrow> todo_removed current | Given v \<Rightarrow> v) \<rparr> \<longrightarrow>
        (toTodonnaItem env merged = Inl err \<longrightarrow>
           Todonna_update env c ident updates =
             (Inl err, c\<lparr>calls := calls c @ [GetObject ident (Some 0)]\<rparr>)) \<and>
        (toTodonnaItem env merged = Inr item \<and> store_rejects c ident item \<longrightarrow>
           Todonna_update env c ident updates =
             (Inl ClientFailure,
              c\<lparr>calls := calls c @ [GetObject ident (Some 0),
                                          StoreObject ''todonna-item'' ident item]\<rparr>)) \<and>
        (toTodonnaItem env merged = Inr item \<and> \<not> store_rejects c ident item \<longrightarrow>
           Todonna_update env c ident updates =
             (Inr (),
              c\<lparr>calls := calls c @ [GetObject ident (Some 0),
                                          StoreObject ''todonna-item'' ident item],
                objects := AList.update ident (WireObject item) (objects c)\<rparr>) \<and>
           map_of (objects (snd (Todonna_update env c ident updates))) ident =
             Some (WireObject item) \<and>
           todo_item_id item = Some ident \<and>
           todo_item_text item =
             (case p_text updates of Omitted \<Rightarrow> todo_item_text existing | Given v \<Rightarrow> v)))
   \<and> (\<exists>rest. calls (snd (TodonnaModule_update env c ident updates)) =
             calls c @ GetObject ident None # rest)
   \<and> (fetch_failure c ident = Some e \<longrightarrow>
        TodonnaModule_update env c ident updates =
          (Inl (if e = ClientNotFound then NotFound [] else e),
           c\<lparr>calls := calls c @ [GetObject ident None]\<rparr>))
   \<and> (fetch_failure c ident = None \<and>
       (map_of (objects c) ident = None \<or> map_of (objects c) ident = Some (NonObject False)) \<longrightarrow>
        TodonnaModule_update env c ident updates =
          (Inl (NotFound []), c\<lparr>calls := calls c @ [GetObject ident None]\<rparr>))
   \<and> (fst (TodonnaModule_update env c ident updates) = Inl e \<longrightarrow>
        objects (snd (TodonnaModule_update env c ident updates)) = objects c)
   \<and> (fetch_failure c ident = None \<and>
       (map_of (objects c) ident = Some (WireObject body) \<or>
        map_of (objects c) ident = Some (NonObject True) \<and> body = no_properties) \<and>
       fetched = fromStorage ident body \<and>
       overlaid =
         \<lparr> todo_id = ident,
           todo_text =
             (case p_text updates of Omitted \<Rightarrow> todo_text fetched | Given v \<Rightarrow> v),
           todo_completed =
             (case p_completed updates of Omitted \<Rightarrow> todo_completed fetched | Given v \<Rightarrow> v),
           todo_status =
             (case p_status updates of Omitted \<Rightarrow> todo_status fetched | Given v \<Rightarrow> v),
           todo_emoji =
             (case p_emoji updates of Omitted \<Rightarrow> todo_emoji fetched | Given v \<Rightarrow> v),
           todo_date =
             (case p_date updates of Omitted \<Rightarrow> todo_date fetched | Given v \<Rightarrow> v),
           todo_time =
             (case p_time updates of Omitted \<Rightarrow> todo_time fetched | Given v \<Rightarrow> v),
           todo_removed =
             (case p_removed updates of Omitted \<Rightarrow> todo_removed fetched | Given v \<Rightarrow> v) \<rparr> \<longrightarrow>
        (toStorage env overlaid = Inl err \<longrightarrow>
           TodonnaModule_update env c ident updates =
             (Inl err, c\<lparr>calls := calls c @ [GetObject ident None]\<rparr>)) \<and>
        (toStorage env overlaid = Inr payload \<and> store_rejects c ident payload \<longrightarrow>
           TodonnaModule_update env c ident updates =
             (Inl ClientFailure,
              c\<lparr>calls := calls c @ [GetObject ident None,
                                          StoreObject ''todonna-item'' ident payload]\<rparr>)) \<and>
        (toStorage env overlaid = Inr payload \<and> \<not> store_rejects c ident payload \<longrightarrow>
           TodonnaModule_update env c ident updates =
             (Inr (),
              c\<lparr>calls := calls c @ [GetObject ident None,
                                          StoreObject ''todonna-item'' ident payload],
                objects := AList.update ident (WireObject payload) (objects c)\<rparr>) \<and>
           map_of (objects (snd (TodonnaModule_update env c ident updates))) ident =
             Some (WireObject payload) \<and>
           todo_item_id payload = Some ident \<and>
           todo_item_text payload =
             (case p_text updates of Omitted \<Rightarrow> todo_item_text body | Given v \<Rightarrow> v)))"
proof (intro conjI impI, goal_cases)
  case 1
  show ?case by (rule update_first_call)
next
  case 2
  then show ?case unfolding update_eq by simp
next
  case 3
  then show ?case unfolding update_eq by (auto split: option.splits stored.splits)
next
  case 4
  then show ?case by (rule update_error_keeps_objects)
next
  case 5
  show ?case
    unfolding update_overlaid(1) [OF 5(1)] using 5(2) by simp
next
  case 6
  show ?case
    unfolding update_overlaid(1) [OF 6(1)] using 6(2) by simp
next
  case 7
  show ?case
    unfolding update_overlaid(1) [OF 7(1)] using 7(2) by simp
next
  case 8
  show ?case
    unfolding update_overlaid(1) [OF 8(1)] using 8(2) by (simp add: update_conv')
next
  case 9
  from update_overlaid(2) [OF 9(1)] 9(2) show ?case by blast
next
  case 10
  from update_overlaid(2) [OF 10(1)] 10(2) show ?case by blast
next
  case 11
  show ?case by (rule module_update_first_call)
next
  case 12
  then show ?case unfolding module_update_eq by (simp add: isNotFoundError_def)
next
  case 13
  then show ?case unfolding module_update_eq by auto
next
  case 14
  then show ?case by (rule module_update_error_keeps_objects)
next
  case 15
  show ?case
    unfolding module_update_overlaid(1) [OF 15(1)] using 15(2) by simp
next
  case 16
  show ?case
    unfolding module_update_overlaid(1) [OF 16(1)] using 16(2) by simp
next
  case 17
  show ?case
    unfolding module_update_overlaid(1) [OF 17(1)] using 17(2) by simp
next
  case 18
  show ?case
    unfolding module_update_overlaid(1) [OF 18(1)] using 18(2) by (simp add: update_conv')
next
  case 19
  from module_update_overlaid(2) [OF 19(1)] 19(2) show ?case by blast
next
  case 20
  from module_update_overlaid(2) [OF 20(1)] 20(2) show ?case by blast
qed

theorem update_reads_then_merges_witness:
  "Todonna_update epoch_env milk_scope ''a'' oat_update =
     (Inr (),
      milk_scope\<lparr>calls := [GetObject ''a'' (Some 0), StoreObject ''todonna-item'' ''a'' oat_item],
        objects := [(''a'', WireObject oat_item)]\<rparr>) \<and>
   Todonna_update epoch_env milk_scope ''zz'' oat_update =
     (Inl (NotFound ''zz''), milk_scope\<lparr>calls := [GetObject ''zz'' (Some 0)]\<rparr>) \<and>
   Todonna_update epoch_env flaky_scope ''a'' oat_update =
     (Inl ClientFailure, flaky_scope\<lparr>calls := [GetObject ''a'' (Some 0)]\<rparr>) \<and>
   Todonna_update epoch_env milk_scope ''a'' (no_updates\<lparr>p_date := Given (Some (DateObj None))\<rparr>) =
     (Inl RangeError, milk_scope\<lparr>calls := [GetObject ''a'' (Some 0)]\<rparr>) \<and>
   Todonna_update epoch_env (milk_scope\<lparr>store_rejects := (\<lambda>key item. True)\<rparr>) ''a'' oat_update =
     (Inl ClientFailure,
      (milk_scope\<lparr>store_rejects := (\<lambda>key item. True)\<rparr>)\<lparr>calls := [GetObject ''a'' (Some 0), StoreObject ''todonna-item'' ''a'' oat_item]\<rparr>) \<and>
   TodonnaModule_update epoch_env milk_scope ''a'' oat_update =
     (Inr (),
      milk_scope\<lparr>calls := [GetObject ''a'' None, StoreObject ''todonna-item'' ''a'' oat_payload],
        objects := [(''a'', WireObject oat_payload)]\<rparr>) \<and>
   TodonnaModule_update epoch_env milk_scope ''zz'' oat_update =
     (Inl (NotFound []), milk_scope\<lparr>calls := [GetObject ''zz'' None]\<rparr>) \<and>
   TodonnaModule_update epoch_env (milk_scope\<lparr>fetch_failure := (\<lambda>key. Some ClientNotFound)\<rparr>) ''a'' oat_update =
     (Inl (NotFound []), (milk_scope\<lparr>fetch_failure := (\<lambda>key. Some ClientNotFound)\<rparr>)\<lparr>calls := [GetObject ''a'' None]\<rparr>) \<and>
   TodonnaModule_update epoch_env flaky_scope ''a'' oat_update =
     (Inl ClientFailure, flaky_scope\<lparr>calls := [GetObject ''a'' None]\<rparr>) \<and>
   TodonnaModule_update epoch_env (scope_of [(''a'', NonObject True)]) ''a'' oat_update =
     (Inr (),
      (scope_of [(''a'', NonObject True)])\<lparr>calls := [GetObject ''a'' None, StoreObject ''todonna-item'' ''a'' oat_payload],
        objects := [(''a'', WireObject oat_payload)]\<rparr>)"
proof -
  let ?cur_m1 = "fromTodonnaItem epoch_env (clock epoch_env ''a'') ''a'' (plain_item (Some ''a'') (Some ''milk''))"
  let ?m_m1 =
        "\<lparr> todo_id = ''a'',
           todo_text =
             (case p_text oat_update of Omitted \<Rightarrow> todo_text ?cur_m1 | Given v \<Rightarrow> v),
           todo_completed =
             (case p_completed oat_update of Omitted \<Rightarrow> todo_completed ?cur_m1 | Given v \<Rightarrow> v),
           todo_status =
             (case p_status oat_update of Omitted \<Rightarrow> todo_status ?cur_m1 | Given v \<Rightarrow> v),
           todo_emoji =
             (case p_emoji oat_update of Omitted \<Rightarrow> todo_emoji ?cur_m1 | Given v \<Rightarrow> v),
           todo_date =
             (case p_date oat_update of Omitted \<Rightarrow> todo_date ?cur_m1 | Given v \<Rightarrow> v),
           todo_time =
             (case p_time oat_update of Omitted \<Rightarrow> todo_time ?cur_m1 | Given v \<Rightarrow> v),
           todo_removed =
             (case p_removed oat_update of Omitted \<Rightarrow> todo_removed ?cur_m1 | Given v \<Rightarrow> v) \<rparr>"
  have h_m1: "fetch_failure milk_scope ''a'' = None \<and>
      map_of (objects milk_scope) ''a'' = Some (WireObject (plain_item (Some ''a'') (Some ''milk''))) \<and>
      ?cur_m1 = fromTodonnaItem epoch_env (clock epoch_env ''a'') ''a'' (plain_item (Some ''a'') (Some ''milk'')) \<and>
      ?m_m1 =
        \<lparr> todo_id = ''a'',
           todo_text =
             (case p_text oat_update of Omitted \<Rightarrow> todo_text ?cur_m1 | Given v \<Rightarrow> v),
           todo_completed =
             (case p_completed oat_update of Omitted \<Rightarrow> todo_completed ?cur_m1 | Given v \<Rightarrow> v),
           todo_status =
             (case p_status oat_update of Omitted \<Rightarrow> todo_status ?cur_m1 | Given v \<Rightarrow> v),
           todo_emoji =
             (case p_emoji oat_update of Omitted \<Rightarrow> todo_emoji ?cur_m1 | Given v \<Rightarrow> v),
           todo_date =
             (case p_date oat_update of Omitted \<Rightarrow> todo_date ?cur_m1 | Given v \<Rightarrow> v),
           todo_time =
             (case p_time oat_update of Omitted \<Rightarrow> todo_time ?cur_m1 | Given v \<Rightarrow> v),
           todo_removed =
             (case p_removed oat_update of Omitted \<Rightarrow> todo_removed ?cur_m1 | Given v \<Rightarrow> v) \<rparr>"
    by (simp add: milk_scope_def scope_of_def flaky_scope_def textless_scope_def)
  note t_m1 = update_reads_then_merges [where env = epoch_env and c = "milk_scope" and ident = "''a''" and updates = "oat_update" and existing = "plain_item (Some ''a'') (Some ''milk'')" and current = ?cur_m1 and merged = ?m_m1 and item = oat_item, THEN conjunct2, THEN conjunct2, THEN conjunct2, THEN conjunct2, THEN conjunct1, THEN mp, OF h_m1]
  have e_m1: "toTodonnaItem epoch_env ?m_m1 = Inr oat_item \<and> \<not> store_rejects milk_scope ''a'' oat_item"
    by (simp add: plain_item_def fromTodonnaItem_def toTodonnaItem_def fromStorage_def toStorage_def wire_status_def wire_completed_def epoch_env_def oat_update_def oat_item_def oat_payload_def no_updates_def no_properties_def milk_scope_def scope_of_def flaky_scope_def textless_scope_def)
  from t_m1 [THEN conjunct2, THEN conjunct2, THEN mp, OF e_m1]
  have m1: "Todonna_update epoch_env milk_scope ''a'' oat_update =
     (Inr (),
      milk_scope\<lparr>calls := calls milk_scope @ [GetObject ''a'' (Some 0), StoreObject ''todonna-item'' ''a'' oat_item],
        objects := AList.update ''a'' (WireObject oat_item) (objects milk_scope)\<rparr>)"
    by (rule conjunct1)
  have h_m2: "fetch_failure milk_scope ''zz'' = None \<and>
      (\<forall>existing. map_of (objects milk_scope) ''zz'' \<noteq> Some (WireObject existing))"
    by (simp add: milk_scope_def scope_of_def flaky_scope_def textless_scope_def)
  note t_m2 = update_reads_then_merges [where env = epoch_env and c = "milk_scope" and ident = "''zz''" and updates = "oat_update", THEN conjunct2, THEN conjunct2, THEN conjunct1]
  from t_m2 [THEN mp, OF h_m2]
  have m2: "Todonna_update epoch_env milk_scope ''zz'' oat_update =
     (Inl (NotFound ''zz''), milk_scope\<lparr>calls := calls milk_scope @ [GetObject ''zz'' (Some 0)]\<rparr>)"
    by simp
  have h_m3: "fetch_failure flaky_scope ''a'' = Some ClientFailure"
    by (simp add: milk_scope_def scope_of_def flaky_scope_def textless_scope_def)
  note t_m3 = update_reads_then_merges [where env = epoch_env and c = "flaky_scope" and ident = "''a''" and updates = "oat_update" and e = ClientFailure, THEN conjunct2, THEN conjunct1]
  from t_m3 [THEN mp, OF h_m3]
  have m3: "Todonna_update epoch_env flaky_scope ''a'' oat_update =
     (Inl ClientFailure, flaky_scope\<lparr>calls := calls flaky_scope @ [GetObject ''a'' (Some 0)]\<rparr>)"
    by simp
  let ?cur_m4 = "fromTodonnaItem epoch_env (clock epoch_env ''a'') ''a'' (plain_item (Some ''a'') (Some ''milk''))"
  let ?m_m4 =
        "\<lparr> todo_id = ''a'',
           todo_text =
             (case p_text (no_updates\<lparr>p_date := Given (Some (DateObj None))\<rparr>) of Omitted \<Rightarrow> todo_text ?cur_m4 | Given v \<Rightarrow> v),
           todo_completed =
             (case p_completed (no_updates\<lparr>p_date := Given (Some (DateObj None))\<rparr>) of Omitted \<Rightarrow> todo_completed ?cur_m4 | Given v \<Rightarrow> v),
           todo_status =
             (case p_status (no_updates\<lparr>p_date := Given (Some (DateObj None))\<rparr>) of Omitted \<Rightarrow> todo_status ?cur_m4 | Given v \<Rightarrow> v),
           todo_emoji =
             (case p_emoji (no_updates\<lparr>p_date := Given (Some (DateObj None))\<rparr>) of Omitted \<Rightarrow> todo_emoji ?cur_m4 | Given v \<Rightarrow> v),
           todo_date =
             (case p_date (no_updates\<lparr>p_date := Given (Some (DateObj None))\<rparr>) of Omitted \<Rightarrow> todo_date ?cur_m4 | Given v \<Rightarrow> v),
           todo_time =
             (case p_time (no_updates\<lparr>p_date := Given (Some (DateObj None))\<rparr>) of Omitted \<Rightarrow> todo_time ?cur_m4 | Given v \<Rightarrow> v),
           todo_removed =
             (case p_removed (no_updates\<lparr>p_date := Given (Some (DateObj None))\<rparr>) of Omitted \<Rightarrow> todo_removed ?cur_m4 | Given v \<Rightarrow> v) \<rparr>"
  have h_m4: "fetch_failure milk_scope ''a'' = None \<and>
      map_of (objects milk_scope) ''a'' = Some (WireObject (plain_item (Some ''a'') (Some ''milk''))) \<and>
      ?cur_m4 = fromTodonnaItem epoch_env (clock epoch_env ''a'') ''a'' (plain_item (Some ''a'') (Some ''milk'')) \<and>
      ?m_m4 =
        \<lparr> todo_id = ''a'',
           todo_text =
             (case p_text (no_updates\<lparr>p_date := Given (Some (DateObj None))\<rparr>) of Omitted \<Rightarrow> todo_text ?cur_m4 | Given v \<Rightarrow> v),
           todo_completed =
             (case p_completed (no_updates\<lparr>p_date := Given (Some (DateObj None))\<rparr>) of Omitted \<Rightarrow> todo_completed ?cur_m4 | Given v \<Rightarrow> v),
           todo_status =
             (case p_status (no_updates\<lparr>p_date := Given (Some (DateObj None))\<rparr>) of Omitted \<Rightarrow> todo_status ?cur_m4 | Given v \<Rightarrow> v),
           todo_emoji =
             (case p_emoji (no_updates\<lparr>p_date := Given (Some (DateObj None))\<rparr>) of Omitted \<Rightarrow> todo_emoji ?cur_m4 | Given v \<Rightarrow> v),
           todo_date =
             (case p_date (no_updates\<lparr>p_date := Given (Some (DateObj None))\<rparr>) of Omitted \<Rightarrow> todo_date ?cur_m4 | Given v \<Rightarrow> v),
           todo_time =
             (case p_time (no_updates\<lparr>p_date := Given (Some (DateObj None))\<rparr>) of Omitted \<Rightarrow> todo_time ?cur_m4 | Given v \<Rightarrow> v),
           todo_removed =
             (case p_removed (no_updates\<lparr>p_date := Given (Some (DateObj None))\<rparr>) of Omitted \<Rightarrow> todo_removed ?cur_m4 | Given v \<Rightarrow> v) \<rparr>"
    by (simp add: milk_scope_def scope_of_def flaky_scope_def textless_scope_def)
  note t_m4 = update_reads_then_merges [where env = epoch_env and c = "milk_scope" and ident = "''a''" and updates = "no_updates\<lparr>p_date := Given (Some (DateObj None))\<rparr>" and existing = "plain_item (Some ''a'') (Some ''milk'')" and current = ?cur_m4 and merged = ?m_m4 and err = RangeError, THEN conjunct2, THEN conjunct2, THEN conjunct2, THEN conjunct2, THEN conjunct1, THEN mp, OF h_m4]
  have e_m4: "toTodonnaItem epoch_env ?m_m4 = Inl RangeError"
    by (simp add: plain_item_def fromTodonnaItem_def toTodonnaItem_def fromStorage_def toStorage_def wire_status_def wire_completed_def epoch_env_def oat_update_def oat_item_def oat_payload_def no_updates_def no_properties_def)
  from t_m4 [THEN conjunct1, THEN mp, OF e_m4]
  have m4: "Todonna_update epoch_env milk_scope ''a'' (no_updates\<lparr>p_date := Given (Some (DateObj None))\<rparr>) =
     (Inl RangeError, milk_scope\<lparr>calls := calls milk_scope @ [GetObject ''a'' (Some 0)]\<rparr>)" .
  let ?cur_m5 = "fromTodonnaItem epoch_env (clock epoch_env ''a'') ''a'' (plain_item (Some ''a'') (Some ''milk''))"
  let ?m_m5 =
        "\<lparr> todo_id = ''a'',
           todo_text =
             (case p_text oat_update of Omitted \<Rightarrow> todo_text ?cur_m5 | Given v \<Rightarrow> v),
           todo_completed =
             (case p_completed oat_update of Omitted \<Rightarrow> todo_completed ?cur_m5 | Given v \<Rightarrow> v),
           todo_status =
             (case p_status oat_update of Omitted \<Rightarrow> todo_status ?cur_m5 | Given v \<Rightarrow> v),
           todo_emoji =
             (case p_emoji oat_update of Omitted \<Rightarrow> todo_emoji ?cur_m5 | Given v \<Rightarrow> v),
           todo_date =
             (case p_date oat_update of Omitted \<Rightarrow> todo_date ?cur_m5 | Given v \<Rightarrow> v),
           todo_time =
             (case p_time oat_update of Omitted \<Rightarrow> todo_time ?cur_m5 | Given v \<Rightarrow> v),
           todo_removed =
             (case p_removed oat_update of Omitted \<Rightarrow> todo_removed ?cur_m5 | Given v \<Rightarrow> v) \<rparr>"
  have h_m5: "fetch_failure (milk_scope\<lparr>store_rejects := (\<lambda>key item. True)\<rparr>) ''a'' = None \<and>
      map_of (objects (milk_scope\<lparr>store_rejects := (\<lambda>key item. True)\<rparr>)) ''a'' = Some (WireObject (plain_item (Some ''a'') (Some ''milk''))) \<and>
      ?cur_m5 = fromTodonnaItem epoch_env (clock epoch_env ''a'') ''a'' (plain_item (Some ''a'') (Some ''milk'')) \<and>
      ?m_m5 =
        \<lparr> todo_id = ''a'',
           todo_text =
             (case p_text oat_update of Omitted \<Rightarrow> todo_text ?cur_m5 | Given v \<Rightarrow> v),
           todo_completed =
             (case p_completed oat_update of Omitted \<Rightarrow> todo_completed ?cur_m5 | Given v \<Rightarrow> v),
           todo_status =
             (case p_status oat_update of Omitted \<Rightarrow> todo_status ?cur_m5 | Given v \<Rightarrow> v),
           todo_emoji =
             (case p_emoji oat_update of Omitted \<Rightarrow> todo_emoji ?cur_m5 | Given v \<Rightarrow> v),
           todo_date =
             (case p_date oat_update of Omitted \<Rightarrow> todo_date ?cur_m5 | Given v \<Rightarrow> v),
           todo_time =
             (case p_time oat_update of Omitted \<Rightarrow> todo_time ?cur_m5 | Given v \<Rightarrow> v),
           todo_removed =
             (case p_removed oat_update of Omitted \<Rightarrow> todo_removed ?cur_m5 | Given v \<Rightarrow> v) \<rparr>"
    by (simp add: milk_scope_def scope_of_def flaky_scope_def textless_scope_def)
  note t_m5 = update_reads_then_merges [where env = epoch_env and c = "milk_scope\<lparr>store_rejects := (\<lambda>key item. True)\<rparr>" and ident = "''a''" and updates = "oat_update" and existing = "plain_item (Some ''a'') (Some ''milk'')" and current = ?cur_m5 and merged = ?m_m5 and item = oat_item, THEN conjunct2, THEN conjunct2, THEN conjunct2, THEN conjunct2, THEN conjunct1, THEN mp, OF h_m5]
  have e_m5: "toTodonnaItem epoch_env ?m_m5 = Inr oat_item \<and> store_rejects (milk_scope\<lparr>store_rejects := (\<lambda>key item. True)\<rparr>) ''a'' oat_item"
    by (simp add: plain_item_def fromTodonnaItem_def toTodonnaItem_def fromStorage_def toStorage_def wire_status_def wire_completed_def epoch_env_def oat_update_def oat_item_def oat_payload_def no_updates_def no_properties_def milk_scope_def scope_of_def flaky_scope_def textless_scope_def)
  from t_m5 [THEN conjunct2, THEN conjunct1, THEN mp, OF e_m5]
  have m5: "Todonna_update epoch_env (milk_scope\<lparr>store_rejects := (\<lambda>key item. True)\<rparr>) ''a'' oat_update =
     (Inl ClientFailure,
      (milk_scope\<lparr>store_rejects := (\<lambda>key item. True)\<rparr>)\<lparr>calls := calls (milk_scope\<lparr>store_rejects := (\<lambda>key item. True)\<rparr>) @ [GetObject ''a'' (Some 0), StoreObject ''todonna-item'' ''a'' oat_item]\<rparr>)" .
  let ?cur_l1 = "fromStorage ''a'' (plain_item (Some ''a'') (Some ''milk''))"
  let ?m_l1 =
        "\<lparr> todo_id = ''a'',
           todo_text =
             (case p_text oat_update of Omitted \<Rightarrow> todo_text ?cur_l1 | Given v \<Rightarrow> v),
           todo_completed =
             (case p_completed oat_update of Omitted \<Rightarrow> todo_completed ?cur_l1 | Given v \<Rightarrow> v),
           todo_status =
             (case p_status oat_update of Omitted \<Rightarrow> todo_status ?cur_l1 | Given v \<Rightarrow> v),
           todo_emoji =
             (case p_emoji oat_update of Omitted \<Rightarrow> todo_emoji ?cur_l1 | Given v \<Rightarrow> v),
           todo_date =
             (case p_date oat_update of Omitted \<Rightarrow> todo_date ?cur_l1 | Given v \<Rightarrow> v),
           todo_time =
             (case p_time oat_update of Omitted \<Rightarrow> todo_time ?cur_l1 | Given v \<Rightarrow> v),
           todo_removed =
             (case p_removed oat_update of Omitted \<Rightarrow> todo_removed ?cur_l1 | Given v \<Rightarrow> v) \<rparr>"
  have h_l1: "fetch_failure milk_scope ''a'' = None \<and>
      (map_of (objects milk_scope) ''a'' = Some (WireObject (plain_item (Some ''a'') (Some ''milk''))) \<or>
       map_of (objects milk_scope) ''a'' = Some (NonObject True) \<and> plain_item (Some ''a'') (Some ''milk'') = no_properties) \<and>
      ?cur_l1 = fromStorage ''a'' (plain_item (Some ''a'') (Some ''milk'')) \<and>
      ?m_l1 =
        \<lparr> todo_id = ''a'',
           todo_text =
             (case p_text oat_update of Omitted \<Rightarrow> todo_text ?cur_l1 | Given v \<Rightarrow> v),
           todo_completed =
             (case p_completed oat_update of Omitted \<Rightarrow> todo_completed ?cur_l1 | Given v \<Rightarrow> v),
           todo_status =
             (case p_status oat_update of Omitted \<Rightarrow> todo_status ?cur_l1 | Given v \<Rightarrow> v),
           todo_emoji =
             (case p_emoji oat_update of Omitted \<Rightarrow> todo_emoji ?cur_l1 | Given v \<Rightarrow> v),
           todo_date =
             (case p_date oat_update of Omitted \<Rightarrow> todo_date ?cur_l1 | Given v \<Rightarrow> v),
           todo_time =
             (case p_time oat_update of Omitted \<Rightarrow> todo_time ?cur_l1 | Given v \<Rightarrow> v),
           todo_removed =
             (case p_removed oat_update of Omitted \<Rightarrow> todo_removed ?cur_l1 | Given v \<Rightarrow> v) \<rparr>"
    by (simp add: milk_scope_def scope_of_def flaky_scope_def textless_scope_def)
  note t_l1 = update_reads_then_merges [where env = epoch_env and c = "milk_scope" and ident = "''a''" and updates = "oat_update" and body = "plain_item (Some ''a'') (Some ''milk'')" and fetched = ?cur_l1 and overlaid = ?m_l1 and payload = oat_payload, THEN conjunct2, THEN conjunct2, THEN conjunct2, THEN conjunct2, THEN conjunct2, THEN conjunct2, THEN conjunct2, THEN conjunct2, THEN conjunct2, THEN mp, OF h_l1]
  have e_l1: "toStorage epoch_env ?m_l1 = Inr oat_payload \<and> \<not> store_rejects milk_scope ''a'' oat_payload"
    by (simp add: plain_item_def fromTodonnaItem_def toTodonnaItem_def fromStorage_def toStorage_def wire_status_def wire_completed_def epoch_env_def oat_update_def oat_item_def oat_payload_def no_updates_def no_properties_def milk_scope_def scope_of_def flaky_scope_def textless_scope_def)
  from t_l1 [THEN conjunct2, THEN conjunct2, THEN mp, OF e_l1]
  have l1: "TodonnaModule_update epoch_env milk_scope ''a'' oat_update =
     (Inr (),
      milk_scope\<lparr>calls := calls milk_scope @ [GetObject ''a'' None, StoreObject ''todonna-item'' ''a'' oat_payload],
        objects := AList.update ''a'' (WireObject oat_payload) (objects milk_scope)\<rparr>)"
    by (rule conjunct1)
  have h_l2: "fetch_failure milk_scope ''zz'' = None \<and>
      (map_of (objects milk_scope) ''zz'' = None \<or>
       map_of (objects milk_scope) ''zz'' = Some (NonObject False))"
    by (simp add: milk_scope_def scope_of_def flaky_scope_def textless_scope_def)
  note t_l2 = update_reads_then_merges [where env = epoch_env and c = "milk_scope" and ident = "''zz''" and updates = "oat_update", THEN conjunct2, THEN conjunct2, THEN conjunct2, THEN conjunct2, THEN conjunct2, THEN conjunct2, THEN conjunct2, THEN conjunct1]
  from t_l2 [THEN mp, OF h_l2]
  have l2: "TodonnaModule_update epoch_env milk_scope ''zz'' oat_update =
     (Inl (NotFound []), milk_scope\<lparr>calls := calls milk_scope @ [GetObject ''zz'' None]\<rparr>)"
    by simp
  have h_l3: "fetch_failure (milk_scope\<lparr>fetch_failure := (\<lambda>key. Some ClientNotFound)\<rparr>) ''a'' = Some ClientNotFound"
    by (simp add: milk_scope_def scope_of_def flaky_scope_def textless_scope_def)
  note t_l3 = update_reads_then_merges [where env = epoch_env and c = "milk_scope\<lparr>fetch_failure := (\<lambda>key. Some ClientNotFound)\<rparr>" and ident = "''a''" and updates = "oat_update" and e = ClientNotFound, THEN conjunct2, THEN conjunct2, THEN conjunct2, THEN conjunct2, THEN conjunct2, THEN conjunct2, THEN conjunct1]
  from t_l3 [THEN mp, OF h_l3]
  have l3: "TodonnaModule_update epoch_env (milk_scope\<lparr>fetch_failure := (\<lambda>key. Some ClientNotFound)\<rparr>) ''a'' oat_update =
     (Inl (if ClientNotFound = ClientNotFound then NotFound [] else ClientNotFound), (milk_scope\<lparr>fetch_failure := (\<lambda>key. Some ClientNotFound)\<rparr>)\<lparr>calls := calls (milk_scope\<lparr>fetch_failure := (\<lambda>key. Some ClientNotFound)\<rparr>) @ [GetObject ''a'' None]\<rparr>)"
    by simp
  have h_l4: "fetch_failure flaky_scope ''a'' = Some ClientFailure"
    by (simp add: milk_scope_def scope_of_def flaky_scope_def textless_scope_def)
  note t_l4 = update_reads_then_merges [where env = epoch_env and c = "flaky_scope" and ident = "''a''" and updates = "oat_update" and e = ClientFailure, THEN conjunct2, THEN conjunct2, THEN conjunct2, THEN conjunct2, THEN conjunct2, THEN conjunct2, THEN conjunct1]
  from t_l4 [THEN mp, OF h_l4]
  have l4: "TodonnaModule_update epoch_env flaky_scope ''a'' oat_update =
     (Inl (if ClientFailure = ClientNotFound then NotFound [] else ClientFailure), flaky_scope\<lparr>calls := calls flaky_scope @ [GetObject ''a'' None]\<rparr>)"
    by simp
  let ?cur_l5 = "fromStorage ''a'' no_properties"
  let ?m_l5 =
        "\<lparr> todo_id = ''a'',
           todo_text =
             (case p_text oat_update of Omitted \<Rightarrow> todo_text ?cur_l5 | Given v \<Rightarrow> v),
           todo_completed =
             (case p_completed oat_update of Omitted \<Rightarrow> todo_completed ?cur_l5 | Given v \<Rightarrow> v),
           todo_status =
             (case p_status oat_update of Omitted \<Rightarrow> todo_status ?cur_l5 | Given v \<Rightarrow> v),
           todo_emoji =
             (case p_emoji oat_update of Omitted \<Rightarrow> todo_emoji ?cur_l5 | Given v \<Rightarrow> v),
           todo_date =
             (case p_date oat_update of Omitted \<Rightarrow> todo_date ?cur_l5 | Given v \<Rightarrow> v),
           todo_time =
             (case p_time oat_update of Omitted \<Rightarrow> todo_time ?cur_l5 | Given v \<Rightarrow> v),
           todo_removed =
             (case p_removed oat_update of Omitted \<Rightarrow> todo_removed ?cur_l5 | Given v \<Rightarrow> v) \<rparr>"
  have h_l5: "fetch_failure (scope_of [(''a'', NonObject True)]) ''a'' = None \<and>
      (map_of (objects (scope_of [(''a'', NonObject True)])) ''a'' = Some (WireObject no_properties) \<or>
       map_of (objects (scope_of [(''a'', NonObject True)])) ''a'' = Some (NonObject True) \<and> no_properties = no_properties) \<and>
      ?cur_l5 = fromStorage ''a'' no_properties \<and>
      ?m_l5 =
        \<lparr> todo_id = ''a'',
           todo_text =
             (case p_text oat_update of Omitted \<Rightarrow> todo_text ?cur_l5 | Given v \<Rightarrow> v),
           todo_completed =
             (case p_completed oat_update of Omitted \<Rightarrow> todo_completed ?cur_l5 | Given v \<Rightarrow> v),
           todo_status =
             (case p_status oat_update of Omitted \<Rightarrow> todo_status ?cur_l5 | Given v \<Rightarrow> v),
           todo_emoji =
             (case p_emoji oat_update of Omitted \<Rightarrow> todo_emoji ?cur_l5 | Given v \<Rightarrow> v),
           todo_date =
             (case p_date oat_update of Omitted \<Rightarrow> todo_date ?cur_l5 | Given v \<Rightarrow> v),
           todo_time =
             (case p_time oat_update of Omitted \<Rightarrow> todo_time ?cur_l5 | Given v \<Rightarrow> v),
           todo_removed =
             (case p_removed oat_update of Omitted \<Rightarrow> todo_removed ?cur_l5 | Given v \<Rightarrow> v) \<rparr>"
    by (simp add: milk_scope_def scope_of_def flaky_scope_def textless_scope_def)
  note t_l5 = update_reads_then_merges [where env = epoch_env and c = "scope_of [(''a'', NonObject True)]" and ident = "''a''" and updates = "oat_update" and body = no_properties and fetched = ?cur_l5 and overlaid = ?m_l5 and payload = oat_payload, THEN conjunct2, THEN conjunct2, THEN conjunct2, THEN conjunct2, THEN conjunct2, THEN conjunct2, THEN conjunct2, THEN conjunct2, THEN conjunct2, THEN mp, OF h_l5]
  have e_l5: "toStorage epoch_env ?m_l5 = Inr oat_payload \<and> \<not> store_rejects (scope_of [(''a'', NonObject True)]) ''a'' oat_payload"
    by (simp add: plain_item_def fromTodonnaItem_def toTodonnaItem_def fromStorage_def toStorage_def wire_status_def wire_completed_def epoch_env_def oat_update_def oat_item_def oat_payload_def no_updates_def no_properties_def milk_scope_def scope_of_def flaky_scope_def textless_scope_def)
  from t_l5 [THEN conjunct2, THEN conjunct2, THEN mp, OF e_l5]
  have l5: "TodonnaModule_update epoch_env (scope_of [(''a'', NonObject True)]) ''a'' oat_update =
     (Inr (),
      (scope_of [(''a'', NonObject True)])\<lparr>calls := calls (scope_of [(''a'', NonObject True)]) @ [GetObject ''a'' None, StoreObject ''todonna-item'' ''a'' oat_payload],
        objects := AList.update ''a'' (WireObject oat_payload) (objects (scope_of [(''a'', NonObject True)]))\<rparr>)"
    by (rule conjunct1)
  show ?thesis
    unfolding m1 m2 m3 m4 m5 l1 l2 l3 l4 l5
    by (simp add: milk_scope_def scope_of_def flaky_scope_def textless_scope_def)
qed

section \<open>The reload of the hook: lemmas\<close>

lemma load_scope_obs:
  assumes "\<And>v s. F (setter v s) = F s"
  shows "F (case_sum snd (\<lambda>s. s) (load_scope l setter st)) = F st"
  by (cases "(l, setter, st)" rule: load_scope.cases) (simp_all add: assms)

lemma chain_obs:
  assumes "\<And>v s. F (setter v s) = F s"
    and "\<And>s. F (case_sum snd (\<lambda>s. s) (f s)) = F s"
  shows "F (case_sum snd (\<lambda>s. s) (and_then (load_scope l setter st) f)) = F st"
proof (cases "load_scope l setter st")
  case (Inl a)
  with load_scope_obs [of F setter l st, OF assms(1)] show ?thesis by simp
next
  case (Inr b)
  with load_scope_obs [of F setter l st, OF assms(1)] assms(2) [of b] show ?thesis by simp
qed

lemma load_scopes_obs:
  assumes "\<And>v s. F (s\<lparr>itemsList := v\<rparr>) = F s" and "\<And>v s. F (s\<lparr>settings := v\<rparr>) = F s"
    and "\<And>v s. F (s\<lparr>todos := v\<rparr>) = F s" and "\<And>v s. F (s\<lparr>stockItems := v\<rparr>) = F s"
    and "\<And>v s. F (s\<lparr>aiConfig := v\<rparr>) = F s"
  shows "F (case_sum snd (\<lambda>s. s) (load_scopes r st)) = F st"
  unfolding load_scopes_def
  by (rule chain_obs, rule assms, rule chain_obs, rule assms, rule chain_obs, rule assms,
      rule chain_obs, rule assms, rule load_scope_obs, rule assms)

lemma loadAllData_obs:
  assumes "\<And>v s. F (s\<lparr>itemsList := v\<rparr>) = F s" and "\<And>v s. F (s\<lparr>settings := v\<rparr>) = F s"
    and "\<And>v s. F (s\<lparr>todos := v\<rparr>) = F s" and "\<And>v s. F (s\<lparr>stockItems := v\<rparr>) = F s"
    and "\<And>v s. F (s\<lparr>aiConfig := v\<rparr>) = F s"
    and "\<And>v s. F (s\<lparr>isLoading := v\<rparr>) = F s" and "\<And>v s. F (s\<lparr>console_errors := v\<rparr>) = F s"
  shows "F (loadAllData rs st) = F (st\<lparr>loads := loads st + 1\<rparr>)"
proof (cases rs)
  case None
  then show ?thesis by (simp add: loadAllData_def assms(6))
next
  case (Some r)
  let ?st = "st\<lparr>loads := loads st + 1\<rparr>"
  have g: "F (case_sum snd (\<lambda>s. s) (load_scopes r (?st\<lparr>isLoading := True\<rparr>))) = F ?st"
    using load_scopes_obs [of F r "?st\<lparr>isLoading := True\<rparr>", OF assms(1-5)] assms(6) [of True ?st]
    by simp
  show ?thesis
  proof (cases "load_scopes r (?st\<lparr>isLoading := True\<rparr>)")
    case (Inl a)
    with g Some show ?thesis
      by (cases a) (simp add: loadAllData_def Let_def assms(6) assms(7))
  next
    case (Inr b)
    with g Some show ?thesis
      by (simp add: loadAllData_def Let_def assms(6))
  qed
qed

lemma loadAllData_guard: "guard_part (loadAllData rs st) = guard_part st"
  using loadAllData_obs [of guard_part rs st] by (simp add: guard_part_def)

lemma loadAllData_loads: "loads (loadAllData rs st) = loads st + 1"
  using loadAllData_obs [of loads rs st] by simp

section \<open>Claim C8: a loader that fails during the reload\<close>

lemma not_rejects_cases:
  "\<not> rejects l \<Longrightarrow> l = None \<or> (\<exists>v. l = Some (Inr v))"
  by (cases l rule: rejects.cases) simp_all

lemma reload_all_loaded:
  assumes "isConnected st" and "\<not> rejects (getItemsList r)" and "\<not> rejects (loadSettings r)"
    and "\<not> rejects (todonna_getAll r)" and "\<not> rejects (einkauf_getItemsList r)"
    and "\<not> rejects (ai_wallet_getConfig r)"
  shows "loadAllData (Some r) st =
     st\<lparr> loads := loads st + 1,
         itemsList := loaded (getItemsList r) (\<lambda>v. v) (itemsList st),
         settings := loaded (loadSettings r) (\<lambda>v. v) (settings st),
         todos := loaded (todonna_getAll r) array_or_empty (todos st),
         stockItems := loaded (einkauf_getItemsList r) array_or_empty (stockItems st),
         aiConfig := loaded (ai_wallet_getConfig r) or_null (aiConfig st),
         isLoading := False \<rparr>"
  using assms(1) not_rejects_cases [OF assms(2)] not_rejects_cases [OF assms(3)]
    not_rejects_cases [OF assms(4)] not_rejects_cases [OF assms(5)] not_rejects_cases [OF assms(6)]
  by (elim disjE exE) (simp_all add: loadAllData_def load_scopes_def Let_def)

lemma reload_todos_rejected:
  assumes "isConnected st" and "\<not> rejects (getItemsList r)" and "\<not> rejects (loadSettings r)"
    and "todonna_getAll r = Some (Inl e)"
  shows "loadAllData (Some r) st =
     st\<lparr> loads := loads st + 1,
         itemsList := loaded (getItemsList r) (\<lambda>v. v) (itemsList st),
         settings := loaded (loadSettings r) (\<lambda>v. v) (settings st),
         console_errors := console_errors st @ [e],
         isLoading := False \<rparr>"
  using assms(1) assms(4) not_rejects_cases [OF assms(2)] not_rejects_cases [OF assms(3)]
  by (elim disjE exE) (simp_all add: loadAllData_def load_scopes_def Let_def)

text \<open>
  C8, as stated, fails: \<^verbatim>\<open>loadAllData\<close> has one \<^verbatim>\<open>try\<close> block around all five
  loaders. When the todos loader rejects, the stock items and the AI configuration are
  not loaded, although their loaders would succeed.
\<close>

theorem todos_failure_blocks_stock:
  "loadAllData (Some todos_down) fresh_state =
     fresh_state\<lparr> loads := 1, itemsList := Arr [''note''], settings := Obj ''theme: dark'',
                  console_errors := [ClientFailure], isLoading := False \<rparr> \<and>
   einkauf_getItemsList todos_down = Some (Inr (Arr [''milk''])) \<and>
   ai_wallet_getConfig todos_down = Some (Inr (Obj ''endpoint'')) \<and>
   stockItems (loadAllData (Some todos_down) fresh_state) = Arr [] \<and>
   aiConfig (loadAllData (Some todos_down) fresh_state) = Nullish"
  by (simp add: loadAllData_def load_scopes_def todos_down_def all_up_def fresh_state_def Let_def)

text \<open>
  C8, amended. \<^verbatim>\<open>loadAllData\<close> runs the five loaders in one \<^verbatim>\<open>try\<close> block, in the
  order items list, settings, todos, stock items, AI configuration. In a connected hook,
  when a loader rejects and none before it does, the rejection is caught once, for the
  reload as a whole: each scope before the rejecting loader holds what its loader
  returned (or its old value, when the method is not there), the scope of the rejecting
  loader and every scope after it keep their old values, the error is logged and
  \<^verbatim>\<open>isLoading\<close> is reset. This is stated for each of the five loaders. When no loader
  rejects, every scope holds what its loader returned.
\<close>

theorem reload_caught_as_a_whole:
  "(isConnected st \<and> getItemsList r = Some (Inl e) \<longrightarrow>
      loadAllData (Some r) st =
        st\<lparr> loads := loads st + 1,
            console_errors := console_errors st @ [e],
            isLoading := False \<rparr> \<and>
      itemsList (loadAllData (Some r) st) = itemsList st \<and>
      settings (loadAllData (Some r) st) = settings st \<and>
      todos (loadAllData (Some r) st) = todos st \<and>
      stockItems (loadAllData (Some r) st) = stockItems st \<and>
      aiConfig (loadAllData (Some r) st) = aiConfig st)
   \<and> (isConnected st \<and> \<not> rejects (getItemsList r) \<and>
       loadSettings r = Some (Inl e) \<longrightarrow>
      loadAllData (Some r) st =
        st\<lparr> loads := loads st + 1,
            itemsList := loaded (getItemsList r) (\<lambda>v. v) (itemsList st),
            console_errors := console_errors st @ [e],
            isLoading := False \<rparr> \<and>
      settings (loadAllData (Some r) st) = settings st \<and>
      todos (loadAllData (Some r) st) = todos st \<and>
      stockItems (loadAllData (Some r) st) = stockItems st \<and>
      aiConfig (loadAllData (Some r) st) = aiConfig st)
   \<and> (isConnected st \<and> \<not> rejects (getItemsList r) \<and>
       \<not> rejects (loadSettings r) \<and> todonna_getAll r = Some (Inl e) \<longrightarrow>
      loadAllData (Some r) st =
        st\<lparr> loads := loads st + 1,
            itemsList := loaded (getItemsList r) (\<lambda>v. v) (itemsList st),
            settings := loaded (loadSettings r) (\<lambda>v. v) (settings st),
            console_errors := console_errors st @ [e],
            isLoading := False \<rparr> \<and>
      todos (loadAllData (Some r) st) = todos st \<and>
      stockItems (loadAllData (Some r) st) = stockItems st \<and>
      aiConfig (loadAllData (Some r) st) = aiConfig st)
   \<and> (isConnected st \<and> \<not> rejects (getItemsList r) \<and>
       \<not> rejects (loadSettings r) \<and> \<not> rejects (todonna_getAll r) \<and>
       einkauf_getItemsList r = Some (Inl e) \<longrightarrow>
      loadAllData (Some r) st =
        st\<lparr> loads := loads st + 1,
            itemsList := loaded (getItemsList r) (\<lambda>v. v) (itemsList st),
            settings := loaded (loadSettings r) (\<lambda>v. v) (settings st),
            todos := loaded (todonna_getAll r) array_or_empty (todos st),
            console_errors := console_errors st @ [e],
            isLoading := False \<rparr> \<and>
      stockItems (loadAllData (Some r) st) = stockItems st \<and>
      aiConfig (loadAllData (Some r) st) = aiConfig st)
   \<and> (isConnected st \<and> \<not> rejects (getItemsList r) \<and>
       \<not> rejects (loadSettings r) \<and> \<not> rejects (todonna_getAll r) \<and>
       \<not> rejects (einkauf_getItemsList r) \<and>
       ai_wallet_getConfig r = Some (Inl e) \<longrightarrow>
      loadAllData (Some r) st =
        st\<lparr> loads := loads st + 1,
            itemsList := loaded (getItemsList r) (\<lambda>v. v) (itemsList st),
            settings := loaded (loadSettings r) (\<lambda>v. v) (settings st),
            todos := loaded (todonna_getAll r) array_or_empty (todos st),
            stockItems := loaded (einkauf_getItemsList r) array_or_empty (stockItems st),
            console_errors := console_errors st @ [e],
            isLoading := False \<rparr> \<and>
      aiConfig (loadAllData (Some r) st) = aiConfig st)
   \<and> (isConnected st \<and> \<not> rejects (getItemsList r) \<and>
       \<not> rejects (loadSettings r) \<and> \<not> rejects (todonna_getAll r) \<and>
       \<not> rejects (einkauf_getItemsList r) \<and>
       \<not> rejects (ai_wallet_getConfig r) \<longrightarrow>
      loadAllData (Some r) st =
        st\<lparr> loads := loads st + 1,
            itemsList := loaded (getItemsList r) (\<lambda>v. v) (itemsList st),
            settings := loaded (loadSettings r) (\<lambda>v. v) (settings st),
            todos := loaded (todonna_getAll r) array_or_empty (todos st),
            stockItems := loaded (einkauf_getItemsList r) array_or_empty (stockItems st),
            aiConfig := loaded (ai_wallet_getConfig r) or_null (aiConfig st),
            isLoading := False \<rparr>)"
proof (intro conjI impI)
  assume a: "isConnected st \<and> getItemsList r = Some (Inl e)"
  then have h: "isConnected st" "getItemsList r = Some (Inl e)"
    by blast+
  show l: "loadAllData (Some r) st =
        st\<lparr> loads := loads st + 1,
            console_errors := console_errors st @ [e],
            isLoading := False \<rparr>"
    using h(1) h(2)
    by (simp add: loadAllData_def load_scopes_def Let_def)
  show "itemsList (loadAllData (Some r) st) = itemsList st"
    and "settings (loadAllData (Some r) st) = settings st"
    and "todos (loadAllData (Some r) st) = todos st"
    and "stockItems (loadAllData (Some r) st) = stockItems st"
    and "aiConfig (loadAllData (Some r) st) = aiConfig st"
    unfolding l by simp_all
next
  assume a: "isConnected st \<and> \<not> rejects (getItemsList r) \<and>
       loadSettings r = Some (Inl e)"
  then have h: "isConnected st" "\<not> rejects (getItemsList r)" "loadSettings r = Some (Inl e)"
    by blast+
  show l: "loadAllData (Some r) st =
        st\<lparr> loads := loads st + 1,
            itemsList := loaded (getItemsList r) (\<lambda>v. v) (itemsList st),
            console_errors := console_errors st @ [e],
            isLoading := False \<rparr>"
    using h(1) h(3) not_rejects_cases [OF h(2)]
    by (elim disjE exE) (simp_all add: loadAllData_def load_scopes_def Let_def)
  show "settings (loadAllData (Some r) st) = settings st"
    and "todos (loadAllData (Some r) st) = todos st"
    and "stockItems (loadAllData (Some r) st) = stockItems st"
    and "aiConfig (loadAllData (Some r) st) = aiConfig st"
    unfolding l by simp_all
next
  assume a: "isConnected st \<and> \<not> rejects (getItemsList r) \<and>
       \<not> rejects (loadSettings r) \<and> todonna_getAll r = Some (Inl e)"
  then have h: "isConnected st" "\<not> rejects (getItemsList r)" "\<not> rejects (loadSettings r)" "todonna_getAll r = Some (Inl e)"
    by blast+
  show l: "loadAllData (Some r) st =
        st\<lparr> loads := loads st + 1,
            itemsList := loaded (getItemsList r) (\<lambda>v. v) (itemsList st),
            settings := loaded (loadSettings r) (\<lambda>v. v) (settings st),
            console_errors := console_errors st @ [e],
            isLoading := False \<rparr>"
    using h(1) h(4) not_rejects_cases [OF h(2)] not_rejects_cases [OF h(3)]
    by (elim disjE exE) (simp_all add: loadAllData_def load_scopes_def Let_def)
  show "todos (loadAllData (Some r) st) = todos st"
    and "stockItems (loadAllData (Some r) st) = stockItems st"
    and "aiConfig (loadAllData (Some r) st) = aiConfig st"
    unfolding l by simp_all
next
  assume a: "isConnected st \<and> \<not> rejects (getItemsList r) \<and>
       \<not> rejects (loadSettings r) \<and> \<not> rejects (todonna_getAll r) \<and>
       einkauf_getItemsList r = Some (Inl e)"
  then have h: "isConnected st" "\<not> rejects (getItemsList r)" "\<not> rejects (loadSettings r)" "\<not> rejects (todonna_getAll r)" "einkauf_getItemsList r = Some (Inl e)"
    by blast+
  show l: "loadAllData (Some r) st =
        st\<lparr> loads := loads st + 1,
            itemsList := loaded (getItemsList r) (\<lambda>v. v) (itemsList st),
            settings := loaded (loadSettings r) (\<lambda>v. v) (settings st),
            todos := loaded (todonna_getAll r) array_or_empty (todos st),
            console_errors := console_errors st @ [e],
            isLoading := False \<rparr>"
    using h(1) h(5) not_rejects_cases [OF h(2)] not_rejects_cases [OF h(3)] not_rejects_cases [OF h(4)]
    by (elim disjE exE) (simp_all add: loadAllData_def load_scopes_def Let_def)
  show "stockItems (loadAllData (Some r) st) = stockItems st"
    and "aiConfig (loadAllData (Some r) st) = aiConfig st"
    unfolding l by simp_all
next
  assume a: "isConnected st \<and> \<not> rejects (getItemsList r) \<and>
       \<not> rejects (loadSettings r) \<and> \<not> rejects (todonna_getAll r) \<and>
       \<not> rejects (einkauf_getItemsList r) \<and>
       ai_wallet_getConfig r = Some (Inl e)"
  then have h: "isConnected st" "\<not> rejects (getItemsList r)" "\<not> rejects (loadSettings r)" "\<not> rejects (todonna_getAll r)" "\<not> rejects (einkauf_getItemsList r)" "ai_wallet_getConfig r = Some (Inl e)"
    by blast+
  show l: "loadAllData (Some r) st =
        st\<lparr> loads := loads st + 1,
            itemsList := loaded (getItemsList r) (\<lambda>v. v) (itemsList st),
            settings := loaded (loadSettings r) (\<lambda>v. v) (settings st),
            todos := loaded (todonna_getAll r) array_or_empty (todos st),
            stockItems := loaded (einkauf_getItemsList r) array_or_empty (stockItems st),
            console_errors := console_errors st @ [e],
            isLoading := False \<rparr>"
    using h(1) h(6) not_rejects_cases [OF h(2)] not_rejects_cases [OF h(3)] not_rejects_cases [OF h(4)] not_rejects_cases [OF h(5)]
    by (elim disjE exE) (simp_all add: loadAllData_def load_scopes_def Let_def)
  show "aiConfig (loadAllData (Some r) st) = aiConfig st"
    unfolding l by simp_all
next
  assume "isConnected st \<and> \<not> rejects (getItemsList r) \<and>
       \<not> rejects (loadSettings r) \<and> \<not> rejects (todonna_getAll r) \<and>
       \<not> rejects (einkauf_getItemsList r) \<and>
       \<not> rejects (ai_wallet_getConfig r)"
  then show "loadAllData (Some r) st =
        st\<lparr> loads := loads st + 1,
            itemsList := loaded (getItemsList r) (\<lambda>v. v) (itemsList st),
            settings := loaded (loadSettings r) (\<lambda>v. v) (settings st),
            todos := loaded (todonna_getAll r) array_or_empty (todos st),
            stockItems := loaded (einkauf_getItemsList r) array_or_empty (stockItems st),
            aiConfig := loaded (ai_wallet_getConfig r) or_null (aiConfig st),
            isLoading := False \<rparr>"
    by (intro reload_all_loaded) simp_all
qed

theorem reload_caught_as_a_whole_witness:
  "loadAllData (Some (all_up\<lparr>getItemsList := Some (Inl ClientFailure)\<rparr>)) fresh_state =
     fresh_state\<lparr> loads := 1, console_errors := [ClientFailure], isLoading := False \<rparr> \<and>
   loadAllData (Some (all_up\<lparr>loadSettings := Some (Inl ClientFailure)\<rparr>)) fresh_state =
     fresh_state\<lparr> loads := 1, itemsList := Arr [''note''], console_errors := [ClientFailure], isLoading := False \<rparr> \<and>
   loadAllData (Some todos_down) fresh_state =
     fresh_state\<lparr> loads := 1, itemsList := Arr [''note''], settings := Obj ''theme: dark'', console_errors := [ClientFailure], isLoading := False \<rparr> \<and>
   loadAllData (Some (all_up\<lparr>einkauf_getItemsList := Some (Inl ClientFailure)\<rparr>)) fresh_state =
     fresh_state\<lparr> loads := 1, itemsList := Arr [''note''], settings := Obj ''theme: dark'', todos := Arr [''todo''], console_errors := [ClientFailure], isLoading := False \<rparr> \<and>
   loadAllData (Some (all_up\<lparr>ai_wallet_getConfig := Some (Inl ClientFailure)\<rparr>)) fresh_state =
     fresh_state\<lparr> loads := 1, itemsList := Arr [''note''], settings := Obj ''theme: dark'', todos := Arr [''todo''], stockItems := Arr [''milk''], console_errors := [ClientFailure], isLoading := False \<rparr> \<and>
   loadAllData (Some all_up) fresh_state =
     fresh_state\<lparr> loads := 1, itemsList := Arr [''note''], settings := Obj ''theme: dark'', todos := Arr [''todo''], stockItems := Arr [''milk''], aiConfig := Obj ''endpoint'', isLoading := False \<rparr>"
proof -
  have h1: "isConnected fresh_state \<and>
      getItemsList (all_up\<lparr>getItemsList := Some (Inl ClientFailure)\<rparr>) = Some (Inl ClientFailure)"
    by (simp add: fresh_state_def todos_down_def all_up_def)
  note t1 = reload_caught_as_a_whole [where st = fresh_state and r = "all_up\<lparr>getItemsList := Some (Inl ClientFailure)\<rparr>" and e = ClientFailure]
  note c1 = t1 [THEN conjunct1]
  from c1 [THEN mp, OF h1] have a1: "loadAllData (Some (all_up\<lparr>getItemsList := Some (Inl ClientFailure)\<rparr>)) fresh_state =
        fresh_state\<lparr> loads := loads fresh_state + 1,
          console_errors := console_errors fresh_state @ [ClientFailure],
          isLoading := False \<rparr>"
    by (rule conjunct1)
  have h2: "isConnected fresh_state \<and>
      \<not> rejects (getItemsList (all_up\<lparr>loadSettings := Some (Inl ClientFailure)\<rparr>)) \<and>
      loadSettings (all_up\<lparr>loadSettings := Some (Inl ClientFailure)\<rparr>) = Some (Inl ClientFailure)"
    by (simp add: fresh_state_def todos_down_def all_up_def)
  note t2 = reload_caught_as_a_whole [where st = fresh_state and r = "all_up\<lparr>loadSettings := Some (Inl ClientFailure)\<rparr>" and e = ClientFailure]
  note c2 = t2 [THEN conjunct2, THEN conjunct1]
  from c2 [THEN mp, OF h2] have a2: "loadAllData (Some (all_up\<lparr>loadSettings := Some (Inl ClientFailure)\<rparr>)) fresh_state =
        fresh_state\<lparr> loads := loads fresh_state + 1,
          itemsList := loaded (getItemsList (all_up\<lparr>loadSettings := Some (Inl ClientFailure)\<rparr>)) (\<lambda>v. v) (itemsList fresh_state),
          console_errors := console_errors fresh_state @ [ClientFailure],
          isLoading := False \<rparr>"
    by (rule conjunct1)
  have h3: "isConnected fresh_state \<and>
      \<not> rejects (getItemsList todos_down) \<and>
      \<not> rejects (loadSettings todos_down) \<and>
      todonna_getAll todos_down = Some (Inl ClientFailure)"
    by (simp add: fresh_state_def todos_down_def all_up_def)
  note t3 = reload_caught_as_a_whole [where st = fresh_state and r = "todos_down" and e = ClientFailure]
  note c3 = t3 [THEN conjunct2, THEN conjunct2, THEN conjunct1]
  from c3 [THEN mp, OF h3] have a3: "loadAllData (Some todos_down) fresh_state =
        fresh_state\<lparr> loads := loads fresh_state + 1,
          itemsList := loaded (getItemsList todos_down) (\<lambda>v. v) (itemsList fresh_state),
          settings := loaded (loadSettings todos_down) (\<lambda>v. v) (settings fresh_state),
          console_errors := console_errors fresh_state @ [ClientFailure],
          isLoading := False \<rparr>"
    by (rule conjunct1)
  have h4: "isConnected fresh_state \<and>
      \<not> rejects (getItemsList (all_up\<lparr>einkauf_getItemsList := Some (Inl ClientFailure)\<rparr>)) \<and>
      \<not> rejects (loadSettings (all_up\<lparr>einkauf_getItemsList := Some (Inl ClientFailure)\<rparr>)) \<and>
      \<not> rejects (todonna_getAll (all_up\<lparr>einkauf_getItemsList := Some (Inl ClientFailure)\<rparr>)) \<and>
      einkauf_getItemsList (all_up\<lparr>einkauf_getItemsList := Some (Inl ClientFailure)\<rparr>) = Some (Inl ClientFailure)"
    by (simp add: fresh_state_def todos_down_def all_up_def)
  note t4 = reload_caught_as_a_whole [where st = fresh_state and r = "all_up\<lparr>einkauf_getItemsList := Some (Inl ClientFailure)\<rparr>" and e = ClientFailure]
  note c4 = t4 [THEN conjunct2, THEN conjunct2, THEN conjunct2, THEN conjunct1]
  from c4 [THEN mp, OF h4] have a4: "loadAllData (Some (all_up\<lparr>einkauf_getItemsList := Some (Inl ClientFailure)\<rparr>)) fresh_state =
        fresh_state\<lparr> loads := loads fresh_state + 1,
          itemsList := loaded (getItemsList (all_up\<lparr>einkauf_getItemsList := Some (Inl ClientFailure)\<rparr>)) (\<lambda>v. v) (itemsList fresh_state),
          settings := loaded (loadSettings (all_up\<lparr>einkauf_getItemsList := Some (Inl ClientFailure)\<rparr>)) (\<lambda>v. v) (settings fresh_state),
          todos := loaded (todonna_getAll (all_up\<lparr>einkauf_getItemsList := Some (Inl ClientFailure)\<rparr>)) array_or_empty (todos fresh_state),
          console_errors := console_errors fresh_state @ [ClientFailure],
          isLoading := False \<rparr>"
    by (rule conjunct1)
  have h5: "isConnected fresh_state \<and>
      \<not> rejects (getItemsList (all_up\<lparr>ai_wallet_getConfig := Some (Inl ClientFailure)\<rparr>)) \<and>
      \<not> rejects (loadSettings (all_up\<lparr>ai_wallet_getConfig := Some (Inl ClientFailure)\<rparr>)) \<and>
      \<not> rejects (todonna_getAll (all_up\<lparr>ai_wallet_getConfig := Some (Inl ClientFailure)\<rparr>)) \<and>
      \<not> rejects (einkauf_getItemsList (all_up\<lparr>ai_wallet_getConfig := Some (Inl ClientFailure)\<rparr>)) \<and>
      ai_wallet_getConfig (all_up\<lparr>ai_wallet_getConfig := Some (Inl ClientFailure)\<rparr>) = Some (Inl ClientFailure)"
    by (simp add: fresh_state_def todos_down_def all_up_def)
  note t5 = reload_caught_as_a_whole [where st = fresh_state and r = "all_up\<lparr>ai_wallet_getConfig := Some (Inl ClientFailure)\<rparr>" and e = ClientFailure]
  note c5 = t5 [THEN conjunct2, THEN conjunct2, THEN conjunct2, THEN conjunct2, THEN conjunct1]
  from c5 [THEN mp, OF h5] have a5: "loadAllData (Some (all_up\<lparr>ai_wallet_getConfig := Some (Inl ClientFailure)\<rparr>)) fresh_state =
        fresh_state\<lparr> loads := loads fresh_state + 1,
          itemsList := loaded (getItemsList (all_up\<lparr>ai_wallet_getConfig := Some (Inl ClientFailure)\<rparr>)) (\<lambda>v. v) (itemsList fresh_state),
          settings := loaded (loadSettings (all_up\<lparr>ai_wallet_getConfig := Some (Inl ClientFailure)\<rparr>)) (\<lambda>v. v) (settings fresh_state),
          todos := loaded (todonna_getAll (all_up\<lparr>ai_wallet_getConfig := Some (Inl ClientFailure)\<rparr>)) array_or_empty (todos fresh_state),
          stockItems := loaded (einkauf_getItemsList (all_up\<lparr>ai_wallet_getConfig := Some (Inl ClientFailure)\<rparr>)) array_or_empty (stockItems fresh_state),
          console_errors := console_errors fresh_state @ [ClientFailure],
          isLoading := False \<rparr>"
    by (rule conjunct1)
  have h6: "isConnected fresh_state \<and>
      \<not> rejects (getItemsList all_up) \<and>
      \<not> rejects (loadSettings all_up) \<and>
      \<not> rejects (todonna_getAll all_up) \<and>
      \<not> rejects (einkauf_getItemsList all_up) \<and>
      \<not> rejects (ai_wallet_getConfig all_up)"
    by (simp add: fresh_state_def todos_down_def all_up_def)
  note t6 = reload_caught_as_a_whole [where st = fresh_state and r = "all_up"]
  note c6 = t6 [THEN conjunct2, THEN conjunct2, THEN conjunct2, THEN conjunct2, THEN conjunct2]
  from c6 [THEN mp, OF h6] have a6: "loadAllData (Some all_up) fresh_state =
        fresh_state\<lparr> loads := loads fresh_state + 1,
          itemsList := loaded (getItemsList all_up) (\<lambda>v. v) (itemsList fresh_state),
          settings := loaded (loadSettings all_up) (\<lambda>v. v) (settings fresh_state),
          todos := loaded (todonna_getAll all_up) array_or_empty (todos fresh_state),
          stockItems := loaded (einkauf_getItemsList all_up) array_or_empty (stockItems fresh_state),
          aiConfig := loaded (ai_wallet_getConfig all_up) or_null (aiConfig fresh_state),
          isLoading := False \<rparr>" .
  show ?thesis
    unfolding a1 a2 a3 a4 a5 a6 by (simp add: fresh_state_def todos_down_def all_up_def)
qed

section \<open>The saving guard: lemmas\<close>

lemma run_Nil [simp]: "run rs st [] = st"
  by (simp add: run_def)

lemma run_Cons [simp]: "run rs st (ev # evs) = run rs (step rs st ev) evs"
  by (simp add: run_def)

lemma guard_inv_same:
  assumes "isSaving st' = isSaving st" and "timers st' = timers st" and "now_ms st' = now_ms st"
  shows "guard_inv T st' = guard_inv T st"
  by (simp add: guard_inv_def assms)

lemma loadAllData_guard_fields:
  "isSaving (loadAllData rs st) = isSaving st" "timers (loadAllData rs st) = timers st"
  "now_ms (loadAllData rs st) = now_ms st" "pending_saves (loadAllData rs st) = pending_saves st"
  using loadAllData_guard [of rs st] by (simp_all add: guard_part_def)

lemma schedule_reset_inv: "guard_inv T st \<Longrightarrow> guard_inv T (schedule_reset st)"
  by (auto simp: guard_inv_def schedule_reset_def)

lemma elapse_inv: "guard_inv T st \<Longrightarrow> guard_inv T (elapse d st)"
  by (auto simp: guard_inv_def elapse_def Let_def filter_empty_conv)

lemma saveItem_settled_fields:
  "isSaving (saveItem_settled rs r st) = isSaving st"
  "timers (saveItem_settled rs r st) = timers st @ [now_ms st + 100]"
  "now_ms (saveItem_settled rs r st) = now_ms st"
  by (auto simp: saveItem_settled_def schedule_reset_def loadAllData_guard_fields
      split: sum.splits option.splits)

lemma saveItem_settled_inv: "guard_inv T st \<Longrightarrow> guard_inv T (saveItem_settled rs r st)"
  by (auto simp: guard_inv_def saveItem_settled_fields)

lemma step_inv:
  assumes "ev \<noteq> SaveItemCalled" and "guard_inv T st"
  shows "guard_inv T (step rs st ev)"
proof (cases ev)
  case ChangeNotification
  show ?thesis
    using assms(2) guard_inv_same [of "loadAllData rs st" st T]
    by (simp add: ChangeNotification changeHandler_def loadAllData_guard_fields)
next
  case SaveItemCalled
  with assms(1) show ?thesis by simp
next
  case SaveItemSettled
  have "guard_inv T (st\<lparr>pending_saves := pending_saves st - 1\<rparr>)"
    using assms(2) by (simp add: guard_inv_def)
  then show ?thesis
    using assms(2) by (simp add: SaveItemSettled saveItem_settled_inv split: option.splits)
next
  case (Elapse d)
  with assms(2) show ?thesis by (simp add: elapse_inv)
qed

lemma run_inv:
  "SaveItemCalled \<notin> set evs \<Longrightarrow> guard_inv T st \<Longrightarrow> guard_inv T (run rs st evs)"
proof (induction evs arbitrary: st)
  case Nil
  then show ?case by simp
next
  case (Cons ev evs)
  from Cons.prems have "ev \<noteq> SaveItemCalled" "SaveItemCalled \<notin> set evs" by auto
  with Cons.IH [of "step rs st ev"] step_inv [of ev T st rs] Cons.prems(2)
  show ?case by simp
qed

lemma guard_released: "guard_inv T st \<Longrightarrow> T \<le> now_ms st \<Longrightarrow> \<not> isSaving st"
  by (fastforce simp: guard_inv_def)

lemma settled_inv:
  assumes "0 < pending_saves st"
  shows "guard_inv (now_ms (step (Some r) st SaveItemSettled) + 100) (step (Some r) st SaveItemSettled)"
  using assms by (simp add: guard_inv_def saveItem_settled_fields)

section \<open>Claim C7: the saving guard\<close>

text \<open>
  C7. A change notification that arrives while \<^verbatim>\<open>isSavingRef.current\<close> is set leaves
  the state of the hook as it is: \<^verbatim>\<open>loadAllData\<close> is not called. While the guard is
  not set, the notification calls \<^verbatim>\<open>loadAllData\<close>. \<^verbatim>\<open>saveItem\<close> sets the guard
  before its write, so a notification that arrives during the write is dropped. Once the
  write has settled and 100 milliseconds or more have passed since, with no further
  \<^verbatim>\<open>saveItem\<close> call in between, the guard is clear and the same notification calls
  \<^verbatim>\<open>loadAllData\<close>; in a connected hook whose loaders do not reject, that reload gives
  every scope the value its loader returns.
\<close>

theorem saving_guard:
  "(isSaving st \<longrightarrow> step rs st ChangeNotification = st)
   \<and> (\<not> isSaving st \<longrightarrow>
        step rs st ChangeNotification = loadAllData rs st \<and>
        loads (step rs st ChangeNotification) = loads st + 1)
   \<and> (saveItem_called rs st = Inr st1 \<longrightarrow>
        isSaving st1 \<and> step rs st1 ChangeNotification = st1)
   \<and> (0 < pending_saves st1 \<and> SaveItemCalled \<notin> set evs \<and>
       now_ms (step (Some r) st1 SaveItemSettled) + 100
         \<le> now_ms (run (Some r) (step (Some r) st1 SaveItemSettled) evs) \<longrightarrow>
        \<not> isSaving (run (Some r) (step (Some r) st1 SaveItemSettled) evs) \<and>
        step (Some r) (run (Some r) (step (Some r) st1 SaveItemSettled) evs) ChangeNotification =
          loadAllData (Some r) (run (Some r) (step (Some r) st1 SaveItemSettled) evs) \<and>
        loads (step (Some r) (run (Some r) (step (Some r) st1 SaveItemSettled) evs) ChangeNotification) =
          loads (run (Some r) (step (Some r) st1 SaveItemSettled) evs) + 1)
   \<and> (\<not> isSaving st \<and> isConnected st \<and> \<not> rejects (getItemsList r) \<and> \<not> rejects (loadSettings r) \<and>
       \<not> rejects (todonna_getAll r) \<and> \<not> rejects (einkauf_getItemsList r) \<and>
       \<not> rejects (ai_wallet_getConfig r) \<longrightarrow>
        step (Some r) st ChangeNotification =
          st\<lparr> loads := loads st + 1,
              itemsList := loaded (getItemsList r) (\<lambda>v. v) (itemsList st),
              settings := loaded (loadSettings r) (\<lambda>v. v) (settings st),
              todos := loaded (todonna_getAll r) array_or_empty (todos st),
              stockItems := loaded (einkauf_getItemsList r) array_or_empty (stockItems st),
              aiConfig := loaded (ai_wallet_getConfig r) or_null (aiConfig st),
              isLoading := False \<rparr>)"
proof (intro conjI impI)
  assume "isSaving st"
  then show "step rs st ChangeNotification = st" by (simp add: changeHandler_def)
next
  assume "\<not> isSaving st"
  then show "step rs st ChangeNotification = loadAllData rs st"
    and "loads (step rs st ChangeNotification) = loads st + 1"
    by (simp_all add: changeHandler_def loadAllData_loads)
next
  assume "saveItem_called rs st = Inr st1"
  then show s: "isSaving st1"
    by (auto simp: saveItem_called_def split: option.splits if_splits)
  then show "step rs st1 ChangeNotification = st1" by (simp add: changeHandler_def)
next
  let ?s2 = "step (Some r) st1 SaveItemSettled"
  let ?s3 = "run (Some r) ?s2 evs"
  assume a: "0 < pending_saves st1 \<and> SaveItemCalled \<notin> set evs \<and> now_ms ?s2 + 100 \<le> now_ms ?s3"
  then have p: "0 < pending_saves st1" and e: "SaveItemCalled \<notin> set evs"
    and t: "now_ms ?s2 + 100 \<le> now_ms ?s3"
    by blast+
  have "guard_inv (now_ms ?s2 + 100) ?s2" by (rule settled_inv [OF p])
  then have "guard_inv (now_ms ?s2 + 100) ?s3" by (rule run_inv [OF e])
  then show n: "\<not> isSaving ?s3" using t by (rule guard_released)
  then show "step (Some r) ?s3 ChangeNotification = loadAllData (Some r) ?s3"
    and "loads (step (Some r) ?s3 ChangeNotification) = loads ?s3 + 1"
    by (simp_all add: changeHandler_def loadAllData_loads)
next
  assume a: "\<not> isSaving st \<and> isConnected st \<and> \<not> rejects (getItemsList r) \<and> \<not> rejects (loadSettings r) \<and>
       \<not> rejects (todonna_getAll r) \<and> \<not> rejects (einkauf_getItemsList r) \<and>
       \<not> rejects (ai_wallet_getConfig r)"
  then have "step (Some r) st ChangeNotification = loadAllData (Some r) st"
    by (simp add: changeHandler_def)
  also have "\<dots> = st\<lparr> loads := loads st + 1,
              itemsList := loaded (getItemsList r) (\<lambda>v. v) (itemsList st),
              settings := loaded (loadSettings r) (\<lambda>v. v) (settings st),
              todos := loaded (todonna_getAll r) array_or_empty (todos st),
              stockItems := loaded (einkauf_getItemsList r) array_or_empty (stockItems st),
              aiConfig := loaded (ai_wallet_getConfig r) or_null (aiConfig st),
              isLoading := False \<rparr>"
    using a by (intro reload_all_loaded) simp_all
  finally show "step (Some r) st ChangeNotification =
          st\<lparr> loads := loads st + 1,
              itemsList := loaded (getItemsList r) (\<lambda>v. v) (itemsList st),
              settings := loaded (loadSettings r) (\<lambda>v. v) (settings st),
              todos := loaded (todonna_getAll r) array_or_empty (todos st),
              stockItems := loaded (einkauf_getItemsList r) array_or_empty (stockItems st),
              aiConfig := loaded (ai_wallet_getConfig r) or_null (aiConfig st),
              isLoading := False \<rparr>" .
qed

theorem saving_guard_witness:
  "saveItem_called (Some all_up) fresh_state = Inr saving_state \<and>
   isSaving saving_state \<and>
   step (Some all_up) saving_state ChangeNotification = saving_state \<and>
   step (Some all_up) saving_state SaveItemSettled =
     fresh_state\<lparr>isSaving := True, itemsList := Arr [''note''], timers := [100]\<rparr> \<and>
   run (Some all_up) (step (Some all_up) saving_state SaveItemSettled) echo_trace =
     fresh_state\<lparr>itemsList := Arr [''note''], now_ms := 100\<rparr> \<and>
   \<not> isSaving (run (Some all_up) (step (Some all_up) saving_state SaveItemSettled) echo_trace) \<and>
   loads (step (Some all_up)
            (run (Some all_up) (step (Some all_up) saving_state SaveItemSettled) echo_trace)
            ChangeNotification) = 1 \<and>
   step (Some all_up)
     (run (Some all_up) (step (Some all_up) saving_state SaveItemSettled) echo_trace)
     ChangeNotification =
     fresh_state\<lparr> loads := 1, itemsList := Arr [''note''], settings := Obj ''theme: dark'',
                  todos := Arr [''todo''], stockItems := Arr [''milk''],
                  aiConfig := Obj ''endpoint'', isLoading := False, now_ms := 100 \<rparr>"
proof -
  let ?rs = "Some all_up"
  let ?s2 = "step ?rs saving_state SaveItemSettled"
  let ?s3 = "run ?rs ?s2 echo_trace"
  have c: "saveItem_called ?rs fresh_state = Inr saving_state"
    by (simp add: saveItem_called_def saving_state_def fresh_state_def all_up_def)
  have s2: "?s2 = fresh_state\<lparr>isSaving := True, itemsList := Arr [''note''], timers := [100]\<rparr>"
    by (simp add: saveItem_settled_def schedule_reset_def saving_state_def fresh_state_def
        all_up_def)
  have s3: "?s3 = fresh_state\<lparr>itemsList := Arr [''note''], now_ms := 100\<rparr>"
    unfolding s2
    by (simp add: echo_trace_def changeHandler_def elapse_def fresh_state_def Let_def)
  have h: "0 < pending_saves saving_state" "SaveItemCalled \<notin> set echo_trace"
    "now_ms ?s2 + 100 \<le> now_ms ?s3"
    unfolding s3 unfolding s2
    by (simp_all add: saving_state_def echo_trace_def fresh_state_def)
  have g: "\<not> isSaving ?s3" "isConnected ?s3" "\<not> rejects (getItemsList all_up)"
    "\<not> rejects (loadSettings all_up)" "\<not> rejects (todonna_getAll all_up)"
    "\<not> rejects (einkauf_getItemsList all_up)" "\<not> rejects (ai_wallet_getConfig all_up)"
    unfolding s3 by (simp_all add: fresh_state_def all_up_def)
  note t1 = saving_guard [where rs = ?rs and st = fresh_state and ?st1.0 = saving_state
      and r = all_up and evs = echo_trace]
  note t2 = saving_guard [where rs = ?rs and st = ?s3 and r = all_up]
  from t1 c have a1: "isSaving saving_state \<and> step ?rs saving_state ChangeNotification = saving_state"
    by blast
  from t1 h have a2: "\<not> isSaving ?s3 \<and>
      loads (step ?rs ?s3 ChangeNotification) = loads ?s3 + 1"
    by blast
  from t2 g have a3: "step ?rs ?s3 ChangeNotification =
          ?s3\<lparr> loads := loads ?s3 + 1,
              itemsList := loaded (getItemsList all_up) (\<lambda>v. v) (itemsList ?s3),
              settings := loaded (loadSettings all_up) (\<lambda>v. v) (settings ?s3),
              todos := loaded (todonna_getAll all_up) array_or_empty (todos ?s3),
              stockItems := loaded (einkauf_getItemsList all_up) array_or_empty (stockItems ?s3),
              aiConfig := loaded (ai_wallet_getConfig all_up) or_null (aiConfig ?s3),
              isLoading := False \<rparr>"
    by blast
  have a4: "loads (step ?rs ?s3 ChangeNotification) = 1"
    using a2 unfolding s3 by (simp add: fresh_state_def)
  have a5: "step ?rs ?s3 ChangeNotification =
     fresh_state\<lparr> loads := 1, itemsList := Arr [''note''], settings := Obj ''theme: dark'',
                  todos := Arr [''todo''], stockItems := Arr [''milk''],
                  aiConfig := Obj ''endpoint'', isLoading := False, now_ms := 100 \<rparr>"
    unfolding a3 unfolding s3 by (simp add: fresh_state_def all_up_def)
  from c a1 s2 s3 a2 a4 a5 show ?thesis by blast
qed

section \<open>Reconciliation: lemmas\<close>

lemma quiet_None: "quiet None"
  by (simp add: quiet_def progress_def)

lemma stops_None: "\<not> stops None"
  by (simp add: stops_def)

lemma failed_mono:
  "failed res \<le> failed (fst (batch_loop operation ident options n i xs res c))"
proof (induction xs arbitrary: i res c)
  case Nil
  show ?case by simp
next
  case (Cons x xs)
  obtain r c1 where op: "operation c x = (r, c1)" by (cases "operation c x")
  show ?case
  proof (cases r)
    case (Inl e)
    show ?thesis
      using op Inl Cons.IH [of "record_failure res (ident x) e" "i + 1" c1]
      by (cases "stops options") (simp_all add: record_failure_def)
  next
    case (Inr u)
    show ?thesis
    proof (cases "progress options (i + 1) n")
      case Returns
      with op Inr Cons.IH [of "res\<lparr>succeeded := succeeded res + 1\<rparr>" "i + 1" c1]
      show ?thesis by simp
    next
      case Throws
      with op Inr
        Cons.IH [of "record_failure (res\<lparr>succeeded := succeeded res + 1\<rparr>) (ident x) CallbackError" "i + 1" c1]
      show ?thesis
        by (cases "stops options") (simp_all add: record_failure_def)
    qed
  qed
qed

lemma batch_all_ok:
  "failed (fst (batch_loop operation ident None n i xs res c)) = failed res \<Longrightarrow>
     run_all operation xs c = Some (snd (batch_loop operation ident None n i xs res c))"
proof (induction xs arbitrary: i res c)
  case Nil
  show ?case by simp
next
  case (Cons x xs)
  obtain r c1 where op: "operation c x = (r, c1)" by (cases "operation c x")
  show ?case
  proof (cases r)
    case (Inl e)
    have "failed (record_failure res (ident x) e)
        \<le> failed (fst (batch_loop operation ident None n (i + 1) xs (record_failure res (ident x) e) c1))"
      by (rule failed_mono)
    with Cons.prems op Inl show ?thesis
      by (simp add: stops_None record_failure_def)
  next
    case (Inr u)
    with op Cons.prems Cons.IH [of "i + 1" "res\<lparr>succeeded := succeeded res + 1\<rparr>" c1]
    show ?thesis
      by (simp add: quiet_progress [OF quiet_None])
  qed
qed

lemma add_succeeds:
  assumes "Todonna_add env c t = (Inr u, c')"
  shows "\<exists>item. toTodonnaItem env t = Inr item \<and>
           c' = c\<lparr>calls := calls c @ [StoreObject ''todonna-item'' (todo_id t) item],
                   objects := AList.update (todo_id t) (WireObject item) (objects c)\<rparr>"
  using assms unfolding Todonna_add_def storeObject_eq
  by (auto split: sum.splits if_splits)

lemma remove_succeeds:
  assumes "Todonna_remove c k = (Inr u, c')"
  shows "c' = c\<lparr>calls := calls c @ [Remove k], objects := AList.delete k (objects c)\<rparr>"
  using assms by (auto simp: Todonna_remove_def remove_key_def Let_def split: if_splits)

lemma visible_stored:
  "visible_keys (c\<lparr>calls := l, objects := AList.update k (WireObject item) (objects c)\<rparr>) =
     (if fetch_failure c k = None \<and> todo_item_text item \<noteq> None then insert k (visible_keys c)
      else visible_keys c - {k})"
  by (auto simp: visible_keys_def update_conv')

lemma visible_deleted:
  "visible_keys (c\<lparr>calls := l, objects := AList.delete k (objects c)\<rparr>) = visible_keys c - {k}"
  by (auto simp: visible_keys_def delete_conv')

lemma key_is_id_stored:
  "key_is_id c \<Longrightarrow> or_else (todo_item_id item) k = k \<Longrightarrow>
     key_is_id (c\<lparr>calls := l, objects := AList.update k (WireObject item) (objects c)\<rparr>)"
  by (auto simp: key_is_id_def update_conv')

lemma key_is_id_deleted:
  "key_is_id c \<Longrightarrow> key_is_id (c\<lparr>calls := l, objects := AList.delete k (objects c)\<rparr>)"
  by (auto simp: key_is_id_def delete_conv')

lemma or_else_same: "or_else (Some k) k = k"
  by simp

lemma run_all_add:
  "run_all (Todonna_add env) ts c = Some c' \<Longrightarrow>
   \<forall>t \<in> set ts. todo_text t \<noteq> None \<and> fetch_failure c (todo_id t) = None \<Longrightarrow>
   key_is_id c \<Longrightarrow>
     visible_keys c' = visible_keys c \<union> todo_id ` set ts \<and> key_is_id c' \<and>
     fetch_failure c' = fetch_failure c \<and> listing_failure c' = listing_failure c"
proof (induction ts arbitrary: c)
  case Nil
  then show ?case by simp
next
  case (Cons t ts)
  from Cons.prems(1) obtain u c1 where op: "Todonna_add env c t = (Inr u, c1)"
    and rest: "run_all (Todonna_add env) ts c1 = Some c'"
    by (auto split: prod.splits sum.splits)
  from add_succeeds [OF op] obtain item where item: "toTodonnaItem env t = Inr item"
    and c1: "c1 = c\<lparr>calls := calls c @ [StoreObject ''todonna-item'' (todo_id t) item],
                   objects := AList.update (todo_id t) (WireObject item) (objects c)\<rparr>"
    by blast
  have f: "todo_item_id item = Some (todo_id t)" "todo_item_text item = todo_text t"
    using item by (rule toTodonnaItem_fields)+
  have v1: "visible_keys c1 = insert (todo_id t) (visible_keys c)"
    using Cons.prems(2) unfolding c1 visible_stored by (simp add: f)
  have k1: "key_is_id c1"
    unfolding c1 by (rule key_is_id_stored [OF Cons.prems(3)]) (simp add: f)
  have fr: "fetch_failure c1 = fetch_failure c" "listing_failure c1 = listing_failure c"
    by (simp_all add: c1)
  have "\<forall>t \<in> set ts. todo_text t \<noteq> None \<and> fetch_failure c1 (todo_id t) = None"
    using Cons.prems(2) by (simp add: fr)
  from Cons.IH [OF rest this k1] v1 fr show ?case by auto
qed

lemma over_text: "x \<noteq> None \<Longrightarrow> p \<noteq> Given None \<Longrightarrow> over x p \<noteq> None"
  by (cases p) auto

lemma read_key_text: "read_key p \<noteq> None \<Longrightarrow> p \<noteq> Given None"
  by auto

lemma run_all_update:
  "run_all (\<lambda>c1 u. Todonna_update env c1 (fst u) (snd u)) us c = Some c' \<Longrightarrow>
   \<forall>u \<in> set us. fst u \<in> visible_keys c \<and> p_text (snd u) \<noteq> Given None \<Longrightarrow> key_is_id c \<Longrightarrow>
     visible_keys c' = visible_keys c \<and> key_is_id c' \<and>
     fetch_failure c' = fetch_failure c \<and> listing_failure c' = listing_failure c"
proof (induction us arbitrary: c)
  case Nil
  then show ?case by simp
next
  case (Cons u us)
  obtain k upd where u: "u = (k, upd)" by (cases u)
  from Cons.prems(1) obtain v c1 where op: "Todonna_update env c k upd = (Inr v, c1)"
    and rest: "run_all (\<lambda>c1 u. Todonna_update env c1 (fst u) (snd u)) us c1 = Some c'"
    by (auto simp: u split: prod.splits sum.splits)
  from update_succeeds [OF op] obtain existing item where
    ex: "fetch_failure c k = None" "map_of (objects c) k = Some (WireObject existing)"
    and item: "toTodonnaItem env (spread (fromTodonnaItem env (clock env k) k existing) upd k) = Inr item"
    and c1: "c1 = c\<lparr>calls := calls c @ [GetObject k (Some 0), StoreObject ''todonna-item'' k item],
                   objects := AList.update k (WireObject item) (objects c)\<rparr>"
    by blast
  have vis: "k \<in> visible_keys c" and nt: "p_text upd \<noteq> Given None"
    using Cons.prems(2) by (simp_all add: u)
  with ex have tx: "todo_item_text existing \<noteq> None" by (auto simp: visible_keys_def)
  have f: "todo_item_id item = Some k"
    using toTodonnaItem_fields(1) [OF item] by (simp add: spread_def)
  have "todo_item_text item = over (todo_item_text existing) (p_text upd)"
    using toTodonnaItem_fields(2) [OF item] by (simp add: spread_def fromTodonnaItem_def)
  with tx nt have tx': "todo_item_text item \<noteq> None" by (simp add: over_text)
  have v1: "visible_keys c1 = visible_keys c"
    using ex(1) tx' vis unfolding c1 visible_stored by auto
  have k1: "key_is_id c1"
    unfolding c1 by (rule key_is_id_stored [OF Cons.prems(3)]) (simp add: f)
  have fr: "fetch_failure c1 = fetch_failure c" "listing_failure c1 = listing_failure c"
    by (simp_all add: c1)
  have "\<forall>u \<in> set us. fst u \<in> visible_keys c1 \<and> p_text (snd u) \<noteq> Given None"
    using Cons.prems(2) v1 by simp
  from Cons.IH [OF rest this k1] v1 fr show ?case by auto
qed

lemma run_all_remove:
  "run_all Todonna_remove ids c = Some c' \<Longrightarrow>
     visible_keys c' = visible_keys c - set ids \<and> (key_is_id c \<longrightarrow> key_is_id c') \<and>
     fetch_failure c' = fetch_failure c \<and> listing_failure c' = listing_failure c"
proof (induction ids arbitrary: c)
  case Nil
  then show ?case by simp
next
  case (Cons k ids)
  from Cons.prems(1) obtain u c1 where op: "Todonna_remove c k = (Inr u, c1)"
    and rest: "run_all Todonna_remove ids c1 = Some c'"
    by (auto split: prod.splits sum.splits)
  note c1 = remove_succeeds [OF op]
  have v1: "visible_keys c1 = visible_keys c - {k}"
    unfolding c1 by (rule visible_deleted)
  have k1: "key_is_id c \<longrightarrow> key_is_id c1"
    unfolding c1 by (auto intro: key_is_id_deleted)
  have fr: "fetch_failure c1 = fetch_failure c" "listing_failure c1 = listing_failure c"
    by (simp_all add: c1)
  from Cons.IH [OF rest] v1 k1 fr show ?case by auto
qed

lemma getAll_ids:
  assumes "listing_failure c = None" and "key_is_id c"
  shows "\<exists>rs. fst (Todonna_getAll env c options) = Inr rs \<and> set (map todo_id rs) = visible_keys c"
proof -
  from getAll_set [OF assms(1), of env options] obtain rs where
    rs: "fst (Todonna_getAll env c options) = Inr rs"
    "set rs = {fromTodonnaItem env (clock env k) k item | k item.
                 fetch_failure c k = None \<and> map_of (objects c) k = Some (WireObject item) \<and>
                 todo_item_text item \<noteq> None}"
    by blast
  have "todo_id ` set rs = visible_keys c"
  proof (intro set_eqI iffI)
    fix k assume "k \<in> todo_id ` set rs"
    then obtain k' item where "k = todo_id (fromTodonnaItem env (clock env k') k' item)"
      "fetch_failure c k' = None" "map_of (objects c) k' = Some (WireObject item)"
      "todo_item_text item \<noteq> None"
      unfolding rs(2) by blast
    moreover from this assms(2) have "or_else (todo_item_id item) k' = k'"
      by (simp add: key_is_id_def)
    ultimately show "k \<in> visible_keys c"
      by (auto simp: visible_keys_def fromTodonnaItem_def)
  next
    fix k assume "k \<in> visible_keys c"
    then obtain item where i: "fetch_failure c k = None" "map_of (objects c) k = Some (WireObject item)"
      "todo_item_text item \<noteq> None"
      by (auto simp: visible_keys_def)
    with assms(2) have "or_else (todo_item_id item) k = k" by (simp add: key_is_id_def)
    then have "todo_id (fromTodonnaItem env (clock env k) k item) = k"
      by (simp add: fromTodonnaItem_def)
    moreover have "fromTodonnaItem env (clock env k) k item \<in> set rs"
      unfolding rs(2) using i by blast
    ultimately show "k \<in> todo_id ` set rs" by (metis image_eqI)
  qed
  with rs(1) show ?thesis by auto
qed

lemma visible_keys_calls [simp]: "visible_keys (c\<lparr>calls := l\<rparr>) = visible_keys c"
  by (simp add: visible_keys_def)

lemma key_is_id_calls [simp]: "key_is_id (c\<lparr>calls := l\<rparr>) = key_is_id c"
  by (simp add: key_is_id_def)

lemma diff_sets:
  "set (map obj_id (toAdd existing ts)) = set (map obj_id ts) - set (map todo_id existing)"
  "set (map obj_id (toUpdate existing ts)) = set (map obj_id ts) \<inter> set (map todo_id existing)"
  "set (toRemove existing ts) = set (map todo_id existing) - set (map obj_id ts)"
  by (auto simp: toAdd_def toUpdate_def toRemove_def)

lemma as_item_fields [simp]:
  "todo_id (as_item t) = obj_id t" "todo_text (as_item t) = read_key (p_text (obj_keys t))"
  by (simp_all add: as_item_def)

lemma as_updates_text [simp]: "p_text (as_updates t) = p_text (obj_keys t)"
  by (simp add: as_updates_def)

lemma replaceAll_ids:
  assumes k: "key_is_id c"
    and n: "\<forall>t \<in> set ts. read_key (p_text (obj_keys t)) \<noteq> None \<and> fetch_failure c (obj_id t) = None"
    and r: "fst (replaceAll env c ts) = Inr result" and z: "failed result = 0"
  shows "visible_keys (snd (replaceAll env c ts)) = set (map obj_id ts) \<and>
         (\<exists>rs. fst (Todonna_getAll env (snd (replaceAll env c ts)) snapshot_options) = Inr rs \<and>
               set (map todo_id rs) = set (map obj_id ts))"
proof -
  have l: "listing_failure c = None"
  proof (cases "listing_failure c")
    case None
    then show ?thesis .
  next
    case (Some e)
    then have "fst (Todonna_getAll env c snapshot_options) = Inl e"
      by (rule getAll_listing_failed)
    then have "fst (replaceAll env c ts) = Inl e"
      by (cases "Todonna_getAll env c snapshot_options")
        (simp add: replaceAll_def snapshot_options_def)
    with r show ?thesis by simp
  qed
  obtain existing c1 where g: "Todonna_getAll env c snapshot_options = (Inr existing, c1)"
    and c1: "c1 = c\<lparr>calls := calls c @ GetListing [] (Some (opt_maxAge snapshot_options)) #
           map (\<lambda>f. GetObject f (Some (opt_maxAge snapshot_options))) (remdups (map fst (objects c)))\<rparr>"
    using getAll_listed [OF l, of env snapshot_options] by simp
  from getAll_ids [OF l k, of env snapshot_options] g
  have e: "set (map todo_id existing) = visible_keys c" by simp
  let ?adds = "map as_item (toAdd existing ts)"
  let ?updates = "map (\<lambda>t. (obj_id t, as_updates t)) (toUpdate existing ts)"
  obtain addResult c2 where a: "batchAdd env c1 ?adds None = (addResult, c2)"
    by (cases "batchAdd env c1 ?adds None")
  obtain updateResult c3 where u: "batchUpdate env c2 ?updates None = (updateResult, c3)"
    by (cases "batchUpdate env c2 ?updates None")
  obtain removeResult c4 where d: "batchRemove c3 (toRemove existing ts) None = (removeResult, c4)"
    by (cases "batchRemove c3 (toRemove existing ts) None")
  have ra: "replaceAll env c ts = (Inr (merge_results addResult updateResult removeResult), c4)"
    using g a u d by (simp add: replaceAll_def snapshot_options_def)
  with r z have f0: "failed addResult = 0" "failed updateResult = 0" "failed removeResult = 0"
    by (auto simp: merge_results_def)
  have ok_a: "run_all (Todonna_add env) ?adds c1 = Some c2"
    using batch_all_ok [of "Todonna_add env" todo_id "length ?adds" 0 ?adds empty_result c1] a f0(1)
    by (simp add: batchAdd_def empty_result_def)
  have ok_u: "run_all (\<lambda>c1 u. Todonna_update env c1 (fst u) (snd u)) ?updates c2 = Some c3"
    using batch_all_ok [of "\<lambda>c1 u. Todonna_update env c1 (fst u) (snd u)" fst
        "length ?updates" 0 ?updates empty_result c2] u f0(2)
    by (simp add: batchUpdate_def empty_result_def)
  have ok_d: "run_all Todonna_remove (toRemove existing ts) c3 = Some c4"
    using batch_all_ok [of Todonna_remove "\<lambda>ident. ident" "length (toRemove existing ts)" 0
        "toRemove existing ts" empty_result c3] d f0(3)
    by (simp add: batchRemove_def empty_result_def)
  have k1: "key_is_id c1" and v1: "visible_keys c1 = visible_keys c"
    and fr1: "fetch_failure c1 = fetch_failure c" "listing_failure c1 = None"
    using k l by (simp_all add: c1)
  have n1: "\<forall>t \<in> set ?adds. todo_text t \<noteq> None \<and> fetch_failure c1 (todo_id t) = None"
    using n by (auto simp: toAdd_def fr1)
  from run_all_add [OF ok_a n1 k1]
  have s2: "visible_keys c2 = visible_keys c1 \<union> obj_id ` set (toAdd existing ts)" "key_is_id c2"
    "listing_failure c2 = None"
    using fr1 by (simp_all add: image_image)
  have sub: "\<forall>u \<in> set ?updates. fst u \<in> visible_keys c2 \<and> p_text (snd u) \<noteq> Given None"
  proof
    fix u assume "u \<in> set ?updates"
    then obtain t where t: "t \<in> set (toUpdate existing ts)" "u = (obj_id t, as_updates t)"
      by auto
    from t(1) have "obj_id t \<in> set (map todo_id existing)" "t \<in> set ts"
      by (simp_all add: toUpdate_def)
    with e v1 s2(1) n t(2) show "fst u \<in> visible_keys c2 \<and> p_text (snd u) \<noteq> Given None"
      by (auto dest: read_key_text)
  qed
  from run_all_update [OF ok_u sub s2(2)]
  have s3: "visible_keys c3 = visible_keys c2" "key_is_id c3" "listing_failure c3 = None"
    using s2(3) by simp_all
  from run_all_remove [OF ok_d]
  have s4: "visible_keys c4 = visible_keys c3 - set (toRemove existing ts)" "key_is_id c4"
    "listing_failure c4 = None"
    using s3 by simp_all
  have v4: "visible_keys c4 = set (map obj_id ts)"
    using s4(1) s3(1) s2(1) v1 e diff_sets(1) [of existing ts] diff_sets(3) [of existing ts]
    by auto
  with getAll_ids [OF s4(3) s4(2), of env snapshot_options] show ?thesis
    by (simp add: ra)
qed

text \<open>
  The three batches of \<^verbatim>\<open>replaceAll\<close> run under \<^verbatim>\<open>Promise.all\<close>. Whatever the
  order in which their operations take effect, each batch keeping its own order, the
  scope they leave lists the ids of the new list, provided every operation succeeds.
  An operation is taken as one step here; an \<^verbatim>\<open>update\<close> reads and writes one key,
  and no other operation of the three batches works on that key.
\<close>

lemma run_all_ops:
  "run_all (perform env) ops c = Some c' \<Longrightarrow>
   (\<forall>t. AddOp t \<in> set ops \<longrightarrow> todo_text t \<noteq> None \<and> fetch_failure c (todo_id t) = None) \<Longrightarrow>
   (\<forall>k u. UpdateOp k u \<in> set ops \<longrightarrow> k \<in> visible_keys c \<and> p_text u \<noteq> Given None) \<Longrightarrow>
   (\<forall>k. RemoveOp k \<in> set ops \<longrightarrow>
        (\<forall>t. AddOp t \<in> set ops \<longrightarrow> todo_id t \<noteq> k) \<and> (\<forall>u. UpdateOp k u \<notin> set ops)) \<Longrightarrow>
   key_is_id c \<Longrightarrow>
     visible_keys c' = (visible_keys c \<union> {todo_id t | t. AddOp t \<in> set ops}) - {k. RemoveOp k \<in> set ops} \<and>
     key_is_id c' \<and> listing_failure c' = listing_failure c"
proof (induction ops arbitrary: c)
  case Nil
  then show ?case by simp
next
  case (Cons x ops)
  from Cons.prems(1) obtain u c1 where op: "perform env c x = (Inr u, c1)"
    and rest: "run_all (perform env) ops c1 = Some c'"
    by (auto split: prod.splits sum.splits)
  show ?case
  proof (cases x)
    case (AddOp t)
    with op have "Todonna_add env c t = (Inr u, c1)" by simp
    from add_succeeds [OF this] obtain item where item: "toTodonnaItem env t = Inr item"
      and c1: "c1 = c\<lparr>calls := calls c @ [StoreObject ''todonna-item'' (todo_id t) item],
                   objects := AList.update (todo_id t) (WireObject item) (objects c)\<rparr>"
      by blast
    have f: "todo_item_id item = Some (todo_id t)" "todo_item_text item = todo_text t"
      using item by (rule toTodonnaItem_fields)+
    have tx: "todo_text t \<noteq> None" "fetch_failure c (todo_id t) = None"
      using Cons.prems(2) AddOp by auto
    have v1: "visible_keys c1 = insert (todo_id t) (visible_keys c)"
      using tx unfolding c1 visible_stored by (simp add: f)
    have k1: "key_is_id c1"
      unfolding c1 by (rule key_is_id_stored [OF Cons.prems(5)]) (simp add: f)
    have fr: "fetch_failure c1 = fetch_failure c" "listing_failure c1 = listing_failure c"
      by (simp_all add: c1)
    have p2: "\<forall>t. AddOp t \<in> set ops \<longrightarrow> todo_text t \<noteq> None \<and> fetch_failure c1 (todo_id t) = None"
      using Cons.prems(2) by (simp add: fr)
    have p3: "\<forall>k u. UpdateOp k u \<in> set ops \<longrightarrow> k \<in> visible_keys c1 \<and> p_text u \<noteq> Given None"
      using Cons.prems(3) v1 by auto
    have p4: "\<forall>k. RemoveOp k \<in> set ops \<longrightarrow>
        (\<forall>t. AddOp t \<in> set ops \<longrightarrow> todo_id t \<noteq> k) \<and> (\<forall>u. UpdateOp k u \<notin> set ops)"
      using Cons.prems(4) by auto
    have nk: "\<forall>k. RemoveOp k \<in> set ops \<longrightarrow> todo_id t \<noteq> k"
      using Cons.prems(4) AddOp by auto
    from Cons.IH [OF rest p2 p3 p4 k1] v1 fr nk AddOp show ?thesis by auto
  next
    case (UpdateOp k upd)
    with op have "Todonna_update env c k upd = (Inr u, c1)" by simp
    from update_succeeds [OF this] obtain existing item where
      ex: "fetch_failure c k = None" "map_of (objects c) k = Some (WireObject existing)"
      and item: "toTodonnaItem env (spread (fromTodonnaItem env (clock env k) k existing) upd k) = Inr item"
      and c1: "c1 = c\<lparr>calls := calls c @ [GetObject k (Some 0), StoreObject ''todonna-item'' k item],
                   objects := AList.update k (WireObject item) (objects c)\<rparr>"
      by blast
    from Cons.prems(3) UpdateOp have vis: "k \<in> visible_keys c" and nt: "p_text upd \<noteq> Given None"
      by auto
    with ex have tx: "todo_item_text existing \<noteq> None" by (auto simp: visible_keys_def)
    have f: "todo_item_id item = Some k"
      using toTodonnaItem_fields(1) [OF item] by (simp add: spread_def)
    have "todo_item_text item = over (todo_item_text existing) (p_text upd)"
      using toTodonnaItem_fields(2) [OF item] by (simp add: spread_def fromTodonnaItem_def)
    with tx nt have tx': "todo_item_text item \<noteq> None" by (simp add: over_text)
    have v1: "visible_keys c1 = visible_keys c"
      using ex(1) tx' vis unfolding c1 visible_stored by auto
    have k1: "key_is_id c1"
      unfolding c1 by (rule key_is_id_stored [OF Cons.prems(5)]) (simp add: f)
    have fr: "fetch_failure c1 = fetch_failure c" "listing_failure c1 = listing_failure c"
      by (simp_all add: c1)
    have p2: "\<forall>t. AddOp t \<in> set ops \<longrightarrow> todo_text t \<noteq> None \<and> fetch_failure c1 (todo_id t) = None"
      using Cons.prems(2) by (simp add: fr)
    have p3: "\<forall>k u. UpdateOp k u \<in> set ops \<longrightarrow> k \<in> visible_keys c1 \<and> p_text u \<noteq> Given None"
      using Cons.prems(3) v1 by auto
    have p4: "\<forall>k. RemoveOp k \<in> set ops \<longrightarrow>
        (\<forall>t. AddOp t \<in> set ops \<longrightarrow> todo_id t \<noteq> k) \<and> (\<forall>u. UpdateOp k u \<notin> set ops)"
      using Cons.prems(4) by auto
    from Cons.IH [OF rest p2 p3 p4 k1] v1 fr UpdateOp show ?thesis by auto
  next
    case (RemoveOp k)
    with op have "Todonna_remove c k = (Inr u, c1)" by simp
    note c1 = remove_succeeds [OF this]
    have v1: "visible_keys c1 = visible_keys c - {k}"
      unfolding c1 by (rule visible_deleted)
    have k1: "key_is_id c1"
      unfolding c1 by (rule key_is_id_deleted [OF Cons.prems(5)])
    have fr: "fetch_failure c1 = fetch_failure c" "listing_failure c1 = listing_failure c"
      by (simp_all add: c1)
    have p2: "\<forall>t. AddOp t \<in> set ops \<longrightarrow> todo_text t \<noteq> None \<and> fetch_failure c1 (todo_id t) = None"
      using Cons.prems(2) by (simp add: fr)
    have nu: "\<forall>u. UpdateOp k u \<notin> set ops" and na: "\<forall>t. AddOp t \<in> set ops \<longrightarrow> todo_id t \<noteq> k"
      using Cons.prems(4) RemoveOp by auto
    have p3: "\<forall>k u. UpdateOp k u \<in> set ops \<longrightarrow> k \<in> visible_keys c1 \<and> p_text u \<noteq> Given None"
      using Cons.prems(3) v1 nu by auto
    have p4: "\<forall>k. RemoveOp k \<in> set ops \<longrightarrow>
        (\<forall>t. AddOp t \<in> set ops \<longrightarrow> todo_id t \<noteq> k) \<and> (\<forall>u. UpdateOp k u \<notin> set ops)"
      using Cons.prems(4) by auto
    from Cons.IH [OF rest p2 p3 p4 k1] v1 fr na RemoveOp show ?thesis by auto
  qed
qed

lemma replaceAll_any_order:
  assumes k: "key_is_id c"
    and n: "\<forall>t \<in> set ts. read_key (p_text (obj_keys t)) \<noteq> None \<and> fetch_failure c (obj_id t) = None"
    and g: "Todonna_getAll env c snapshot_options = (Inr existing, c1)"
    and w: "ws \<in> shuffles (update_ops existing ts) (remove_ops existing ts)"
    and s: "schedule \<in> shuffles (add_ops existing ts) ws"
    and r: "run_all (perform env) schedule c1 = Some c'"
  shows "visible_keys c' = set (map obj_id ts) \<and>
         (\<exists>rs. fst (Todonna_getAll env c' snapshot_options) = Inr rs \<and>
               set (map todo_id rs) = set (map obj_id ts))"
proof -
  have l: "listing_failure c = None"
  proof (cases "listing_failure c")
    case None
    then show ?thesis .
  next
    case (Some e)
    from getAll_listing_failed [OF this, of env snapshot_options] g show ?thesis by simp
  qed
  have c1: "c1 = c\<lparr>calls := calls c @ GetListing [] (Some (opt_maxAge snapshot_options)) #
           map (\<lambda>f. GetObject f (Some (opt_maxAge snapshot_options))) (remdups (map fst (objects c)))\<rparr>"
    using getAll_listed [OF l, of env snapshot_options] g by simp
  from getAll_ids [OF l k, of env snapshot_options] g
  have e: "set (map todo_id existing) = visible_keys c" by simp
  have ops: "set schedule = set (add_ops existing ts) \<union> set (update_ops existing ts) \<union>
      set (remove_ops existing ts)"
    using set_shuffles [OF s] set_shuffles [OF w] by auto
  have k1: "key_is_id c1" and v1: "visible_keys c1 = visible_keys c"
    and fr1: "fetch_failure c1 = fetch_failure c" "listing_failure c1 = None"
    using k l by (simp_all add: c1)
  have p2: "\<forall>t. AddOp t \<in> set schedule \<longrightarrow> todo_text t \<noteq> None \<and> fetch_failure c1 (todo_id t) = None"
    using n by (auto simp: ops add_ops_def update_ops_def remove_ops_def toAdd_def fr1)
  have p3: "\<forall>k u. UpdateOp k u \<in> set schedule \<longrightarrow> k \<in> visible_keys c1 \<and> p_text u \<noteq> Given None"
    using e v1 n
    by (auto simp: ops add_ops_def update_ops_def remove_ops_def toUpdate_def dest: read_key_text)
  have p4: "\<forall>k. RemoveOp k \<in> set schedule \<longrightarrow>
        (\<forall>t. AddOp t \<in> set schedule \<longrightarrow> todo_id t \<noteq> k) \<and> (\<forall>u. UpdateOp k u \<notin> set schedule)"
    by (auto simp: ops add_ops_def update_ops_def remove_ops_def toAdd_def toUpdate_def toRemove_def)
  have "{t. AddOp t \<in> set schedule} = as_item ` set (toAdd existing ts)"
    by (auto simp: ops add_ops_def update_ops_def remove_ops_def)
  moreover have "{todo_id t | t. AddOp t \<in> set schedule} = todo_id ` {t. AddOp t \<in> set schedule}"
    by auto
  ultimately have a: "{todo_id t | t. AddOp t \<in> set schedule} = set (map obj_id (toAdd existing ts))"
    by (simp add: image_image)
  have d: "{k. RemoveOp k \<in> set schedule} = set (toRemove existing ts)"
    by (auto simp: ops add_ops_def update_ops_def remove_ops_def)
  from run_all_ops [OF r p2 p3 p4 k1]
  have s4: "visible_keys c' = (visible_keys c1 \<union> set (map obj_id (toAdd existing ts))) -
      set (toRemove existing ts)" "key_is_id c'" "listing_failure c' = None"
    using fr1 by (simp_all add: a d)
  have "visible_keys c' = set (map obj_id ts)"
    using s4(1) v1 e diff_sets(1) [of existing ts] diff_sets(3) [of existing ts] by auto
  with getAll_ids [OF s4(3) s4(2), of env snapshot_options] show ?thesis by simp
qed

lemma append_in_shuffles: "xs @ ys \<in> shuffles xs ys"
  by (induction xs) (auto intro: Cons_in_shuffles_leftI)

lemma sequential_order:
  "add_ops existing ts @ update_ops existing ts @ remove_ops existing ts
     \<in> shuffles (add_ops existing ts) (update_ops existing ts @ remove_ops existing ts)"
  "update_ops existing ts @ remove_ops existing ts
     \<in> shuffles (update_ops existing ts) (remove_ops existing ts)"
  by (rule append_in_shuffles)+

section \<open>Claim C1: reconciliation\<close>

lemmas evaluation =
  replaceAll_def Todonna_getAll_def getListing_def getObject_def batchAdd_def
  batchUpdate_def batchRemove_def Todonna_add_def update_eq storeObject_eq Todonna_remove_def
  remove_key_def toAdd_def toUpdate_def toRemove_def scope_of_def
  plain_item_def plain_todo_def epoch_env_def fromTodonnaItem_def toTodonnaItem_def
  wire_status_def wire_completed_def spread_def as_updates_def as_item_def plain_object_def
  walked_def no_updates_def progress_def stops_def
  empty_result_def record_failure_def merge_results_def opt_maxAge_def opt_includeRemoved_def
  snapshot_options_def Let_def

text \<open>
  The record \<^verbatim>\<open>{ id: '1', text: 'walk', completed: true, emoji: undefined }\<close> has the
  key \<^verbatim>\<open>emoji\<close>, so updating with it through \<^verbatim>\<open>replaceAll\<close> drops the emoji of
  the stored record; the record \<^verbatim>\<open>{ id: '1', text: 'walk' }\<close> does not have the key
  and leaves the emoji as it is.
\<close>

lemma replaceAll_spreads_own_keys:
  "objects (snd (replaceAll epoch_env
      (scope_of [(''1'', WireObject ((plain_item (Some ''1'') (Some ''walk''))\<lparr>item_emoji := Some ''!''\<rparr>))])
      [walked])) =
     [(''1'', WireObject \<lparr> todo_item_id = Some ''1'', todo_item_text = Some ''walk'',
                           todo_item_status = Some Done, item_emoji = None,
                           item_date = Some ''1970-01-01T00:00:00.000Z'', item_time = None,
                           item_completed = None, item_removed = None \<rparr>)]"
  "objects (snd (replaceAll epoch_env
      (scope_of [(''1'', WireObject ((plain_item (Some ''1'') (Some ''walk''))\<lparr>item_emoji := Some ''!''\<rparr>))])
      [plain_object ''1'' ''walk''])) =
     [(''1'', WireObject \<lparr> todo_item_id = Some ''1'', todo_item_text = Some ''walk'',
                           todo_item_status = Some Pending, item_emoji = Some ''!'',
                           item_date = Some ''1970-01-01T00:00:00.000Z'', item_time = None,
                           item_completed = None, item_removed = None \<rparr>)]"
  by (simp_all add: evaluation)

text \<open>
  C1 at a concrete scope. The one object of the scope is stored at key \<open>k1\<close> and names
  \<open>x\<close> as its id. \<^verbatim>\<open>replaceAll([])\<close> takes the snapshot, in which the record has
  the id \<open>x\<close>, and removes the key \<open>x\<close>, at which nothing is stored. It reports one
  success and no failure, and the object is still stored at \<open>k1\<close>: the scope still
  lists the id \<open>x\<close>, which the new list does not have.
\<close>

theorem replaceAll_leaves_foreign_key:
  "replaceAll epoch_env foreign_scope [] =
     (Inr \<lparr> succeeded = 1, failed = 0, errors = [] \<rparr>,
      foreign_scope\<lparr>calls := [GetListing [] (Some 86400000), GetObject ''k1'' (Some 86400000),
                                Remove ''x'']\<rparr>) \<and>
   objects (snd (replaceAll epoch_env foreign_scope [])) =
     [(''k1'', WireObject (plain_item (Some ''x'') (Some ''milk'')))] \<and>
   fst (Todonna_getAll epoch_env (snd (replaceAll epoch_env foreign_scope [])) snapshot_options) =
     Inr [fromTodonnaItem epoch_env 0 ''k1'' (plain_item (Some ''x'') (Some ''milk''))] \<and>
   todo_id (fromTodonnaItem epoch_env 0 ''k1'' (plain_item (Some ''x'') (Some ''milk''))) = ''x''"
  by (simp add: evaluation foreign_scope_def)

text \<open>
  Where every stored object sits at the key that is its id, the reconciliation is
  complete. For every snapshot and every new list, the ids to add are the ids of the new
  list that the snapshot lacks, the ids to update are those both have, the ids to remove
  are those only the snapshot has; the three sets are pairwise disjoint and together
  they are the ids of the snapshot and the new list. Let every stored object sit at the
  key that is its id, let every record of the new list have a text, let the backend not
  reject the fetch of the key of any new record, and let \<^verbatim>\<open>replaceAll\<close> report no
  failure. Then the keys at which the resulting scope holds a record that can be fetched
  and decoded are exactly the ids of the new list, and so are the ids that \<^verbatim>\<open>getAll\<close>
  with \<^verbatim>\<open>includeRemoved\<close> lists on it. The same holds of the scope that the
  operations of the three batches leave when they all succeed, in whatever order they
  take effect, each batch keeping its own order and each operation taken as one step.
\<close>

theorem replaceAll_reconciles:
  "set (map obj_id (toAdd existing ts)) = set (map obj_id ts) - set (map todo_id existing)
   \<and> set (map obj_id (toUpdate existing ts)) = set (map obj_id ts) \<inter> set (map todo_id existing)
   \<and> set (toRemove existing ts) = set (map todo_id existing) - set (map obj_id ts)
   \<and> set (map obj_id (toAdd existing ts)) \<inter> set (map obj_id (toUpdate existing ts)) = {}
   \<and> set (map obj_id (toAdd existing ts)) \<inter> set (toRemove existing ts) = {}
   \<and> set (map obj_id (toUpdate existing ts)) \<inter> set (toRemove existing ts) = {}
   \<and> set (map obj_id (toAdd existing ts)) \<union> set (map obj_id (toUpdate existing ts)) \<union>
       set (toRemove existing ts) = set (map todo_id existing) \<union> set (map obj_id ts)
   \<and> (key_is_id c \<and>
       (\<forall>t \<in> set ts. read_key (p_text (obj_keys t)) \<noteq> None \<and> fetch_failure c (obj_id t) = None) \<and>
       fst (replaceAll env c ts) = Inr result \<and> failed result = 0 \<longrightarrow>
        visible_keys (snd (replaceAll env c ts)) = set (map obj_id ts) \<and>
        (\<exists>rs. fst (Todonna_getAll env (snd (replaceAll env c ts)) snapshot_options) = Inr rs \<and>
              set (map todo_id rs) = set (map obj_id ts)))
   \<and> (key_is_id c \<and>
       (\<forall>t \<in> set ts. read_key (p_text (obj_keys t)) \<noteq> None \<and> fetch_failure c (obj_id t) = None) \<and>
       Todonna_getAll env c snapshot_options = (Inr snapshot, c1) \<and>
       ws \<in> shuffles (update_ops snapshot ts) (remove_ops snapshot ts) \<and>
       schedule \<in> shuffles (add_ops snapshot ts) ws \<and>
       run_all (perform env) schedule c1 = Some c' \<longrightarrow>
        visible_keys c' = set (map obj_id ts) \<and>
        (\<exists>rs. fst (Todonna_getAll env c' snapshot_options) = Inr rs \<and>
              set (map todo_id rs) = set (map obj_id ts)))"
proof (intro conjI impI)
  show "set (map obj_id (toAdd existing ts)) = set (map obj_id ts) - set (map todo_id existing)"
    and "set (map obj_id (toUpdate existing ts)) = set (map obj_id ts) \<inter> set (map todo_id existing)"
    and "set (toRemove existing ts) = set (map todo_id existing) - set (map obj_id ts)"
    by (rule diff_sets)+
  show "set (map obj_id (toAdd existing ts)) \<inter> set (map obj_id (toUpdate existing ts)) = {}"
    and "set (map obj_id (toAdd existing ts)) \<inter> set (toRemove existing ts) = {}"
    and "set (map obj_id (toUpdate existing ts)) \<inter> set (toRemove existing ts) = {}"
    unfolding diff_sets by blast+
  show "set (map obj_id (toAdd existing ts)) \<union> set (map obj_id (toUpdate existing ts)) \<union>
       set (toRemove existing ts) = set (map todo_id existing) \<union> set (map obj_id ts)"
    unfolding diff_sets by blast
next
  assume a: "key_is_id c \<and>
       (\<forall>t \<in> set ts. read_key (p_text (obj_keys t)) \<noteq> None \<and> fetch_failure c (obj_id t) = None) \<and>
       fst (replaceAll env c ts) = Inr result \<and> failed result = 0"
  then have k: "key_is_id c"
    and n: "\<forall>t \<in> set ts. read_key (p_text (obj_keys t)) \<noteq> None \<and> fetch_failure c (obj_id t) = None"
    and r: "fst (replaceAll env c ts) = Inr result" and z: "failed result = 0"
    by blast+
  from replaceAll_ids [OF k n r z]
  show "visible_keys (snd (replaceAll env c ts)) = set (map obj_id ts)"
    and "\<exists>rs. fst (Todonna_getAll env (snd (replaceAll env c ts)) snapshot_options) = Inr rs \<and>
              set (map todo_id rs) = set (map obj_id ts)"
    by blast+
next
  assume a: "key_is_id c \<and>
       (\<forall>t \<in> set ts. read_key (p_text (obj_keys t)) \<noteq> None \<and> fetch_failure c (obj_id t) = None) \<and>
       Todonna_getAll env c snapshot_options = (Inr snapshot, c1) \<and>
       ws \<in> shuffles (update_ops snapshot ts) (remove_ops snapshot ts) \<and>
       schedule \<in> shuffles (add_ops snapshot ts) ws \<and>
       run_all (perform env) schedule c1 = Some c'"
  then have k: "key_is_id c"
    and n: "\<forall>t \<in> set ts. read_key (p_text (obj_keys t)) \<noteq> None \<and> fetch_failure c (obj_id t) = None"
    and g: "Todonna_getAll env c snapshot_options = (Inr snapshot, c1)"
    and w: "ws \<in> shuffles (update_ops snapshot ts) (remove_ops snapshot ts)"
    and s: "schedule \<in> shuffles (add_ops snapshot ts) ws"
    and r: "run_all (perform env) schedule c1 = Some c'"
    by blast+
  from replaceAll_any_order [OF k n g w s r]
  show "visible_keys c' = set (map obj_id ts)"
    and "\<exists>rs. fst (Todonna_getAll env c' snapshot_options) = Inr rs \<and>
              set (map todo_id rs) = set (map obj_id ts)"
    by blast+
qed

theorem replaceAll_reconciles_witness:
  "key_is_id two_scope \<and>
   list_all (\<lambda>t. read_key (p_text (obj_keys t)) \<noteq> None \<and> fetch_failure two_scope (obj_id t) = None)
     new_two \<and>
   fst (replaceAll epoch_env two_scope new_two) = Inr \<lparr> succeeded = 3, failed = 0, errors = [] \<rparr> \<and>
   set (map obj_id (toAdd two_existing new_two)) = {''2''} \<and>
   set (map obj_id (toUpdate two_existing new_two)) = {''1''} \<and>
   set (toRemove two_existing new_two) = {''3''} \<and>
   visible_keys (snd (replaceAll epoch_env two_scope new_two)) = {''1'', ''2''} \<and>
   (\<exists>rs. fst (Todonna_getAll epoch_env (snd (replaceAll epoch_env two_scope new_two))
              snapshot_options) = Inr rs \<and>
         set (map todo_id rs) = {''1'', ''2''}) \<and>
   Todonna_getAll epoch_env two_scope snapshot_options = (Inr two_existing, two_snapshot) \<and>
   two_schedule \<in> shuffles (add_ops two_existing new_two)
     [RemoveOp ''3'', UpdateOp ''1'' (as_updates walked)] \<and>
   (\<exists>c'. run_all (perform epoch_env) two_schedule two_snapshot = Some c' \<and>
      visible_keys c' = {''1'', ''2''} \<and>
      (\<exists>rs. fst (Todonna_getAll epoch_env c' snapshot_options) = Inr rs \<and>
            set (map todo_id rs) = {''1'', ''2''}))"
proof -
  have k: "key_is_id two_scope"
    by (simp add: key_is_id_def two_scope_def scope_of_def plain_item_def)
  have n: "\<forall>t \<in> set new_two. read_key (p_text (obj_keys t)) \<noteq> None \<and>
      fetch_failure two_scope (obj_id t) = None"
    by (simp add: new_two_def walked_def plain_object_def no_updates_def two_scope_def scope_of_def)
  have r: "fst (replaceAll epoch_env two_scope new_two) = Inr \<lparr> succeeded = 3, failed = 0, errors = [] \<rparr>"
    by (simp add: evaluation two_scope_def new_two_def)
  have z: "failed \<lparr> succeeded = 3, failed = 0, errors = [] \<rparr> = 0" by simp
  have i: "map todo_id two_existing = [''1'', ''3'']" "map obj_id new_two = [''1'', ''2'']"
    by (simp_all add: two_existing_def new_two_def fromTodonnaItem_def plain_item_def
        walked_def plain_object_def)
  note t = replaceAll_reconciles [where existing = two_existing and ts = new_two and c = two_scope
      and env = epoch_env and result = "\<lparr> succeeded = 3, failed = 0, errors = [] \<rparr>"]
  have "set (map obj_id (toAdd two_existing new_two)) =
      set (map obj_id new_two) - set (map todo_id two_existing)"
    by (rule t [THEN conjunct1])
  then have a1: "set (map obj_id (toAdd two_existing new_two)) = {''2''}"
    unfolding i by simp
  have "set (map obj_id (toUpdate two_existing new_two)) =
      set (map obj_id new_two) \<inter> set (map todo_id two_existing)"
    by (rule t [THEN conjunct2, THEN conjunct1])
  then have a2: "set (map obj_id (toUpdate two_existing new_two)) = {''1''}"
    unfolding i by simp
  have "set (toRemove two_existing new_two) =
      set (map todo_id two_existing) - set (map obj_id new_two)"
    by (rule t [THEN conjunct2, THEN conjunct2, THEN conjunct1])
  then have a3: "set (toRemove two_existing new_two) = {''3''}"
    unfolding i by simp
  note t1 = t [THEN conjunct2, THEN conjunct2, THEN conjunct2, THEN conjunct2, THEN conjunct2,
      THEN conjunct2, THEN conjunct2, THEN conjunct1]
  have b: "visible_keys (snd (replaceAll epoch_env two_scope new_two)) = set (map obj_id new_two) \<and>
      (\<exists>rs. fst (Todonna_getAll epoch_env (snd (replaceAll epoch_env two_scope new_two))
              snapshot_options) = Inr rs \<and> set (map todo_id rs) = set (map obj_id new_two))"
    by (rule mp [OF t1]) (intro conjI k n r z)
  then have a4: "visible_keys (snd (replaceAll epoch_env two_scope new_two)) = {''1'', ''2''}"
    unfolding i by simp
  from b have "\<exists>rs. fst (Todonna_getAll epoch_env (snd (replaceAll epoch_env two_scope new_two))
              snapshot_options) = Inr rs \<and> set (map todo_id rs) = set (map obj_id new_two)"
    by (rule conjunct2)
  then have a5: "\<exists>rs. fst (Todonna_getAll epoch_env (snd (replaceAll epoch_env two_scope new_two))
              snapshot_options) = Inr rs \<and> set (map todo_id rs) = {''1'', ''2''}"
    unfolding i by simp
  from n have n': "list_all (\<lambda>t. read_key (p_text (obj_keys t)) \<noteq> None \<and>
      fetch_failure two_scope (obj_id t) = None) new_two"
    by (simp add: list_all_iff)
  let ?u = "UpdateOp ''1'' (as_updates walked)"
  have g: "Todonna_getAll epoch_env two_scope snapshot_options = (Inr two_existing, two_snapshot)"
    by (simp add: evaluation two_scope_def two_existing_def two_snapshot_def)
  have o: "add_ops two_existing new_two = [AddOp (plain_todo ''2'' ''shop'')]"
    "update_ops two_existing new_two = [?u]" "remove_ops two_existing new_two = [RemoveOp ''3'']"
    by (simp_all add: add_ops_def update_ops_def remove_ops_def toAdd_def toUpdate_def
        toRemove_def two_existing_def new_two_def fromTodonnaItem_def plain_item_def
        plain_todo_def walked_def plain_object_def as_item_def no_updates_def)
  have w: "[RemoveOp ''3'', ?u] \<in> shuffles (update_ops two_existing new_two) (remove_ops two_existing new_two)"
    unfolding o by simp
  have s: "two_schedule \<in> shuffles (add_ops two_existing new_two) [RemoveOp ''3'', ?u]"
    unfolding o two_schedule_def by simp
  have "run_all (perform epoch_env) two_schedule two_snapshot \<noteq> None"
    by (simp add: evaluation two_schedule_def two_snapshot_def two_scope_def)
  then obtain c' where c': "run_all (perform epoch_env) two_schedule two_snapshot = Some c'"
    by blast
  note t' = replaceAll_reconciles [where ts = new_two and c = two_scope and env = epoch_env
      and snapshot = two_existing and ?c1.0 = two_snapshot and ws = "[RemoveOp ''3'', ?u]"
      and schedule = two_schedule and c' = c']
  note t2 = t' [THEN conjunct2, THEN conjunct2, THEN conjunct2, THEN conjunct2, THEN conjunct2,
      THEN conjunct2, THEN conjunct2, THEN conjunct2]
  have "visible_keys c' = set (map obj_id new_two) \<and>
      (\<exists>rs. fst (Todonna_getAll epoch_env c' snapshot_options) = Inr rs \<and>
      set (map todo_id rs) = set (map obj_id new_two))"
    by (rule mp [OF t2]) (intro conjI k n g w s c')
  then have a6: "visible_keys c' = {''1'', ''2''} \<and>
      (\<exists>rs. fst (Todonna_getAll epoch_env c' snapshot_options) = Inr rs \<and>
      set (map todo_id rs) = {''1'', ''2''})"
    unfolding i by simp
  then have a7: "\<exists>c'. run_all (perform epoch_env) two_schedule two_snapshot = Some c' \<and>
      visible_keys c' = {''1'', ''2''} \<and>
      (\<exists>rs. fst (Todonna_getAll epoch_env c' snapshot_options) = Inr rs \<and>
            set (map todo_id rs) = {''1'', ''2''})"
    by (intro exI [of _ c'] conjI c') (rule conjunct1, assumption, rule conjunct2, assumption)
  from k n' r a1 a2 a3 a4 a5 g s a7 show ?thesis by (intro conjI)
qed

end
